(* ===== verification/GoPrelude.thy ===== *)
theory GoPrelude
  imports Main "HOL-Library.Word"
begin

text \<open>
  Shared vocabulary of the development: the machine integers of Go, results with an error
  or a run-time panic, decimal rendering and parsing of integers, Go's truncating division,
  and the list lemmas that several components use.

  A Go function that returns \<open>(T, error)\<close> is modelled by a function into \<open>'e + 'a\<close>, with
  \<open>Inl\<close> for the error. A run-time panic (an index out of range, a failed type assertion, a
  nil dereference) is a value of the error type of the component, never an unspecified HOL
  value.
\<close>

section \<open>Collections of facts\<close>

named_theorems go_defs \<open>definitions that component proofs unfold\<close>
named_theorems go_inv \<open>preservation lemmas for the invariants of the components\<close>

named_theorems go_eval \<open>equations that evaluate closed terms\<close>

lemmas char_eval [go_eval] = char_of_def bit_0

section \<open>Machine integers\<close>

type_synonym int64 = "64 word"
type_synonym uint32 = "32 word"

text \<open>Go's \<open>/\<close> on signed integers truncates towards zero; the result wraps only for the most
  negative value divided by minus one, which \<open>word_of_int\<close> performs.\<close>

definition tdiv :: "int \<Rightarrow> int \<Rightarrow> int" where
  "tdiv a b = sgn a * sgn b * (\<bar>a\<bar> div \<bar>b\<bar>)"

definition sdiv64 :: "int64 \<Rightarrow> int64 \<Rightarrow> int64" where
  "sdiv64 a b = word_of_int (tdiv (sint a) (sint b))"

lemma tdiv_nonneg: "0 \<le> a \<Longrightarrow> 0 < b \<Longrightarrow> tdiv a b = a div b"
  by (cases "a = 0") (auto simp: tdiv_def)

lemma sint_range64: "- (2 ^ 63) \<le> sint (a :: int64)" "sint (a :: int64) < 2 ^ 63"
  using sint_greater_eq [of a] sint_less [of a] by simp_all

lemma sint_of_int64: "- (2 ^ 63) \<le> i \<Longrightarrow> i < 2 ^ 63 \<Longrightarrow> sint (word_of_int i :: int64) = i"
  by (simp add: signed_take_bit_int_eq_self sint_sbintrunc')

lemma sint_add64:
  "- (2 ^ 63) \<le> sint a + sint b \<Longrightarrow> sint a + sint b < 2 ^ 63
   \<Longrightarrow> sint (a + b :: int64) = sint a + sint b"
  by (simp add: sint_word_add signed_take_bit_int_eq_self)

lemma sint_mult64:
  "- (2 ^ 63) \<le> sint a * sint b \<Longrightarrow> sint a * sint b < 2 ^ 63
   \<Longrightarrow> sint (a * b :: int64) = sint a * sint b"
  by (simp add: sint_word_mult signed_take_bit_int_eq_self)

lemma sint_sub64:
  "- (2 ^ 63) \<le> sint a - sint b \<Longrightarrow> sint a - sint b < 2 ^ 63
   \<Longrightarrow> sint (a - b :: int64) = sint a - sint b"
  by (simp add: sint_word_diff signed_take_bit_int_eq_self)

section \<open>Decimal numbers\<close>

text \<open>\<open>strconv.Itoa\<close> and the verb \<open>%d\<close>.\<close>

fun digits_nat :: "nat \<Rightarrow> string" where
  "digits_nat n =
     (if n < 10 then [char_of (48 + n)] else digits_nat (n div 10) @ [char_of (48 + n mod 10)])"

declare digits_nat.simps [simp del]

definition itoa :: "int \<Rightarrow> string" where
  "itoa i = (if i < 0 then ''-'' @ digits_nat (nat (- i)) else digits_nat (nat i))"

text \<open>\<open>strconv.ParseInt(s, 10, 64)\<close>: an optional sign, one or more decimal digits, and a
  value that fits 64 bits; \<open>None\<close> is the error result. Underscores are only accepted for base
  0, so they are a syntax error here.\<close>

definition is_digit :: "char \<Rightarrow> bool" where
  "is_digit c \<longleftrightarrow> 48 \<le> (of_char c :: nat) \<and> (of_char c :: nat) \<le> 57"

definition digits_val :: "string \<Rightarrow> nat" where
  "digits_val s = foldl (\<lambda>a c. 10 * a + (of_char c - 48)) 0 s"

definition parse_digits :: "string \<Rightarrow> nat option" where
  "parse_digits s = (if s \<noteq> [] \<and> list_all is_digit s then Some (digits_val s) else None)"

definition parse_int64 :: "string \<Rightarrow> int64 option" where
  "parse_int64 s =
     (let neg = (s \<noteq> [] \<and> hd s = CHR ''-'');
          body = (if s \<noteq> [] \<and> (hd s = CHR ''-'' \<or> hd s = CHR ''+'') then tl s else s)
      in case parse_digits body of
           None \<Rightarrow> None
         | Some n \<Rightarrow>
             if neg then (if n \<le> 2 ^ 63 then Some (word_of_int (- int n)) else None)
             else (if n < 2 ^ 63 then Some (word_of_int (int n)) else None))"

lemma of_char_digit: "d < 10 \<Longrightarrow> of_char (char_of (48 + d) :: char) = (48 + d :: nat)"
  by simp

lemma digits_nat_props:
  "digits_nat n \<noteq> [] \<and> list_all is_digit (digits_nat n) \<and> digits_val (digits_nat n) = n"
proof (induction n rule: digits_nat.induct)
  case (1 n)
  show ?case
  proof (cases "n < 10")
    case True
    then show ?thesis
      by (subst (1 2 3) digits_nat.simps) (simp add: is_digit_def digits_val_def)
  next
    case False
    let ?q = "digits_nat (n div 10)"
    have eq: "digits_nat n = ?q @ [char_of (48 + n mod 10)]"
      using False by (subst digits_nat.simps) simp
    from "1.IH" [OF False] show ?thesis
      unfolding eq by (simp add: is_digit_def digits_val_def)
  qed
qed

lemma hd_digits_nat: "hd (digits_nat n) \<noteq> CHR ''-''" "hd (digits_nat n) \<noteq> CHR ''+''"
proof -
  from digits_nat_props [of n] have "is_digit (hd (digits_nat n))"
    by (cases "digits_nat n") auto
  then show "hd (digits_nat n) \<noteq> CHR ''-''" "hd (digits_nat n) \<noteq> CHR ''+''"
    by (auto simp: is_digit_def)
qed

text \<open>Printing and parsing an \<open>int64\<close> is the identity.\<close>

lemma parse_itoa: "parse_int64 (itoa (sint w)) = Some w"
proof (cases "sint w < 0")
  case True
  have "nat (- sint w) \<le> 2 ^ 63"
    using sint_range64(1) [of w] by simp
  with True show ?thesis
    by (simp add: parse_int64_def itoa_def parse_digits_def digits_nat_props)
next
  case False
  have "nat (sint w) < 2 ^ 63"
    using sint_range64(2) [of w] False by (simp add: nat_less_iff)
  with False show ?thesis
    by (simp add: parse_int64_def itoa_def parse_digits_def digits_nat_props hd_digits_nat)
qed

section \<open>Lists\<close>

text \<open>Consecutive blocks of a list, the shape of a loop \<open>for i := 0; i < len(xs); i += n\<close> that
  handles \<open>xs[i:min(i+n, len(xs))]\<close>.\<close>

function chunks :: "nat \<Rightarrow> 'a list \<Rightarrow> 'a list list" where
  "chunks n xs = (if n = 0 \<or> xs = [] then [] else take n xs # chunks n (drop n xs))"
  by pat_completeness auto
termination
  by (relation "measure (\<lambda>(n, xs). length xs)") auto

declare chunks.simps [simp del]

lemma chunks_Nil [simp]: "chunks n [] = []"
  by (simp add: chunks.simps)

lemma concat_chunks: "0 < n \<Longrightarrow> concat (chunks n xs) = xs"
proof (induction n xs rule: chunks.induct)
  case (1 n xs)
  then show ?case by (cases "xs = []") (simp_all add: chunks.simps [of n xs])
qed

lemma chunks_sizes: "ys \<in> set (chunks n xs) \<Longrightarrow> ys \<noteq> [] \<and> length ys \<le> n"
proof (induction n xs rule: chunks.induct)
  case (1 n xs)
  then show ?case by (auto simp: chunks.simps [of n xs] split: if_splits)
qed

lemma find_first_prefix:
  "\<forall>x \<in> set xs. \<not> P x \<Longrightarrow> P y \<Longrightarrow> find P (xs @ y # ys) = Some y"
  by (induction xs) auto

lemma takeWhile_shorter: "\<exists>x \<in> set xs. \<not> P x \<Longrightarrow> length (takeWhile P xs) < length xs"
  by (induction xs) auto

lemma fold_invariant_list:
  "(\<And>x s. x \<in> set xs \<Longrightarrow> I s \<Longrightarrow> I (f x s)) \<Longrightarrow> I s \<Longrightarrow> I (fold f xs s)"
  by (induction xs arbitrary: s) auto

end
