(* ===== verification/GoStrings.thy ===== *)
theory GoStrings
  imports GoPrelude
begin

text \<open>
  Go strings are byte sequences; the model is \<^typ>\<open>string\<close>, a list of 8-bit characters. This
  theory models what the sources use of the language and of the packages \<open>unicode/utf8\<close>,
  \<open>strings\<close> and \<open>bytes\<close>: decoding a string into runes (the \<open>range\<close> loop and \<open>ReadRune\<close>),
  encoding a rune (\<open>WriteRune\<close>, \<open>string(r)\<close>), \<open>Map\<close>, \<open>ToUpper\<close>, \<open>ToLower\<close>, \<open>TrimSpace\<close>,
  \<open>Index\<close>, \<open>Contains\<close>, \<open>Replace\<close>, \<open>Split\<close>, \<open>Join\<close> and the prefix and suffix functions. The
  Unicode case and category tables, and the title caser of \<open>golang.org/x/text\<close>, are a record
  of functions that the definitions take as an argument; \<open>ascii_text\<close> states what they do on
  ASCII.
\<close>

section \<open>UTF-8\<close>

abbreviation code :: "char \<Rightarrow> nat" where
  "code c \<equiv> of_char c"

definition byte_in :: "nat \<Rightarrow> nat \<Rightarrow> char \<Rightarrow> bool" where
  "byte_in lo hi c \<longleftrightarrow> lo \<le> code c \<and> code c \<le> hi"

definition rune_error :: nat where
  "rune_error = 65533"

text \<open>The accepted range of the second byte of a three or four byte sequence.\<close>

definition lo2 :: "nat \<Rightarrow> nat" where
  "lo2 b = (if b = 224 then 160 else if b = 240 then 144 else 128)"

definition hi2 :: "nat \<Rightarrow> nat" where
  "hi2 b = (if b = 237 then 159 else if b = 244 then 143 else 191)"

text \<open>\<open>utf8.DecodeRuneInString\<close>: the first rune and its width; an invalid or short sequence is
  the error rune with width one.\<close>

definition rune_at :: "string \<Rightarrow> nat \<times> nat" where
  "rune_at s = (case s of [] \<Rightarrow> (rune_error, 0) | c0 # t \<Rightarrow>
     (let b = code c0 in
      if b < 128 then (b, 1)
      else if 194 \<le> b \<and> b \<le> 223 then
        (case t of
           c1 # _ \<Rightarrow> if byte_in 128 191 c1 then ((b - 192) * 64 + (code c1 - 128), 2)
                     else (rune_error, 1)
         | _ \<Rightarrow> (rune_error, 1))
      else if 224 \<le> b \<and> b \<le> 239 then
        (case t of
           c1 # c2 # _ \<Rightarrow>
             if byte_in (lo2 b) (hi2 b) c1 \<and> byte_in 128 191 c2
             then ((b - 224) * 4096 + (code c1 - 128) * 64 + (code c2 - 128), 3)
             else (rune_error, 1)
         | _ \<Rightarrow> (rune_error, 1))
      else if 240 \<le> b \<and> b \<le> 244 then
        (case t of
           c1 # c2 # c3 # _ \<Rightarrow>
             if byte_in (lo2 b) (hi2 b) c1 \<and> byte_in 128 191 c2 \<and> byte_in 128 191 c3
             then ((b - 240) * 262144 + (code c1 - 128) * 4096 + (code c2 - 128) * 64
                   + (code c3 - 128), 4)
             else (rune_error, 1)
         | _ \<Rightarrow> (rune_error, 1))
      else (rune_error, 1)))"

lemma rune_at_width_pos: "s \<noteq> [] \<Longrightarrow> 0 < snd (rune_at s)"
  by (auto simp: rune_at_def Let_def split: list.splits)

lemma rune_at_width_le: "snd (rune_at s) \<le> length s"
  by (auto simp: rune_at_def Let_def split: list.splits)

text \<open>The runes of a string with the bytes each was read from: the \<open>range\<close> loop of Go.\<close>

function segs :: "string \<Rightarrow> (nat \<times> string) list" where
  "segs s = (if s = [] then []
             else (fst (rune_at s), take (snd (rune_at s)) s) # segs (drop (snd (rune_at s)) s))"
  by pat_completeness auto
termination
  by (relation "measure length") (auto simp: rune_at_width_pos)

declare segs.simps [simp del]

lemma segs_Nil [simp]: "segs [] = []"
  by (simp add: segs.simps)

definition runes :: "string \<Rightarrow> nat list" where
  "runes s = map fst (segs s)"

lemma runes_Nil [simp]: "runes [] = []"
  by (simp add: runes_def)

lemma runes_unfold:
  "s \<noteq> [] \<Longrightarrow> runes s = fst (rune_at s) # runes (drop (snd (rune_at s)) s)"
  by (simp add: runes_def segs.simps [of s])

lemma runes_eq_Nil [simp]: "runes s = [] \<longleftrightarrow> s = []"
  by (cases "s = []") (simp_all add: runes_unfold)

text \<open>Decoding loses no byte.\<close>

lemma concat_segs: "concat (map snd (segs s)) = s"
proof (induction s rule: segs.induct)
  case (1 s)
  then show ?case by (cases "s = []") (simp_all add: segs.simps [of s])
qed

text \<open>\<open>utf8.AppendRune\<close>, \<open>bytes.Buffer.WriteRune\<close> and \<open>string(rune)\<close>: surrogates and values out of
  range are written as the error rune.\<close>

definition valid_rune :: "nat \<Rightarrow> bool" where
  "valid_rune r \<longleftrightarrow> r < 55296 \<or> (57343 < r \<and> r < 1114112)"

definition encode_rune :: "nat \<Rightarrow> string" where
  "encode_rune r =
     (if r < 128 then [char_of r]
      else if r < 2048 then [char_of (192 + r div 64), char_of (128 + r mod 64)]
      else if \<not> valid_rune r then [char_of (239 :: nat), char_of (191 :: nat), char_of (189 :: nat)]
      else if r < 65536 then
        [char_of (224 + r div 4096), char_of (128 + r div 64 mod 64), char_of (128 + r mod 64)]
      else [char_of (240 + r div 262144), char_of (128 + r div 4096 mod 64),
            char_of (128 + r div 64 mod 64), char_of (128 + r mod 64)])"

definition encode :: "nat list \<Rightarrow> string" where
  "encode rs = concat (map encode_rune rs)"

lemma encode_simps [simp]:
  "encode [] = []" "encode (r # rs) = encode_rune r @ encode rs"
  "encode (rs @ rs') = encode rs @ encode rs'"
  by (simp_all add: encode_def)

lemma encode_rune_nonempty [simp]: "encode_rune r \<noteq> []"
  by (simp add: encode_rune_def)

lemma encode_eq_Nil [simp]: "encode rs = [] \<longleftrightarrow> rs = []"
  by (cases rs) simp_all

text \<open>Decoding an encoded rune.\<close>

lemma rune_at_encode2:
  assumes "128 \<le> r" "r < 2048"
  shows "rune_at (encode_rune r @ s) = (r, 2)"
proof -
  have "192 + r div 64 < 256" "128 + r mod 64 < 256" "194 \<le> 192 + r div 64" "192 + r div 64 \<le> 223"
    using assms by (auto simp: less_eq_div_iff_mult_less_eq)
  then show ?thesis
    using assms by (simp add: encode_rune_def rune_at_def byte_in_def)
qed

lemma rune_at3:
  "code c0 = b \<Longrightarrow> 224 \<le> b \<Longrightarrow> b \<le> 239 \<Longrightarrow> byte_in (lo2 b) (hi2 b) c1 \<Longrightarrow> byte_in 128 191 c2
   \<Longrightarrow> rune_at (c0 # c1 # c2 # s)
      = ((b - 224) * 4096 + (code c1 - 128) * 64 + (code c2 - 128), 3)"
  by (simp add: rune_at_def)

lemma rune_at4:
  "code c0 = b \<Longrightarrow> 240 \<le> b \<Longrightarrow> b \<le> 244 \<Longrightarrow> byte_in (lo2 b) (hi2 b) c1 \<Longrightarrow> byte_in 128 191 c2
   \<Longrightarrow> byte_in 128 191 c3
   \<Longrightarrow> rune_at (c0 # c1 # c2 # c3 # s)
      = ((b - 240) * 262144 + (code c1 - 128) * 4096 + (code c2 - 128) * 64 + (code c3 - 128), 4)"
  by (simp add: rune_at_def)

lemma code_char_of: "n < 256 \<Longrightarrow> code (char_of n) = n"
  by simp

lemma base64_split3: "r div 4096 * 4096 + r div 64 mod 64 * 64 + r mod 64 = (r :: nat)"
proof -
  have "r div 4096 = r div 64 div 64"
    by (simp flip: div_mult2_eq)
  then show ?thesis
    using div_mult_mod_eq [of "r div 64" 64] div_mult_mod_eq [of r 64] by linarith
qed

lemma base64_split4:
  "r div 262144 * 262144 + r div 4096 mod 64 * 4096 + r div 64 mod 64 * 64 + r mod 64 = (r :: nat)"
proof -
  have "r div 262144 = r div 4096 div 64"
    by (simp flip: div_mult2_eq)
  then show ?thesis
    using div_mult_mod_eq [of "r div 4096" 64] base64_split3 [of r] by linarith
qed

lemma rune_at_encode3:
  assumes "2048 \<le> r" "r < 65536" "valid_rune r"
  shows "rune_at (encode_rune r @ s) = (r, 3)"
proof -
  define q m n where "q = r div 4096" and "m = r div 64 mod 64" and "n = r mod 64"
  have r: "q * 4096 + m * 64 + n = r"
    unfolding q_def m_def n_def by (rule base64_split3)
  have b: "q \<le> 15" "m < 64" "n < 64"
    using assms(2) unfolding q_def m_def n_def by (simp_all add: less_eq_div_iff_mult_less_eq)
  have lo: "lo2 (224 + q) \<le> 128 + m"
    using assms(1) r b unfolding lo2_def by (cases "q = 0") auto
  have hi: "128 + m \<le> hi2 (224 + q)"
    using assms(3) r b unfolding hi2_def valid_rune_def by (cases "q = 13") auto
  have e: "encode_rune r = [char_of (224 + q), char_of (128 + m), char_of (128 + n)]"
    using assms by (simp add: encode_rune_def q_def m_def n_def)
  have c: "code (char_of (224 + q)) = 224 + q" "code (char_of (128 + m)) = 128 + m"
    "code (char_of (128 + n)) = 128 + n"
    using b by (simp_all only: code_char_of)
  show ?thesis
    unfolding e append.simps using b lo hi
    by (subst rune_at3 [OF c(1)]) (simp_all add: byte_in_def c r del: of_char_of)
qed

lemma rune_at_encode4:
  assumes "65536 \<le> r" "valid_rune r"
  shows "rune_at (encode_rune r @ s) = (r, 4)"
proof -
  define q m n l where "q = r div 262144" and "m = r div 4096 mod 64" and "n = r div 64 mod 64"
    and "l = r mod 64"
  have r: "q * 262144 + m * 4096 + n * 64 + l = r"
    unfolding q_def m_def n_def l_def by (rule base64_split4)
  have up: "r < 1114112"
    using assms by (auto simp: valid_rune_def)
  have b: "q \<le> 4" "m < 64" "n < 64" "l < 64"
    using up unfolding q_def m_def n_def l_def by simp_all
  have lo: "lo2 (240 + q) \<le> 128 + m"
    using assms(1) r b unfolding lo2_def by (cases "q = 0") auto
  have hi: "128 + m \<le> hi2 (240 + q)"
    using up r b unfolding hi2_def by (cases "q = 4") auto
  have e: "encode_rune r = [char_of (240 + q), char_of (128 + m), char_of (128 + n), char_of (128 + l)]"
    using assms by (simp add: encode_rune_def q_def m_def n_def l_def)
  have c: "code (char_of (240 + q)) = 240 + q" "code (char_of (128 + m)) = 128 + m"
    "code (char_of (128 + n)) = 128 + n" "code (char_of (128 + l)) = 128 + l"
    using b by (simp_all only: code_char_of)
  show ?thesis
    unfolding e append.simps using b lo hi
    by (subst rune_at4 [OF c(1)]) (simp_all add: byte_in_def c r del: of_char_of)
qed

lemma rune_at_encode:
  assumes "valid_rune r"
  shows "rune_at (encode_rune r @ s) = (r, length (encode_rune r))"
proof -
  consider "r < 128" | "128 \<le> r" "r < 2048" | "2048 \<le> r" "r < 65536" | "65536 \<le> r"
    by linarith
  then show ?thesis
  proof cases
    case 1 then show ?thesis by (simp add: encode_rune_def rune_at_def)
  next
    case 2 with rune_at_encode2 show ?thesis by (simp add: encode_rune_def)
  next
    case 3 with assms rune_at_encode3 show ?thesis by (simp add: encode_rune_def)
  next
    case 4 with assms rune_at_encode4 show ?thesis by (simp add: encode_rune_def)
  qed
qed

lemma runes_encode_append:
  "list_all valid_rune rs \<Longrightarrow> runes (encode rs @ s) = rs @ runes s"
proof (induction rs)
  case (Cons r rs)
  have "runes (encode_rune r @ encode rs @ s) = r # runes (encode rs @ s)"
    using Cons.prems rune_at_encode [of r "encode rs @ s"]
    by (subst runes_unfold) simp_all
  with Cons show ?case by simp
qed simp

lemma runes_encode [simp]: "list_all valid_rune rs \<Longrightarrow> runes (encode rs) = rs"
  using runes_encode_append [of rs "[]"] by simp

section \<open>ASCII strings\<close>

definition ascii :: "string \<Rightarrow> bool" where
  "ascii s \<longleftrightarrow> list_all (\<lambda>c. code c < 128) s"

lemma ascii_simps [simp]:
  "ascii []" "ascii (c # s) \<longleftrightarrow> code c < 128 \<and> ascii s"
  "ascii (s @ t) \<longleftrightarrow> ascii s \<and> ascii t"
  by (simp_all add: ascii_def)

lemma ascii_take [simp]: "ascii s \<Longrightarrow> ascii (take n s)"
  and ascii_drop [simp]: "ascii s \<Longrightarrow> ascii (drop n s)"
  by (metis append_take_drop_id ascii_simps(3))+

lemma rune_at_ascii: "code c < 128 \<Longrightarrow> rune_at (c # s) = (code c, 1)"
  by (simp add: rune_at_def)

lemma segs_ascii_Cons: "code c < 128 \<Longrightarrow> segs (c # s) = (code c, [c]) # segs s"
  by (simp add: segs.simps [of "c # s"] rune_at_ascii)

lemma segs_ascii: "ascii s \<Longrightarrow> segs s = map (\<lambda>c. (code c, [c])) s"
  by (induction s) (simp_all add: segs_ascii_Cons)

lemma runes_ascii_Cons: "code c < 128 \<Longrightarrow> runes (c # s) = code c # runes s"
  by (simp add: runes_def segs_ascii_Cons)

lemma runes_ascii: "ascii s \<Longrightarrow> runes s = map code s"
  by (simp add: runes_def segs_ascii)

lemma encode_rune_ascii: "r < 128 \<Longrightarrow> encode_rune r = [char_of r]"
  by (simp add: encode_rune_def)

lemma encode_map_code: "ascii s \<Longrightarrow> encode (map code s) = s"
  by (induction s) (simp_all add: encode_rune_ascii)

section \<open>Case tables and categories\<close>

text \<open>The functions \<open>unicode.ToUpper\<close>, \<open>ToLower\<close>, \<open>IsUpper\<close>, \<open>IsLower\<close>, \<open>IsLetter\<close> and
  \<open>cases.Title(language.English).String\<close>. The definitions of the components take them as one
  argument; what a property needs of them is a named hypothesis.\<close>

record gotext =
  upper_rune :: "nat \<Rightarrow> nat"
  lower_rune :: "nat \<Rightarrow> nat"
  is_upper_rune :: "nat \<Rightarrow> bool"
  is_lower_rune :: "nat \<Rightarrow> bool"
  is_letter_rune :: "nat \<Rightarrow> bool"
  title_caser :: "string \<Rightarrow> string"

definition ascii_up :: "nat \<Rightarrow> nat" where
  "ascii_up r = (if 97 \<le> r \<and> r \<le> 122 then r - 32 else r)"

definition ascii_down :: "nat \<Rightarrow> nat" where
  "ascii_down r = (if 65 \<le> r \<and> r \<le> 90 then r + 32 else r)"

definition ascii_text :: "gotext \<Rightarrow> bool" where
  "ascii_text T \<longleftrightarrow> (\<forall>r < 128.
     upper_rune T r = ascii_up r \<and> lower_rune T r = ascii_down r \<and>
     (is_upper_rune T r \<longleftrightarrow> 65 \<le> r \<and> r \<le> 90) \<and> (is_lower_rune T r \<longleftrightarrow> 97 \<le> r \<and> r \<le> 122) \<and>
     (is_letter_rune T r \<longleftrightarrow> 65 \<le> r \<and> r \<le> 90 \<or> 97 \<le> r \<and> r \<le> 122))"

definition up_char :: "char \<Rightarrow> char" where
  "up_char c = (if byte_in 97 122 c then char_of (code c - 32) else c)"

definition down_char :: "char \<Rightarrow> char" where
  "down_char c = (if byte_in 65 90 c then char_of (code c + 32) else c)"

definition is_up :: "char \<Rightarrow> bool" where
  "is_up c \<longleftrightarrow> byte_in 65 90 c"

definition is_low :: "char \<Rightarrow> bool" where
  "is_low c \<longleftrightarrow> byte_in 97 122 c"

text \<open>The title caser on one word of ASCII letters: the first letter is raised, the others are
  lowered.\<close>

fun capitalize :: "string \<Rightarrow> string" where
  "capitalize [] = []"
| "capitalize (c # s) = up_char c # map down_char s"

definition title_words :: "gotext \<Rightarrow> bool" where
  "title_words T \<longleftrightarrow>
     (\<forall>w. w \<noteq> [] \<and> list_all (\<lambda>c. is_up c \<or> is_low c) w \<longrightarrow> title_caser T w = capitalize w)"

text \<open>A concrete instance, used by the witnesses: ASCII tables, everything else unchanged.\<close>

definition ascii_tables :: gotext where
  "ascii_tables = \<lparr>upper_rune = ascii_up, lower_rune = ascii_down,
     is_upper_rune = (\<lambda>r. 65 \<le> r \<and> r \<le> 90), is_lower_rune = (\<lambda>r. 97 \<le> r \<and> r \<le> 122),
     is_letter_rune = (\<lambda>r. 65 \<le> r \<and> r \<le> 90 \<or> 97 \<le> r \<and> r \<le> 122), title_caser = capitalize\<rparr>"

lemma ascii_tables_ok [simp]: "ascii_text ascii_tables" "title_words ascii_tables"
  by (simp_all add: ascii_text_def title_words_def ascii_tables_def)

lemma up_char_code: "code (up_char c) = ascii_up (code c)"
  by (auto simp: up_char_def ascii_up_def byte_in_def of_char_of)

lemma down_char_code: "code (down_char c) = ascii_down (code c)"
  by (auto simp: down_char_def ascii_down_def byte_in_def of_char_of)

lemma up_down_ascii [simp]:
  "code (up_char c) < 128 \<longleftrightarrow> code c < 128" "code (down_char c) < 128 \<longleftrightarrow> code c < 128"
  by (auto simp: up_char_code down_char_code ascii_up_def ascii_down_def)

lemma code_inject: "code c = code d \<longleftrightarrow> c = d"
  by (metis char_of_char)

lemma down_char_low [simp]: "is_low c \<Longrightarrow> down_char c = c"
  by (auto simp: is_low_def down_char_def byte_in_def)

lemma up_char_up [simp]: "is_up c \<Longrightarrow> up_char c = c"
  by (auto simp: is_up_def up_char_def byte_in_def)

lemma is_up_up_char [simp]: "is_low c \<Longrightarrow> is_up (up_char c)"
  by (auto simp: is_up_def is_low_def byte_in_def up_char_code ascii_up_def)

lemma down_up_char [simp]: "is_low c \<Longrightarrow> down_char (up_char c) = c"
  by (auto simp: is_low_def byte_in_def down_char_code up_char_code ascii_up_def ascii_down_def
        simp flip: code_inject)

lemma is_up_low_exclusive: "is_low c \<Longrightarrow> \<not> is_up c"
  by (auto simp: is_up_def is_low_def byte_in_def)

lemma is_low_ascii: "is_low c \<Longrightarrow> code c < 128" and is_up_ascii: "is_up c \<Longrightarrow> code c < 128"
  by (auto simp: is_low_def is_up_def byte_in_def)

section \<open>The package strings\<close>

text \<open>\<open>strings.Map\<close> writes the image of every rune; an invalid byte is read and written as the
  error rune. \<open>ToUpper\<close> and \<open>ToLower\<close> are instances.\<close>

definition strmap :: "(nat \<Rightarrow> nat) \<Rightarrow> string \<Rightarrow> string" where
  "strmap f s = encode (map f (runes s))"

definition to_upper :: "gotext \<Rightarrow> string \<Rightarrow> string" where
  "to_upper T s = strmap (upper_rune T) s"

definition to_lower :: "gotext \<Rightarrow> string \<Rightarrow> string" where
  "to_lower T s = strmap (lower_rune T) s"

lemma strmap_ascii:
  "ascii s \<Longrightarrow> (\<And>r. r < 128 \<Longrightarrow> f r = g r \<and> g r < 128) \<Longrightarrow> strmap f s = map (\<lambda>c. char_of (g (code c))) s"
  by (induction s) (simp_all add: strmap_def runes_ascii_Cons encode_rune_ascii)

lemma to_upper_ascii: "ascii_text T \<Longrightarrow> ascii s \<Longrightarrow> to_upper T s = map up_char s"
  unfolding to_upper_def
  by (subst strmap_ascii [where g = ascii_up])
     (auto simp: ascii_text_def ascii_up_def up_char_def byte_in_def)

lemma to_lower_ascii: "ascii_text T \<Longrightarrow> ascii s \<Longrightarrow> to_lower T s = map down_char s"
  unfolding to_lower_def
  by (subst strmap_ascii [where g = ascii_down])
     (auto simp: ascii_text_def ascii_down_def down_char_def byte_in_def)

text \<open>\<open>unicode.IsSpace\<close>: the White_Space property.\<close>

definition is_space_rune :: "nat \<Rightarrow> bool" where
  "is_space_rune r \<longleftrightarrow> (9 \<le> r \<and> r \<le> 13) \<or> r = 32 \<or> r = 133 \<or> r = 160 \<or> r = 5760 \<or>
     (8192 \<le> r \<and> r \<le> 8202) \<or> r = 8232 \<or> r = 8233 \<or> r = 8239 \<or> r = 8287 \<or> r = 12288"

definition trim_space :: "string \<Rightarrow> string" where
  "trim_space s =
     concat (map snd (rev (dropWhile (is_space_rune \<circ> fst) (rev
       (dropWhile (is_space_rune \<circ> fst) (segs s))))))"

definition has_prefix :: "string \<Rightarrow> string \<Rightarrow> bool" where
  "has_prefix s p \<longleftrightarrow> take (length p) s = p"

definition has_suffix :: "string \<Rightarrow> string \<Rightarrow> bool" where
  "has_suffix s p \<longleftrightarrow> length p \<le> length s \<and> drop (length s - length p) s = p"

definition trim_prefix :: "string \<Rightarrow> string \<Rightarrow> string" where
  "trim_prefix s p = (if has_prefix s p then drop (length p) s else s)"

definition trim_suffix :: "string \<Rightarrow> string \<Rightarrow> string" where
  "trim_suffix s p = (if has_suffix s p then take (length s - length p) s else s)"

text \<open>\<open>strings.Index\<close>, with \<open>None\<close> for the result \<open>-1\<close>.\<close>

fun index_of :: "string \<Rightarrow> string \<Rightarrow> nat option" where
  "index_of [] p = (if p = [] then Some 0 else None)"
| "index_of (c # s) p =
     (if has_prefix (c # s) p then Some 0 else map_option Suc (index_of s p))"

definition contains :: "string \<Rightarrow> string \<Rightarrow> bool" where
  "contains s p \<longleftrightarrow> index_of s p \<noteq> None"

text \<open>\<open>strings.Replace(s, old, new, n)\<close> for a non-empty \<open>old\<close>, with \<open>None\<close> for a negative \<open>n\<close>
  (replace all). For an empty \<open>old\<close> Go inserts \<open>new\<close> before every rune and at the end.\<close>

fun interleave :: "nat option \<Rightarrow> string \<Rightarrow> string list \<Rightarrow> string" where
  "interleave (Some 0) new ps = concat ps"
| "interleave n new [] = new"
| "interleave n new (p # ps) = new @ p @ interleave (map_option (\<lambda>k. k - 1) n) new ps"

function replace_from :: "nat option \<Rightarrow> string \<Rightarrow> string \<Rightarrow> string \<Rightarrow> string" where
  "replace_from n old new s =
     (if s = [] \<or> old = [] \<or> n = Some 0 then s
      else if has_prefix s old
      then new @ replace_from (map_option (\<lambda>k. k - 1) n) old new (drop (length old) s)
      else hd s # replace_from n old new (tl s))"
  by pat_completeness auto
termination
  by (relation "measure (\<lambda>(n, old, new, s). length s)") (auto simp: diff_less)

declare replace_from.simps [simp del]

definition replace :: "nat option \<Rightarrow> string \<Rightarrow> string \<Rightarrow> string \<Rightarrow> string" where
  "replace n s old new =
     (if old = [] then interleave n new (map snd (segs s)) else replace_from n old new s)"

text \<open>\<open>strings.Split\<close> for a separator of one byte, and \<open>strings.Join\<close>.\<close>

fun split_char :: "char \<Rightarrow> string \<Rightarrow> string list" where
  "split_char d [] = [[]]"
| "split_char d (c # s) =
     (if c = d then [] # split_char d s
      else (case split_char d s of [] \<Rightarrow> [[c]] | p # ps \<Rightarrow> (c # p) # ps))"

fun join :: "string list \<Rightarrow> string \<Rightarrow> string" where
  "join [] sep = []"
| "join [p] sep = p"
| "join (p # q # ps) sep = p @ sep @ join (q # ps) sep"

lemma split_char_nonempty [simp]: "split_char d s \<noteq> []"
  by (cases s) (auto split: list.splits)

lemma join_Cons: "ps \<noteq> [] \<Longrightarrow> join (p # ps) sep = p @ sep @ join ps sep"
  by (cases ps) auto

lemma join_split_char: "join (split_char d s) [d] = s"
proof (induction s)
  case (Cons c s)
  obtain p ps where ps: "split_char d s = p # ps"
    using split_char_nonempty [of d s] by (cases "split_char d s") auto
  with Cons show ?case by (cases ps) (auto simp: join_Cons)
qed simp

lemma split_char_no_sep: "d \<notin> set s \<Longrightarrow> split_char d s = [s]"
  by (induction s) auto

lemma split_char_append: "d \<notin> set s \<Longrightarrow> split_char d (s @ d # t) = s # split_char d t"
  by (induction s) auto

lemma split_char_pieces: "p \<in> set (split_char d s) \<Longrightarrow> d \<notin> set p"
  by (induction s arbitrary: p) (auto split: list.splits if_splits)

lemma split_char_join:
  "ps \<noteq> [] \<Longrightarrow> \<forall>p \<in> set ps. d \<notin> set p \<Longrightarrow> split_char d (join ps [d]) = ps"
proof (induction ps)
  case (Cons p ps)
  then show ?case
    by (cases ps) (simp_all add: split_char_no_sep split_char_append)
qed simp

lemma has_prefix_append [simp]: "has_prefix (p @ s) p"
  by (simp add: has_prefix_def)

lemma has_prefix_iff: "has_prefix s p \<longleftrightarrow> (\<exists>t. s = p @ t)"
  by (auto simp: has_prefix_def) (metis append_take_drop_id)

lemma index_of_Some:
  "index_of s p = Some i \<Longrightarrow> i + length p \<le> length s \<and> take (length p) (drop i s) = p"
proof (induction s arbitrary: i)
  case (Cons c s)
  show ?case
  proof (cases "has_prefix (c # s) p")
    case True
    then obtain t where "c # s = p @ t" by (auto simp: has_prefix_iff)
    with True Cons.prems show ?thesis
      by (metis (no_types) add_0 append_eq_conv_conj drop0 index_of.simps(2) length_append
            le_add1 option.inject)
  next
    case False
    with Cons.prems obtain j where "i = Suc j" "index_of s p = Some j" by auto
    with Cons.IH show ?thesis by auto
  qed
qed (auto split: if_splits)

lemma index_of_append: "\<exists>i. index_of (a @ p @ b) p = Some i \<and> i \<le> length a"
proof (induction a)
  case Nil
  then show ?case using has_prefix_append [of p b] by (cases "p @ b") simp_all
next
  case (Cons c a)
  then show ?case by auto
qed

lemma contains_iff: "contains s p \<longleftrightarrow> (\<exists>a b. s = a @ p @ b)"
proof
  assume "contains s p"
  then obtain i where "index_of s p = Some i" by (auto simp: contains_def)
  then have "s = take i s @ p @ drop (length p) (drop i s)"
    using index_of_Some by (metis append_take_drop_id)
  then show "\<exists>a b. s = a @ p @ b" by blast
next
  assume "\<exists>a b. s = a @ p @ b"
  then show "contains s p" using index_of_append by (fastforce simp: contains_def)
qed

text \<open>The slice expression \<open>s[lo:hi]\<close>, with \<open>None\<close> for the panic when the bounds are out of
  order or out of range.\<close>

definition slice :: "'a list \<Rightarrow> nat \<Rightarrow> nat \<Rightarrow> 'a list option" where
  "slice s lo hi = (if lo \<le> hi \<and> hi \<le> length s then Some (take (hi - lo) (drop lo s)) else None)"

lemma slice_append: "slice (a @ b @ c) (length a) (length a + length b) = Some b"
  by (simp add: slice_def)

section \<open>Hexadecimal\<close>

text \<open>Two digits for every byte; the first letter is \<open>a\<close> (97) or \<open>A\<close> (65).\<close>

definition hex_digit :: "nat \<Rightarrow> nat \<Rightarrow> char" where
  "hex_digit a n = (if n < 10 then char_of (48 + n) else char_of (a + n - 10))"

definition hex_string :: "nat \<Rightarrow> string \<Rightarrow> string" where
  "hex_string a bs = concat (map (\<lambda>b. [hex_digit a (code b div 16), hex_digit a (code b mod 16)]) bs)"

lemma length_hex_string [simp]: "length (hex_string a bs) = 2 * length bs"
  by (induction bs) (simp_all add: hex_string_def)

end
