(* ===== verification/Stringx.thy ===== *)
theory Stringx
  imports GoStrings
begin

text \<open>
  The package \<open>stringx\<close>: splitting and case conversion (\<open>stringx/string.go\<close>), the byte loops
  between camel and snake case (\<open>stringx/fmt.go\<close>) and the cache key builders
  (\<open>stringx/cache.go\<close>). The parameter \<open>T\<close> holds the Unicode tables and the title caser.
\<close>

section \<open>string.go\<close>

definition WhiteSpace :: "nat list" where
  "WhiteSpace = [10, 9, 12, 11, 32]"

record String =
  source :: string

definition From :: "string \<Rightarrow> String" where
  "From data = \<lparr>source = data\<rparr>"

definition IsEmptyOrSpace :: "string \<Rightarrow> bool" where
  "IsEmptyOrSpace s = (if length s = 0 then True else if trim_space s = [] then True else False)"

definition ReplaceAll :: "string \<Rightarrow> string \<Rightarrow> string \<Rightarrow> string" where
  "ReplaceAll s old new = replace None s old new"

definition Title :: "gotext \<Rightarrow> string \<Rightarrow> string" where
  "Title T s = (if IsEmptyOrSpace s then s else title_caser T s)"

text \<open>The first byte is taken for a rune, which is the code's own reading of \<open>s[0]\<close>.\<close>

definition UnTitle :: "gotext \<Rightarrow> string \<Rightarrow> string" where
  "UnTitle T s =
     (if IsEmptyOrSpace s then s
      else (let r = code (hd s) in
        if \<not> is_upper_rune T r \<and> \<not> is_lower_rune T r then s
        else encode_rune (lower_rune T r) @ tl s))"

definition TitleFirstLetter :: "gotext \<Rightarrow> string \<Rightarrow> string" where
  "TitleFirstLetter T s =
     (if length s = 0 then s
      else (let firstChar = code (hd s) in
        if \<not> is_letter_rune T firstChar then s
        else encode_rune (upper_rune T firstChar) @ tl s))"

definition Lower :: "gotext \<Rightarrow> string \<Rightarrow> string" where
  "Lower T s = to_lower T s"

definition Upper :: "gotext \<Rightarrow> string \<Rightarrow> string" where
  "Upper T s = to_upper T s"

text \<open>The methods of \<open>String\<close> repeat the bodies of the functions.\<close>

definition String_IsEmptyOrSpace :: "String \<Rightarrow> bool" where
  "String_IsEmptyOrSpace s =
     (if length (source s) = 0 then True else if trim_space (source s) = [] then True else False)"

definition String_Lower :: "gotext \<Rightarrow> String \<Rightarrow> string" where
  "String_Lower T s = to_lower T (source s)"

definition String_Upper :: "gotext \<Rightarrow> String \<Rightarrow> string" where
  "String_Upper T s = to_upper T (source s)"

definition String_ReplaceAll :: "String \<Rightarrow> string \<Rightarrow> string \<Rightarrow> string" where
  "String_ReplaceAll s old new = replace None (source s) old new"

definition Source :: "String \<Rightarrow> string" where
  "Source s = source s"

definition String_Title :: "gotext \<Rightarrow> String \<Rightarrow> string" where
  "String_Title T s = (if String_IsEmptyOrSpace s then source s else title_caser T (source s))"

definition String_UnTitle :: "gotext \<Rightarrow> String \<Rightarrow> string" where
  "String_UnTitle T s =
     (if String_IsEmptyOrSpace s then source s
      else (let r = code (hd (source s)) in
        if \<not> is_upper_rune T r \<and> \<not> is_lower_rune T r then source s
        else encode_rune (lower_rune T r) @ tl (source s)))"

definition String_TitleFirstLetter :: "gotext \<Rightarrow> String \<Rightarrow> string" where
  "String_TitleFirstLetter T s =
     (if length (source s) = 0 then source s
      else (let firstChar = code (hd (source s)) in
        if \<not> is_letter_rune T firstChar then source s
        else encode_rune (upper_rune T firstChar) @ tl (source s)))"

lemma String_methods:
  "String_IsEmptyOrSpace s = IsEmptyOrSpace (source s)" "String_Lower T s = Lower T (source s)"
  "String_Upper T s = Upper T (source s)"
  "String_ReplaceAll s old new = ReplaceAll (source s) old new"
  "String_Title T s = Title T (source s)" "String_UnTitle T s = UnTitle T (source s)"
  "String_TitleFirstLetter T s = TitleFirstLetter T (source s)"
  by (simp_all add: String_IsEmptyOrSpace_def IsEmptyOrSpace_def String_Lower_def Lower_def
      String_Upper_def Upper_def String_ReplaceAll_def ReplaceAll_def String_Title_def Title_def
      String_UnTitle_def UnTitle_def String_TitleFirstLetter_def TitleFirstLetter_def)

lemma source_From [simp]: "source (From w) = w"
  by (simp add: From_def)

text \<open>The loop of \<open>splitBy\<close>: the pieces so far and the buffer.\<close>

fun splitBy_loop :: "(nat \<Rightarrow> bool) \<Rightarrow> bool \<Rightarrow> nat list \<Rightarrow> string list \<Rightarrow> string \<Rightarrow> string list" where
  "splitBy_loop fn rm [] lst buffer = (if length buffer \<noteq> 0 then lst @ [buffer] else lst)"
| "splitBy_loop fn rm (r # rs) lst buffer =
     (if fn r then
        (let (lst1, buffer1) = (if length buffer \<noteq> 0 then (lst @ [buffer], []) else (lst, buffer));
             buffer2 = (if \<not> rm then buffer1 @ encode_rune r else buffer1)
         in splitBy_loop fn rm rs lst1 buffer2)
      else splitBy_loop fn rm rs lst (buffer @ encode_rune r))"

definition splitBy :: "String \<Rightarrow> (nat \<Rightarrow> bool) \<Rightarrow> bool \<Rightarrow> string list" where
  "splitBy s fn rm =
     (if String_IsEmptyOrSpace s then [] else splitBy_loop fn rm (runes (source s)) [] [])"

definition ToCamel :: "gotext \<Rightarrow> String \<Rightarrow> string" where
  "ToCamel T s = join (map (\<lambda>item. String_Title T (From item)) (splitBy s (\<lambda>r. r = 95) True)) []"

definition ToSnake :: "gotext \<Rightarrow> String \<Rightarrow> string" where
  "ToSnake T s = join (map (\<lambda>item. String_Lower T (From item)) (splitBy s (is_upper_rune T) False)) ''_''"

definition ContainsAny :: "string \<Rightarrow> nat list \<Rightarrow> bool" where
  "ContainsAny s rs = (if length rs = 0 then True else list_ex (\<lambda>r. r \<in> set rs) (runes s))"

definition ContainsWhiteSpace :: "string \<Rightarrow> bool" where
  "ContainsWhiteSpace s = ContainsAny s WhiteSpace"

section \<open>fmt.go\<close>

fun SnakeString_loop :: "nat \<Rightarrow> bool \<Rightarrow> string \<Rightarrow> string \<Rightarrow> string" where
  "SnakeString_loop i j [] data = data"
| "SnakeString_loop i j (d # s) data =
     (let data1 = (if 0 < i \<and> is_up d \<and> j then data @ ''_'' else data);
          j1 = (if d \<noteq> CHR ''_'' then True else j)
      in SnakeString_loop (Suc i) j1 s (data1 @ [d]))"

definition SnakeString :: "gotext \<Rightarrow> string \<Rightarrow> string" where
  "SnakeString T s = to_lower T (SnakeString_loop 0 False s [])"

fun CamelString_loop :: "bool \<Rightarrow> bool \<Rightarrow> string \<Rightarrow> string \<Rightarrow> string" where
  "CamelString_loop j k [] data = data"
| "CamelString_loop j k (d # s) data =
     (let k1 = (if \<not> k \<and> is_up d then True else k);
          up = (is_low d \<and> (j \<or> \<not> k1));
          d1 = (if up then char_of (code d - 32) else d);
          j1 = (if up then False else j);
          k2 = (if up then True else k1)
      in if k2 \<and> d1 = CHR ''_'' \<and> s \<noteq> [] \<and> is_low (hd s) then CamelString_loop True k2 s data
         else CamelString_loop j1 k2 s (data @ [d1]))"

definition CamelString :: "string \<Rightarrow> string" where
  "CamelString s = CamelString_loop False False s []"

definition LeftUpper :: "gotext \<Rightarrow> string \<Rightarrow> string" where
  "LeftUpper T s = (if 0 < length s then to_upper T (encode_rune (code (hd s))) @ tl s else s)"

definition LeftLower :: "gotext \<Rightarrow> string \<Rightarrow> string" where
  "LeftLower T s = (if 0 < length s then to_lower T (encode_rune (code (hd s))) @ tl s else s)"

definition TrimNewLine :: "string \<Rightarrow> string" where
  "TrimNewLine s = filter (\<lambda>c. code c \<noteq> 13 \<and> code c \<noteq> 10) s"

section \<open>cache.go\<close>

text \<open>A Go map keeps no order: \<open>iter\<close> is the order in which \<open>range\<close> visits the keys. The
  argument \<open>id\<close> is the text \<open>%v\<close> prints for it, \<open>None\<close> for \<open>nil\<close>.\<close>

definition key_set :: "string list \<Rightarrow> string list" where
  "key_set keys = fold (\<lambda>k ks. if k \<in> set ks then ks else ks @ [k]) keys []"

definition UniqueKeys :: "(string list \<Rightarrow> string list) \<Rightarrow> string list \<Rightarrow> string list" where
  "UniqueKeys iter keys = iter (key_set keys)"

definition CustomCacheKeys :: "string \<Rightarrow> string option \<Rightarrow> string list" where
  "CustomCacheKeys cacheKeyFormat ident =
     (case ident of None \<Rightarrow> [] | Some v \<Rightarrow> [cacheKeyFormat @ v])"

definition GetCacheKeys :: "string \<Rightarrow> string \<Rightarrow> string option \<Rightarrow> string list" where
  "GetCacheKeys cacheKeyExpire cacheKeyExpirePrefix ident =
     (case ident of None \<Rightarrow> []
      | Some v \<Rightarrow> [cacheKeyExpire @ v] @ CustomCacheKeys cacheKeyExpirePrefix ident)"

definition GetCacheMultiKeys :: "string option \<Rightarrow> string list \<Rightarrow> string list" where
  "GetCacheMultiKeys ident cacheKeyExpires =
     (case ident of None \<Rightarrow> []
      | Some v \<Rightarrow> fold (\<lambda>e cacheKeys. cacheKeys @ CustomCacheKeys e ident) cacheKeyExpires [])"

definition GetCacheKeysByIdList ::
  "(string list \<Rightarrow> string list) \<Rightarrow> string option list \<Rightarrow> string list \<Rightarrow> string list" where
  "GetCacheKeysByIdList iter data cacheKeyExpires =
     (if length data = 0 then []
      else UniqueKeys iter
        (fold (\<lambda>v keys. keys @ GetCacheMultiKeys v cacheKeyExpires) data []))"

section \<open>Splitting\<close>

lemma splitBy_loop_concat:
  "concat (splitBy_loop fn rm rs lst buffer)
   = concat lst @ buffer @ encode (filter (\<lambda>r. \<not> (rm \<and> fn r)) rs)"
  by (induction fn rm rs lst buffer rule: splitBy_loop.induct) (auto simp: Let_def)

definition piece_ok :: "(nat \<Rightarrow> bool) \<Rightarrow> bool \<Rightarrow> string \<Rightarrow> bool" where
  "piece_ok fn rm p \<longleftrightarrow> (\<exists>r rs. p = encode (r # rs) \<and> list_all (\<lambda>x. \<not> fn x) rs \<and> (rm \<longrightarrow> \<not> fn r))"

lemma piece_ok_snoc: "piece_ok fn rm b \<Longrightarrow> \<not> fn r \<Longrightarrow> piece_ok fn rm (b @ encode_rune r)"
  unfolding piece_ok_def
proof (elim exE conjE)
  fix q qs
  assume "b = encode (q # qs)" "list_all (\<lambda>x. \<not> fn x) qs" "rm \<longrightarrow> \<not> fn q" "\<not> fn r"
  then show "\<exists>r' rs. b @ encode_rune r = encode (r' # rs) \<and> list_all (\<lambda>x. \<not> fn x) rs \<and> (rm \<longrightarrow> \<not> fn r')"
    by (intro exI [of _ q] exI [of _ "qs @ [r]"]) simp
qed

lemma piece_ok_single: "(rm \<longrightarrow> \<not> fn r) \<Longrightarrow> piece_ok fn rm (encode_rune r)"
  unfolding piece_ok_def by (intro exI [of _ r] exI [of _ "[]"]) simp

lemma splitBy_loop_pieces:
  "list_all (piece_ok fn rm) lst \<Longrightarrow> buffer = [] \<or> piece_ok fn rm buffer
   \<Longrightarrow> list_all (piece_ok fn rm) (splitBy_loop fn rm rs lst buffer)"
proof (induction fn rm rs lst buffer rule: splitBy_loop.induct)
  case (2 fn rm r rs lst buffer)
  then show ?case
    by (cases "fn r"; cases "buffer = []")
       (simp_all add: piece_ok_single piece_ok_snoc)
qed auto

section \<open>Camel and snake case\<close>

definition snake_word :: "string \<Rightarrow> bool" where
  "snake_word w \<longleftrightarrow> w \<noteq> [] \<and> is_low (hd w) \<and> list_all (\<lambda>c. is_low c \<or> is_digit c) (tl w)"

definition letter_word :: "string \<Rightarrow> bool" where
  "letter_word w \<longleftrightarrow> w \<noteq> [] \<and> list_all is_low w"

lemma letter_word_snake: "letter_word w \<Longrightarrow> snake_word w"
  by (cases w) (auto simp: letter_word_def snake_word_def list_all_iff)

lemma snake_wordE:
  assumes "snake_word w"
  obtains c u where "w = c # u" "is_low c" "list_all (\<lambda>c. is_low c \<or> is_digit c) u"
  using assms by (cases w) (auto simp: snake_word_def)

lemma digit_facts: "is_digit c \<Longrightarrow> \<not> is_up c \<and> \<not> is_low c \<and> down_char c = c \<and> c \<noteq> CHR ''_'' \<and> code c < 128"
  by (auto simp: is_digit_def is_up_def is_low_def byte_in_def down_char_def)

lemma low_facts: "is_low c \<Longrightarrow> \<not> is_up c \<and> down_char c = c \<and> c \<noteq> CHR ''_'' \<and> code c < 128"
  by (auto simp: is_low_def is_up_def byte_in_def down_char_def)

lemma up_facts: "is_up c \<Longrightarrow> \<not> is_low c \<and> c \<noteq> CHR ''_''"
  by (auto simp: is_low_def is_up_def byte_in_def)

lemma up_char_of_low: "is_low c \<Longrightarrow> char_of (code c - 32) = up_char c"
  by (simp add: up_char_def is_low_def)

lemma map_down_tail: "list_all (\<lambda>c. is_low c \<or> is_digit c) u \<Longrightarrow> map down_char u = u"
  by (induction u) (use digit_facts low_facts in auto)

lemma capitalize_snake: "snake_word (c # u) \<Longrightarrow> capitalize (c # u) = up_char c # u"
  by (simp add: snake_word_def map_down_tail)

lemma join_underscore:
  "ws \<noteq> [] \<Longrightarrow> join ws ''_'' = hd ws @ concat (map (\<lambda>w. CHR ''_'' # w) (tl ws))"
proof (induction ws)
  case (Cons w ws)
  then show ?case by (cases ws) simp_all
qed simp

lemma camel_tail:
  "list_all (\<lambda>c. is_low c \<or> is_digit c) u
   \<Longrightarrow> CamelString_loop False True (u @ rest) data = CamelString_loop False True rest (data @ u)"
proof (induction u arbitrary: data)
  case (Cons c u)
  then have "c \<noteq> CHR ''_''" using digit_facts low_facts by auto
  with Cons show ?case by simp
qed simp

lemma camel_words:
  "list_all snake_word ws
   \<Longrightarrow> CamelString_loop False True (concat (map (\<lambda>w. CHR ''_'' # w) ws)) data
       = data @ concat (map capitalize ws)"
proof (induction ws arbitrary: data)
  case (Cons w ws)
  then obtain c u where w: "w = c # u" "is_low c" "list_all (\<lambda>c. is_low c \<or> is_digit c) u"
    by (auto elim: snake_wordE)
  have up: "is_up (up_char c)" "up_char c \<noteq> CHR ''_''"
    using w(2) up_facts by auto
  have "\<not> is_up (CHR ''_'')" "\<not> is_low (CHR ''_'')"
    by (simp_all add: is_up_def is_low_def byte_in_def)
  then have "CamelString_loop False True (concat (map (\<lambda>w. CHR ''_'' # w) (w # ws))) data
    = CamelString_loop False True (u @ concat (map (\<lambda>w. CHR ''_'' # w) ws)) (data @ [up_char c])"
    using w(1,2) up low_facts [OF w(2)] by (simp add: up_char_of_low)
  also have "\<dots> = data @ capitalize w @ concat (map capitalize ws)"
    using Cons w by (simp add: camel_tail capitalize_snake map_down_tail)
  finally show ?case by simp
qed simp

lemma CamelString_join:
  assumes "list_all snake_word ws"
  shows "CamelString (join ws ''_'') = concat (map capitalize ws)"
proof (cases ws)
  case Nil
  then show ?thesis by (simp add: CamelString_def)
next
  case (Cons w ws')
  with assms obtain c u where w: "w = c # u" "is_low c" "list_all (\<lambda>c. is_low c \<or> is_digit c) u"
    by (auto elim: snake_wordE)
  have up: "is_up (up_char c)" "up_char c \<noteq> CHR ''_''"
    using w(2) up_facts by auto
  have "CamelString (join ws ''_'')
    = CamelString_loop False True (u @ concat (map (\<lambda>w. CHR ''_'' # w) ws')) [up_char c]"
    using w(1,2) up low_facts [OF w(2)] Cons
    by (simp add: CamelString_def join_underscore up_char_of_low)
  also have "\<dots> = capitalize w @ concat (map capitalize ws')"
    using assms Cons w by (simp add: camel_tail camel_words map_down_tail)
  finally show ?thesis using Cons by simp
qed

lemma snake_tail:
  "list_all (\<lambda>c. is_low c \<or> is_digit c) u
   \<Longrightarrow> SnakeString_loop i True (u @ rest) data = SnakeString_loop (i + length u) True rest (data @ u)"
proof (induction u arbitrary: i data)
  case (Cons c u)
  then have "\<not> is_up c" using digit_facts low_facts by auto
  with Cons show ?case by simp
qed simp

lemma snake_words:
  "list_all snake_word ws
   \<Longrightarrow> SnakeString_loop (Suc i) True (concat (map capitalize ws)) data
       = data @ concat (map (\<lambda>w. CHR ''_'' # capitalize w) ws)"
proof (induction ws arbitrary: i data)
  case (Cons w ws)
  then obtain c u where w: "w = c # u" "is_low c" "list_all (\<lambda>c. is_low c \<or> is_digit c) u"
    by (auto elim: snake_wordE)
  have "SnakeString_loop (Suc i) True (concat (map capitalize (w # ws))) data
    = SnakeString_loop (Suc (Suc i)) True (u @ concat (map capitalize ws)) (data @ ''_'' @ [up_char c])"
    using w by (simp add: map_down_tail)
  also have "\<dots> = data @ ''_'' @ up_char c # u @ concat (map (\<lambda>w. CHR ''_'' # capitalize w) ws)"
    using Cons w by (simp add: snake_tail)
  finally show ?case using w by (simp add: map_down_tail)
qed simp

lemma down_capitalize: "snake_word w \<Longrightarrow> map down_char (capitalize w) = w"
  by (erule snake_wordE) (simp add: map_down_tail)

lemma ascii_capitalize: "snake_word w \<Longrightarrow> ascii (capitalize w)"
  by (erule snake_wordE)
     (auto simp: map_down_tail low_facts ascii_def list_all_iff dest: digit_facts low_facts)

lemma SnakeString_concat:
  assumes "ascii_text T" "list_all snake_word ws"
  shows "SnakeString T (concat (map capitalize ws)) = join ws ''_''"
proof (cases ws)
  case Nil
  then show ?thesis by (simp add: SnakeString_def to_lower_def strmap_def)
next
  case (Cons w ws')
  with assms obtain c u where w: "w = c # u" "is_low c" "list_all (\<lambda>c. is_low c \<or> is_digit c) u"
    by (auto elim: snake_wordE)
  let ?out = "capitalize w @ concat (map (\<lambda>w. CHR ''_'' # capitalize w) ws')"
  have "up_char c \<noteq> CHR ''_''" using w(2) up_facts by auto
  then have loop: "SnakeString_loop 0 False (concat (map capitalize ws)) [] = ?out"
    using assms(2) Cons w by (simp add: map_down_tail snake_tail snake_words)
  have "ascii (concat (map (\<lambda>w. CHR ''_'' # capitalize w) vs))
    \<and> map down_char (concat (map (\<lambda>w. CHR ''_'' # capitalize w) vs)) = concat (map (\<lambda>w. CHR ''_'' # w) vs)"
    if "list_all snake_word vs" for vs
    using that
    by (induction vs) (auto simp: ascii_capitalize down_capitalize down_char_def byte_in_def)
  then have "ascii ?out" "map down_char ?out = join ws ''_''"
    using assms(2) Cons by (simp_all add: ascii_capitalize down_capitalize join_underscore)
  with loop assms(1) show ?thesis
    by (simp add: SnakeString_def to_lower_ascii)
qed

lemma not_empty_or_space:
  assumes "s \<noteq> []" "code (hd s) < 128" "\<not> is_space_rune (code (hd s))"
  shows "\<not> IsEmptyOrSpace s"
proof -
  obtain c t where s: "s = c # t" using assms(1) by (cases s) auto
  have "segs s = (code c, [c]) # segs t"
    using assms(2) s by (simp add: segs_ascii_Cons)
  then have "(code c, [c]) \<in> set (rev (dropWhile (is_space_rune \<circ> fst) (rev (segs s))))"
    and "dropWhile (is_space_rune \<circ> fst) (segs s) = segs s"
    using assms(3) s by (simp_all add: dropWhile_append3)
  then have "set (trim_space s) \<noteq> {}"
    unfolding trim_space_def by force
  then show ?thesis
    using s by (auto simp: IsEmptyOrSpace_def)
qed

lemma letter_word_not_space:
  "c # u = w @ v \<Longrightarrow> w \<noteq> [] \<Longrightarrow> is_low (hd w) \<or> is_up (hd w) \<Longrightarrow> \<not> IsEmptyOrSpace (c # u)"
  by (rule not_empty_or_space, cases w)
     (auto simp: is_low_def is_up_def byte_in_def is_space_rune_def Cons_eq_append_conv)

lemma split_word:
  "list_all (\<lambda>c. \<not> fn (code c) \<and> code c < 128) u
   \<Longrightarrow> splitBy_loop fn rm (map code u @ rest) lst buffer = splitBy_loop fn rm rest lst (buffer @ u)"
  by (induction u arbitrary: buffer) (simp_all add: encode_rune_ascii)

lemma letter_word_no_sep: "letter_word w \<Longrightarrow> list_all (\<lambda>c. code c \<noteq> 95 \<and> code c < 128) w"
  by (auto simp: letter_word_def list_all_iff is_low_def byte_in_def)

lemma split_snake:
  "list_all letter_word ws \<Longrightarrow> buffer \<noteq> []
   \<Longrightarrow> splitBy_loop (\<lambda>r. r = 95) True (map code (concat (map (\<lambda>w. CHR ''_'' # w) ws))) lst buffer
       = lst @ [buffer] @ ws"
proof (induction ws arbitrary: lst buffer)
  case (Cons w ws)
  then have "w \<noteq> []" by (simp add: letter_word_def)
  moreover have "splitBy_loop (\<lambda>r. r = 95) True
      (map code (concat (map (\<lambda>w. CHR ''_'' # w) (w # ws)))) lst buffer
    = splitBy_loop (\<lambda>r. r = 95) True
      (map code (concat (map (\<lambda>w. CHR ''_'' # w) ws))) (lst @ [buffer]) w"
    using Cons.prems split_word [of "\<lambda>r. r = 95" w True _ "lst @ [buffer]" "[]"]
    by (simp add: letter_word_no_sep)
  ultimately show ?case using Cons by simp
qed simp

lemma splitBy_snake:
  assumes "list_all letter_word ws"
  shows "splitBy (From (join ws ''_'')) (\<lambda>r. r = 95) True = ws"
proof (cases ws)
  case Nil
  then show ?thesis by (simp add: splitBy_def String_methods From_def IsEmptyOrSpace_def)
next
  case (Cons w ws')
  let ?s = "join ws ''_''"
  have w: "letter_word w" "w \<noteq> []" and ws': "list_all letter_word ws'"
    using assms Cons by (auto simp: letter_word_def)
  have j: "?s = w @ concat (map (\<lambda>w. CHR ''_'' # w) ws')"
    using Cons by (simp add: join_underscore)
  have "ascii w" "ascii (concat (map (\<lambda>w. CHR ''_'' # w) ws'))"
    using letter_word_no_sep [OF w(1)] ws'
    by (auto simp: ascii_def list_all_iff dest!: letter_word_no_sep)
  then have "runes ?s = map code w @ map code (concat (map (\<lambda>w. CHR ''_'' # w) ws'))"
    using j by (simp add: runes_ascii)
  moreover have "\<not> IsEmptyOrSpace ?s"
    using j w letter_word_not_space [of "hd ?s" "tl ?s" w]
    by (cases w) (auto simp: letter_word_def)
  ultimately show ?thesis
    using w ws' Cons split_word [of "\<lambda>r. r = 95" w True _ "[]" "[]"]
    by (simp add: splitBy_def String_methods From_def letter_word_no_sep split_snake)
qed

lemma Title_letter_word:
  assumes "title_words T" "letter_word w"
  shows "Title T w = capitalize w"
proof -
  obtain c u where "w = c # u" using assms(2) by (cases w) (auto simp: letter_word_def)
  with assms letter_word_not_space [of c u w "[]"] show ?thesis
    by (auto simp: Title_def title_words_def letter_word_def list_all_iff)
qed

lemma ToCamel_join:
  assumes "title_words T" "list_all letter_word ws"
  shows "ToCamel T (From (join ws ''_'')) = concat (map capitalize ws)"
proof -
  have "map (Title T) ws = map capitalize ws"
    using assms by (induction ws) (auto simp: Title_letter_word)
  then have "ToCamel T (From (join ws ''_'')) = join (map capitalize ws) []"
    using assms(2) by (simp only: ToCamel_def splitBy_snake String_methods source_From)
  moreover have "join ps [] = concat ps" for ps :: "string list"
    by (induction ps "[] :: string" rule: join.induct) auto
  ultimately show ?thesis by simp
qed

lemma split_camel:
  "ascii_text T \<Longrightarrow> list_all letter_word ws
   \<Longrightarrow> splitBy_loop (is_upper_rune T) False (map code (concat (map capitalize ws))) lst buffer
       = (if buffer \<noteq> [] then lst @ [buffer] else lst) @ map capitalize ws"
proof (induction ws arbitrary: lst buffer)
  case (Cons w ws)
  then obtain c u where w: "w = c # u" "is_low c" "list_all is_low u"
    by (cases w) (auto simp: letter_word_def)
  have tail: "list_all (\<lambda>c. \<not> is_upper_rune T (code c) \<and> code c < 128) u"
    using w(3) Cons.prems(1) by (auto simp: list_all_iff is_low_def byte_in_def ascii_text_def)
  have cap: "capitalize w = up_char c # u"
    using w Cons.prems(2) by (simp add: letter_word_def map_down_tail list_all_iff)
  have up: "65 \<le> code (up_char c) \<and> code (up_char c) \<le> 90"
    using is_up_up_char [OF w(2)] by (simp only: is_up_def byte_in_def)
  then have lt: "code (up_char c) < 128" by linarith
  with up have "is_upper_rune T (code (up_char c))"
    using Cons.prems(1) unfolding ascii_text_def by blast
  then have "splitBy_loop (is_upper_rune T) False (map code (concat (map capitalize (w # ws)))) lst buffer
    = splitBy_loop (is_upper_rune T) False (map code (concat (map capitalize ws)))
        (if buffer \<noteq> [] then lst @ [buffer] else lst) (up_char c # u)"
    using tail lt split_word [OF tail, of False _ _ "[up_char c]"]
    by (simp add: cap encode_rune_ascii del: up_down_ascii)
  with Cons cap show ?case by simp
qed simp

lemma splitBy_camel:
  assumes "ascii_text T" "list_all letter_word ws"
  shows "splitBy (From (concat (map capitalize ws))) (is_upper_rune T) False = map capitalize ws"
proof (cases ws)
  case Nil
  then show ?thesis by (simp add: splitBy_def String_methods From_def IsEmptyOrSpace_def)
next
  case (Cons w ws')
  let ?s = "concat (map capitalize ws)"
  have "capitalize w \<noteq> []" "is_up (hd (capitalize w))"
    using assms Cons by (cases w; simp add: letter_word_def)+
  then have "\<not> IsEmptyOrSpace ?s"
    using Cons letter_word_not_space [of "hd ?s" "tl ?s" "capitalize w"] by auto
  moreover have "ascii ?s"
    using assms(2) by (induction ws) (auto simp: ascii_capitalize letter_word_snake)
  ultimately show ?thesis
    using assms by (simp add: splitBy_def String_methods From_def runes_ascii split_camel)
qed

lemma ToSnake_concat:
  assumes "ascii_text T" "list_all letter_word ws"
  shows "ToSnake T (From (concat (map capitalize ws))) = join ws ''_''"
proof -
  have "map (\<lambda>item. String_Lower T (From item)) (map capitalize ws) = ws"
    using assms
    by (induction ws) (auto simp: String_methods Lower_def to_lower_ascii ascii_capitalize letter_word_snake down_capitalize)
  then show ?thesis
    using assms by (simp only: ToSnake_def splitBy_camel)
qed

section \<open>Cache keys\<close>

lemma key_set_props: "distinct (key_set keys) \<and> set (key_set keys) = set keys"
proof -
  have "distinct ks \<Longrightarrow> distinct (fold (\<lambda>k ks. if k \<in> set ks then ks else ks @ [k]) keys ks)
      \<and> set (fold (\<lambda>k ks. if k \<in> set ks then ks else ks @ [k]) keys ks) = set ks \<union> set keys" for ks
    by (induction keys arbitrary: ks) auto
  from this [of "[]"] show ?thesis by (simp add: key_set_def)
qed

text \<open>What Go promises of \<open>range\<close> over a map: every key exactly once.\<close>

definition map_range :: "(string list \<Rightarrow> string list) \<Rightarrow> bool" where
  "map_range iter \<longleftrightarrow> (\<forall>ks. distinct ks \<longrightarrow> distinct (iter ks) \<and> set (iter ks) = set ks)"

lemma map_range_rev [simp]: "map_range rev"
  by (simp add: map_range_def)

lemma fold_append: "fold (\<lambda>x acc. acc @ f x) xs acc = acc @ concat (map f xs)"
  by (induction xs arbitrary: acc) simp_all

lemma set_GetCacheMultiKeys:
  "set (GetCacheMultiKeys ident exps) = {e @ v |e v. e \<in> set exps \<and> ident = Some v}"
  by (auto simp: GetCacheMultiKeys_def CustomCacheKeys_def fold_append split: option.splits)

lemma UniqueKeys_props:
  "map_range iter \<Longrightarrow> distinct (UniqueKeys iter keys) \<and> set (UniqueKeys iter keys) = set keys"
  using key_set_props [of keys] by (auto simp: UniqueKeys_def map_range_def)

section \<open>Properties\<close>

text \<open>C10. \<open>CamelString\<close> followed by \<open>SnakeString\<close> is the identity on snake-case names: words of
  lower-case ASCII letters and digits, each starting with a letter, joined by single
  underscores.\<close>

theorem camel_snake_roundtrip:
  assumes "ascii_text T" "list_all snake_word ws"
  shows "SnakeString T (CamelString (join ws ''_'')) = join ws ''_''"
  using assms by (simp add: CamelString_join SnakeString_concat)

theorem camel_snake_roundtrip_witness:
  "SnakeString ascii_tables (CamelString (join [''user'', ''v2''] ''_'')) = ''user_v2''"
  using camel_snake_roundtrip [of ascii_tables "[''user'', ''v2'']"]
  by (simp add: snake_word_def is_low_def is_digit_def byte_in_def)

text \<open>\<open>ToSnake\<close> inverts \<open>ToCamel\<close> on names made of lower-case words, and \<open>ToCamel\<close> is the
  concatenation of the capitalised words.\<close>

theorem ToCamel_ToSnake_roundtrip:
  assumes "ascii_text T" "title_words T" "list_all letter_word ws"
  shows "ToCamel T (From (join ws ''_'')) = concat (map capitalize ws)
       \<and> ToSnake T (From (ToCamel T (From (join ws ''_'')))) = join ws ''_''"
  using assms by (simp add: ToCamel_join ToSnake_concat)

theorem ToCamel_ToSnake_roundtrip_witness:
  "ToCamel ascii_tables (From (join [''hello'', ''world''] ''_'')) = ''HelloWorld''
   \<and> ToSnake ascii_tables (From (ToCamel ascii_tables (From (join [''hello'', ''world''] ''_''))))
     = ''hello_world''"
  using ToCamel_ToSnake_roundtrip [of ascii_tables "[''hello'', ''world'']"]
  by (auto simp: letter_word_def is_low_def byte_in_def up_char_def down_char_def go_eval)

text \<open>\<open>splitBy\<close> loses nothing: the pieces concatenate to the runes of the string in order,
  without the separators when they are removed; no piece is empty; a separator can only stand at
  the head of a piece, and not even there when separators are removed.\<close>

theorem splitBy_partition:
  assumes "\<not> IsEmptyOrSpace (source s)"
  shows "concat (splitBy s fn rm) = encode (filter (\<lambda>r. \<not> (rm \<and> fn r)) (runes (source s)))
       \<and> list_all (\<lambda>p. \<exists>r rs. p = encode (r # rs) \<and> list_all (\<lambda>x. \<not> fn x) rs \<and> (rm \<longrightarrow> \<not> fn r))
           (splitBy s fn rm)"
proof
  show "concat (splitBy s fn rm) = encode (filter (\<lambda>r. \<not> (rm \<and> fn r)) (runes (source s)))"
    using assms by (simp add: splitBy_def String_methods splitBy_loop_concat)
  have "list_all (piece_ok fn rm) (splitBy s fn rm)"
    using assms splitBy_loop_pieces [of fn rm "[]" "[]" "runes (source s)"]
    by (simp add: splitBy_def String_methods)
  then show "list_all (\<lambda>p. \<exists>r rs. p = encode (r # rs) \<and> list_all (\<lambda>x. \<not> fn x) rs \<and> (rm \<longrightarrow> \<not> fn r))
      (splitBy s fn rm)"
    unfolding piece_ok_def [abs_def] .
qed

theorem splitBy_partition_witness:
  "concat (splitBy (From ''a_b'') (\<lambda>r. r = 95) True) = ''ab''"
proof -
  have h: "\<not> IsEmptyOrSpace (source (From ''a_b''))"
    by (rule not_empty_or_space) (simp_all add: From_def is_space_rune_def)
  from splitBy_partition [OF h, of "\<lambda>r. r = 95" True] show ?thesis
    by (simp add: From_def runes_ascii_Cons encode_rune_ascii go_eval)
qed

text \<open>\<open>TitleFirstLetter\<close> on a string whose first character takes several bytes: the lead byte
  alone is taken for a letter, so the first rune of the result is the upper case of that byte
  and the remaining bytes of the character are left without their lead byte.\<close>

theorem TitleFirstLetter_multibyte:
  assumes "s \<noteq> []" "128 \<le> code (hd s)" "is_letter_rune T (code (hd s))"
    and "128 \<le> upper_rune T (code (hd s))" "upper_rune T (code (hd s)) < 2048"
  shows "runes (TitleFirstLetter T s) = upper_rune T (code (hd s)) # runes (tl s)
       \<and> length (TitleFirstLetter T s) = length s + 1"
proof -
  let ?u = "upper_rune T (code (hd s))"
  have "valid_rune ?u" using assms(5) by (simp add: valid_rune_def)
  then have "runes (encode [?u] @ tl s) = [?u] @ runes (tl s)"
    by (intro runes_encode_append) simp
  moreover have "TitleFirstLetter T s = encode [?u] @ tl s"
    using assms(1,3) by (simp add: TitleFirstLetter_def)
  ultimately show ?thesis
    using assms by (simp add: encode_rune_def)
qed

definition latin1_example :: gotext where
  "latin1_example = ascii_tables\<lparr>is_letter_rune := (\<lambda>r. r = 228), upper_rune := (\<lambda>r. if r = 228 then 196 else r)\<rparr>"

theorem TitleFirstLetter_multibyte_witness:
  "runes (TitleFirstLetter latin1_example (map char_of [228 :: nat, 184, 173]))
   = [196, 65533, 65533]"
proof -
  have "runes (map char_of [184 :: nat, 173]) = [65533, 65533]"
    by (simp add: runes_unfold rune_at_def rune_error_def)
  then show ?thesis
    using TitleFirstLetter_multibyte [of "map char_of [228 :: nat, 184, 173]" latin1_example]
    by (simp add: latin1_example_def)
qed

text \<open>The keys to invalidate for a list of ids: every prefix with every non-nil id, each
  exactly once, whatever the iteration order of the map.\<close>

theorem GetCacheKeysByIdList_keys:
  assumes "map_range iter"
  shows "distinct (GetCacheKeysByIdList iter data exps)
       \<and> set (GetCacheKeysByIdList iter data exps) = {e @ v |e v. e \<in> set exps \<and> Some v \<in> set data}"
proof (cases "data = []")
  case True
  then show ?thesis by (simp add: GetCacheKeysByIdList_def)
next
  case False
  let ?keys = "concat (map (\<lambda>v. GetCacheMultiKeys v exps) data)"
  have "GetCacheKeysByIdList iter data exps = UniqueKeys iter ?keys"
    using False by (simp add: GetCacheKeysByIdList_def fold_append)
  moreover have "set ?keys = {e @ v |e v. e \<in> set exps \<and> Some v \<in> set data}"
    by (auto simp: set_GetCacheMultiKeys)
  ultimately show ?thesis
    using UniqueKeys_props [OF assms, of ?keys] by simp
qed

theorem GetCacheKeysByIdList_keys_witness:
  "set (GetCacheKeysByIdList rev [Some ''7'', None, Some ''7''] [''user:'', ''role:''])
   = {''user:7'', ''role:7''}"
proof -
  have "{e @ v |e v. e \<in> {a, b} \<and> Some v \<in> {Some c, None}} = {a @ c, b @ c}" for a b c :: string
    by auto
  from this [of "''user:''" "''role:''" "''7''"] show ?thesis
    using GetCacheKeysByIdList_keys [of rev "[Some ''7'', None, Some ''7'']" "[''user:'', ''role:'']"]
    by simp
qed

end
