(* ===== verification/Format.thy ===== *)
theory Format
  imports Stringx
begin

text \<open>
  The package \<open>format\<close> (\<open>format/format.go\<close>): file names formatted after a pattern such as
  \<open>go_zero\<close> or \<open>GoZero\<close>. A slice expression out of range is the error value \<open>Panic\<close>.
\<close>

section \<open>Model\<close>

definition flagGo :: string where
  "flagGo = ''GO''"

definition flagZero :: string where
  "flagZero = ''ZERO''"

datatype style = unknown | title | lower | upper

datatype format_error = ErrNamingFormat | UnexpectedFormat string | Panic

record styleFormat =
  before :: string
  through :: string
  after :: string
  goStyle :: style
  zeroStyle :: style

definition getStyle :: "gotext \<Rightarrow> string \<Rightarrow> format_error + style" where
  "getStyle T flag =
     (let compare = to_lower T flag in
      if flag = to_lower T compare then Inr lower
      else if flag = to_upper T compare then Inr upper
      else if flag = Title T compare then Inr title
      else Inl (UnexpectedFormat flag))"

definition transferTo :: "gotext \<Rightarrow> string \<Rightarrow> style \<Rightarrow> string" where
  "transferTo T s st =
     (case st of upper \<Rightarrow> to_upper T s | lower \<Rightarrow> to_lower T s | title \<Rightarrow> Title T s | unknown \<Rightarrow> s)"

text \<open>\<open>ReadRune\<close> on a string reader fails only at the end, so the loop always returns a list.\<close>

fun split_loop :: "nat list \<Rightarrow> string list \<Rightarrow> string \<Rightarrow> string list" where
  "split_loop [] lst buffer = (if 0 < length buffer then lst @ [buffer] else lst)"
| "split_loop (r # rs) lst buffer =
     (if r = 95 then split_loop rs (if 0 < length buffer then lst @ [buffer] else lst) []
      else if 65 \<le> r \<and> r \<le> 90
      then split_loop rs (if 0 < length buffer then lst @ [buffer] else lst) (encode_rune r)
      else split_loop rs lst (buffer @ encode_rune r))"

definition split :: "string \<Rightarrow> string list" where
  "split content = split_loop (runes content) [] []"

definition doFormat :: "gotext \<Rightarrow> styleFormat \<Rightarrow> string \<Rightarrow> string" where
  "doFormat T f content =
     (let splits = split content;
          joined = join (map (\<lambda>(index, s). if index = 0 then transferTo T s (goStyle f)
                              else transferTo T s (zeroStyle f))
                         (enumerate 0 splits)) (through f)
      in before f @ joined @ after f)"

definition FileNamingFormat :: "gotext \<Rightarrow> string \<Rightarrow> string \<Rightarrow> format_error + string" where
  "FileNamingFormat T fmt content =
     (let upperFormat = to_upper T fmt in
      case (index_of upperFormat flagGo, index_of upperFormat flagZero) of
        (Some indexGo, Some indexZero) \<Rightarrow>
          if indexGo > indexZero then Inl ErrNamingFormat
          else (case (slice fmt 0 indexGo, slice fmt indexGo (indexGo + 2),
                      slice fmt (indexGo + 2) indexZero, slice fmt indexZero (indexZero + 4),
                      slice fmt (indexZero + 4) (length fmt)) of
            (Some b, Some g, Some t, Some z, Some a) \<Rightarrow>
              (case getStyle T g of Inl e \<Rightarrow> Inl e | Inr gs \<Rightarrow>
              (case getStyle T z of Inl e \<Rightarrow> Inl e | Inr zs \<Rightarrow>
                 Inr (doFormat T \<lparr>before = b, through = t, after = a, goStyle = gs, zeroStyle = zs\<rparr>
                        content)))
          | _ \<Rightarrow> Inl Panic)
      | _ \<Rightarrow> Inl ErrNamingFormat)"

section \<open>Splitting\<close>

definition word_ok :: "string \<Rightarrow> bool" where
  "word_ok p \<longleftrightarrow> (\<exists>r rs. p = encode (r # rs) \<and> r \<noteq> 95
     \<and> list_all (\<lambda>x. x \<noteq> 95 \<and> \<not> (65 \<le> x \<and> x \<le> 90)) rs)"

lemma word_ok_single: "r \<noteq> 95 \<Longrightarrow> word_ok (encode_rune r)"
  unfolding word_ok_def by (intro exI [of _ r] exI [of _ "[]"]) simp

lemma word_ok_snoc:
  "word_ok b \<Longrightarrow> r \<noteq> 95 \<Longrightarrow> \<not> (65 \<le> r \<and> r \<le> 90) \<Longrightarrow> word_ok (b @ encode_rune r)"
  unfolding word_ok_def
proof (elim exE conjE)
  fix q qs
  assume "b = encode (q # qs)" "q \<noteq> 95" "list_all (\<lambda>x. x \<noteq> 95 \<and> \<not> (65 \<le> x \<and> x \<le> 90)) qs"
    "r \<noteq> 95" "\<not> (65 \<le> r \<and> r \<le> 90)"
  then show "\<exists>r' rs. b @ encode_rune r = encode (r' # rs) \<and> r' \<noteq> 95
      \<and> list_all (\<lambda>x. x \<noteq> 95 \<and> \<not> (65 \<le> x \<and> x \<le> 90)) rs"
    by (intro exI [of _ q] exI [of _ "qs @ [r]"]) simp
qed

lemma split_loop_pieces:
  "list_all word_ok lst \<Longrightarrow> buffer = [] \<or> word_ok buffer \<Longrightarrow> list_all word_ok (split_loop rs lst buffer)"
  by (induction rs lst buffer rule: split_loop.induct)
     (auto simp: word_ok_single word_ok_snoc)

lemma split_loop_concat:
  "concat (split_loop rs lst buffer) = concat lst @ buffer @ encode (filter (\<lambda>r. r \<noteq> 95) rs)"
  by (induction rs lst buffer rule: split_loop.induct) auto

lemma split_loop_tail:
  "list_all is_low u
   \<Longrightarrow> split_loop (map code u @ rest) lst buffer = split_loop rest lst (buffer @ u)"
  by (induction u arbitrary: buffer)
     (auto simp: is_low_def byte_in_def encode_rune_ascii)

lemma split_loop_snake:
  "list_all letter_word ws \<Longrightarrow> buffer \<noteq> []
   \<Longrightarrow> split_loop (map code (concat (map (\<lambda>w. CHR ''_'' # w) ws))) lst buffer = lst @ buffer # ws"
proof (induction ws arbitrary: lst buffer)
  case (Cons w ws)
  then have "w \<noteq> []" "list_all is_low w" by (simp_all add: letter_word_def)
  with Cons show ?case using split_loop_tail [of w _ "lst @ [buffer]" "[]"] by simp
qed simp

lemma split_loop_camel:
  "list_all letter_word ws
   \<Longrightarrow> split_loop (map code (concat (map capitalize ws))) lst buffer
       = (if buffer = [] then lst else lst @ [buffer]) @ map capitalize ws"
proof (induction ws arbitrary: lst buffer)
  case (Cons w ws)
  then obtain c u where w: "w = c # u" "is_low c" "list_all is_low u"
    by (cases w) (auto simp: letter_word_def)
  have "capitalize w = up_char c # u"
    using w by (simp add: map_down_tail list_all_iff)
  moreover have "65 \<le> code (up_char c) \<and> code (up_char c) \<le> 90"
    using is_up_up_char [OF w(2)] by (simp only: is_up_def byte_in_def)
  ultimately show ?case
    using Cons w(3) split_loop_tail [of u _ _ "[up_char c]"] is_up_ascii [OF is_up_up_char [OF w(2)]]
    by (simp add: encode_rune_ascii del: up_down_ascii)
qed simp

lemma ascii_snake_join: "list_all letter_word ws \<Longrightarrow> ascii (join ws ''_'')"
  by (induction ws "''_''" rule: join.induct)
     (auto simp: ascii_def list_all_iff dest!: letter_word_no_sep)

lemma split_snake_join:
  assumes "list_all letter_word ws"
  shows "split (join ws ''_'') = ws"
proof (cases ws)
  case (Cons w ws')
  have w: "w \<noteq> []" "list_all is_low w" and ws': "list_all letter_word ws'"
    using assms Cons by (auto simp: letter_word_def)
  have "runes (join ws ''_'') = map code w @ map code (concat (map (\<lambda>w. CHR ''_'' # w) ws'))"
    using Cons ascii_snake_join [OF assms] by (simp add: runes_ascii join_underscore)
  then show ?thesis
    using w ws' Cons split_loop_tail [of w _ "[]" "[]"]
    by (simp add: split_def split_loop_snake)
qed (simp add: split_def)

lemma split_camel_concat:
  assumes "list_all letter_word ws"
  shows "split (concat (map capitalize ws)) = map capitalize ws"
proof -
  have "ascii (concat (map capitalize ws))"
    using assms by (induction ws) (auto simp: ascii_capitalize letter_word_snake)
  with assms split_loop_camel [of ws "[]" "[]"] show ?thesis by (simp add: split_def runes_ascii)
qed

section \<open>The pattern\<close>

lemma to_upper_length: "ascii_text T \<Longrightarrow> ascii s \<Longrightarrow> length (to_upper T s) = length s"
  by (simp add: to_upper_ascii)

lemma doFormat_map:
  "doFormat T f content = before f @ join (case split content of [] \<Rightarrow> []
     | w # ws \<Rightarrow> transferTo T w (goStyle f) # map (\<lambda>s. transferTo T s (zeroStyle f)) ws) (through f) @ after f"
proof -
  have "map (\<lambda>(i, s). if i = 0 then g s else h s) (enumerate (Suc n) ws) = map h ws" for n ws
    and g h :: "string \<Rightarrow> string"
    by (induction ws arbitrary: n) auto
  then show ?thesis by (simp add: doFormat_def split: list.splits)
qed

text \<open>The words of the canonical patterns.\<close>

lemma getStyle_go [simp]:
  assumes "ascii_text T" "title_words T"
  shows "getStyle T ''go'' = Inr lower" "getStyle T ''GO'' = Inr upper" "getStyle T ''Go'' = Inr title"
    "getStyle T ''zero'' = Inr lower" "getStyle T ''ZERO'' = Inr upper" "getStyle T ''Zero'' = Inr title"
proof -
  have t: "Title T ''go'' = ''Go''" "Title T ''zero'' = ''Zero''"
    using Title_letter_word [OF assms(2)]
    by (simp_all add: letter_word_def is_low_def byte_in_def up_char_def down_char_def go_eval)
  show "getStyle T ''go'' = Inr lower" "getStyle T ''GO'' = Inr upper" "getStyle T ''Go'' = Inr title"
    "getStyle T ''zero'' = Inr lower" "getStyle T ''ZERO'' = Inr upper" "getStyle T ''Zero'' = Inr title"
    using assms t
    by (simp_all add: getStyle_def to_lower_ascii to_upper_ascii down_char_def up_char_def byte_in_def go_eval)
qed

text \<open>For an ASCII pattern the indices found in the upper-cased pattern are those of the pattern.\<close>

lemma pattern_parts:
  assumes "ascii_text T" "ascii fmt"
    and "index_of (to_upper T fmt) flagGo = Some i" "index_of (to_upper T fmt) flagZero = Some j" "i \<le> j"
  obtains b g t z a where "fmt = b @ g @ t @ z @ a" "map up_char g = ''GO''" "map up_char z = ''ZERO''"
    "i = length b" "j = length (b @ g @ t)"
    "slice fmt 0 i = Some b" "slice fmt i (i + 2) = Some g" "slice fmt (i + 2) j = Some t"
    "slice fmt j (j + 4) = Some z" "slice fmt (j + 4) (length fmt) = Some a"
proof -
  let ?u = "map up_char fmt"
  have u: "to_upper T fmt = ?u" using assms(1,2) by (rule to_upper_ascii)
  have lens: "length ''GO'' = 2" "length ''ZERO'' = 4" by simp_all
  note G = index_of_Some [OF assms(3) [unfolded u flagGo_def], unfolded lens]
  note Z = index_of_Some [OF assms(4) [unfolded u flagZero_def], unfolded lens]
  have I: "i + 2 \<le> length fmt" "map up_char (take 2 (drop i fmt)) = ''GO''"
    using G by (simp_all only: length_map take_map drop_map)
  have J: "j + 4 \<le> length fmt" "map up_char (take 4 (drop j fmt)) = ''ZERO''"
    using Z by (simp_all only: length_map take_map drop_map)
  have "take 2 (drop i ?u) ! 0 = CHR ''G''" "take 2 (drop i ?u) ! 1 = CHR ''O''"
    "take 4 (drop j ?u) ! 0 = CHR ''Z''"
    using G Z by (simp_all only: nth_Cons_0 nth_Cons_Suc One_nat_def)
  then have i: "?u ! i = CHR ''G''" "?u ! (i + 1) = CHR ''O''" and j: "?u ! j = CHR ''Z''"
    using I(1) J(1) by simp_all
  have "j \<noteq> i" "j \<noteq> i + 1"
    using i j by auto
  with assms(5) have ij: "i + 2 \<le> j" by linarith
  let ?b = "take i fmt" and ?g = "take 2 (drop i fmt)" and ?t = "take (j - (i + 2)) (drop (i + 2) fmt)"
    and ?z = "take 4 (drop j fmt)" and ?a = "drop (j + 4) fmt"
  have "drop (j - (i + 2)) (drop (i + 2) fmt) = drop j fmt"
    unfolding drop_drop by (simp only: le_add_diff_inverse2 [OF ij])
  moreover have "drop 4 (drop j fmt) = ?a" "drop 2 (drop i fmt) = drop (i + 2) fmt"
    unfolding drop_drop by (simp_all only: add.commute)
  ultimately have "drop (i + 2) fmt = ?t @ drop j fmt" "drop j fmt = ?z @ ?a"
    "drop i fmt = ?g @ drop (i + 2) fmt"
    using append_take_drop_id [of "j - (i + 2)" "drop (i + 2) fmt"]
      append_take_drop_id [of 4 "drop j fmt"] append_take_drop_id [of 2 "drop i fmt"]
    by (simp_all only:)
  then have "fmt = ?b @ ?g @ ?t @ ?z @ ?a"
    by (metis append_take_drop_id)
  then show thesis
    using I J ij by (intro that [of ?b ?g ?t ?z ?a]) (simp_all add: slice_def)
qed

lemma pattern_go_zero:
  assumes "ascii_text T"
  shows "index_of (to_upper T ''go_zero'') flagGo = Some 0" "index_of (to_upper T ''go_zero'') flagZero = Some 3"
    "index_of (to_upper T ''goZero'') flagGo = Some 0" "index_of (to_upper T ''goZero'') flagZero = Some 2"
    "index_of (to_upper T ''GoZero'') flagGo = Some 0" "index_of (to_upper T ''GoZero'') flagZero = Some 2"
  using assms
  by (simp_all add: to_upper_ascii up_char_def byte_in_def flagGo_def flagZero_def has_prefix_def go_eval)

lemma format_patterns:
  assumes "ascii_text T" "title_words T"
  shows "FileNamingFormat T ''go_zero'' c = Inr (doFormat T
      \<lparr>before = [], through = ''_'', after = [], goStyle = lower, zeroStyle = lower\<rparr> c)"
    "FileNamingFormat T ''goZero'' c = Inr (doFormat T
      \<lparr>before = [], through = [], after = [], goStyle = lower, zeroStyle = title\<rparr> c)"
    "FileNamingFormat T ''GoZero'' c = Inr (doFormat T
      \<lparr>before = [], through = [], after = [], goStyle = title, zeroStyle = title\<rparr> c)"
  using assms
  by (simp_all add: FileNamingFormat_def pattern_go_zero slice_def)

lemma transfer_words:
  assumes "ascii_text T" "title_words T" "letter_word w"
  shows "transferTo T w lower = w" "transferTo T w title = capitalize w"
    "transferTo T (capitalize w) lower = w" "transferTo T (capitalize w) title = capitalize w"
proof -
  have a: "ascii w" "ascii (capitalize w)"
    using assms(3) letter_word_no_sep [of w]
    by (simp_all add: ascii_capitalize letter_word_snake) (simp add: ascii_def list_all_iff)
  have d: "map down_char w = w"
    using assms(3) by (auto simp: letter_word_def list_all_iff map_idI)
  show "transferTo T w lower = w" "transferTo T (capitalize w) lower = w"
    using assms a d by (simp_all add: transferTo_def to_lower_ascii down_capitalize letter_word_snake)
  show "transferTo T w title = capitalize w"
    using assms by (simp add: transferTo_def Title_letter_word)
  obtain c u where w: "w = c # u" "is_low c" "list_all is_low u"
    using assms(3) by (cases w) (auto simp: letter_word_def)
  have cap: "capitalize w = up_char c # u"
    using w by (simp add: map_down_tail list_all_iff)
  have "\<not> IsEmptyOrSpace (up_char c # u)"
    using letter_word_not_space [of "up_char c" u "up_char c # u" "[]"] w by simp
  moreover have "title_caser T (up_char c # u) = capitalize (up_char c # u)"
    using assms(2) w by (simp add: title_words_def list_all_iff)
  moreover have "capitalize (up_char c # u) = up_char c # u"
    using w by (simp add: map_down_tail list_all_iff)
  ultimately show "transferTo T (capitalize w) title = capitalize w"
    by (simp add: transferTo_def Title_def cap)
qed

lemma join_empty_sep: "join ps [] = concat ps"
  by (induction ps "[] :: string" rule: join.induct) auto

section \<open>Properties\<close>

text \<open>\<open>split\<close> loses nothing but the underscores: the pieces concatenate to the other runes of
  the name in order; no piece is empty or holds an underscore, and a capital ASCII letter stands
  only at the head of a piece.\<close>

theorem split_partition:
  "concat (split content) = encode (filter (\<lambda>r. r \<noteq> 95) (runes content))
   \<and> list_all (\<lambda>p. \<exists>r rs. p = encode (r # rs) \<and> r \<noteq> 95
        \<and> list_all (\<lambda>x. x \<noteq> 95 \<and> \<not> (65 \<le> x \<and> x \<le> 90)) rs) (split content)"
proof
  show "concat (split content) = encode (filter (\<lambda>r. r \<noteq> 95) (runes content))"
    by (simp add: split_def split_loop_concat)
  have "list_all word_ok (split content)"
    by (simp add: split_def split_loop_pieces)
  then show "list_all (\<lambda>p. \<exists>r rs. p = encode (r # rs) \<and> r \<noteq> 95
        \<and> list_all (\<lambda>x. x \<noteq> 95 \<and> \<not> (65 \<le> x \<and> x \<le> 90)) rs) (split content)"
    unfolding word_ok_def [abs_def] .
qed

text \<open>The patterns \<open>go_zero\<close>, \<open>goZero\<close> and \<open>GoZero\<close> are the conversions to snake case, lower
  camel case and camel case, and they do not depend on whether the name comes in snake or in
  camel case.\<close>

theorem FileNamingFormat_canonical:
  assumes "ascii_text T" "title_words T" "list_all letter_word (w # ws)"
    and "content = join (w # ws) ''_'' \<or> content = concat (map capitalize (w # ws))"
  shows "FileNamingFormat T ''go_zero'' content = Inr (join (w # ws) ''_'')
       \<and> FileNamingFormat T ''goZero'' content = Inr (w @ concat (map capitalize ws))
       \<and> FileNamingFormat T ''GoZero'' content = Inr (concat (map capitalize (w # ws)))"
proof -
  note tw = transfer_words [OF assms(1,2)]
  have low: "map (\<lambda>s. transferTo T s lower) ws = ws" "map (\<lambda>s. transferTo T (capitalize s) lower) ws = ws"
    "map (\<lambda>s. transferTo T s title) ws = map capitalize ws"
    "map (\<lambda>s. transferTo T (capitalize s) title) ws = map capitalize ws"
    using assms(3) by (induction ws) (simp_all add: tw)
  from assms(4) show ?thesis
  proof
    assume "content = join (w # ws) ''_''"
    with assms(3) have "split content = w # ws" by (simp add: split_snake_join)
    with assms(3) low show ?thesis
      by (simp add: format_patterns [OF assms(1,2)] doFormat_map tw join_empty_sep del: map_eq_conv)
  next
    assume "content = concat (map capitalize (w # ws))"
    with assms(3) have "split content = map capitalize (w # ws)"
      by (simp only: split_camel_concat)
    with assms(3) low show ?thesis
      by (simp add: format_patterns [OF assms(1,2)] doFormat_map tw join_empty_sep o_def del: map_eq_conv)
  qed
qed

theorem FileNamingFormat_canonical_witness:
  "FileNamingFormat ascii_tables ''go_zero'' ''UserName'' = Inr ''user_name''"
proof -
  have w: "list_all letter_word [''user'', ''name'']"
    by (simp add: letter_word_def is_low_def byte_in_def)
  have c: "concat (map capitalize [''user'', ''name'']) = ''UserName''"
    by (simp add: up_char_def down_char_def byte_in_def go_eval)
  from FileNamingFormat_canonical [OF ascii_tables_ok w, of "''UserName''"] c
  show ?thesis by simp
qed

text \<open>On an ASCII pattern \<open>FileNamingFormat\<close> never panics, and when it returns a name the
  pattern splits into before, go, through, zero and after, where go and zero spell the two flags
  up to case and the result is the converted words between before and after.\<close>

theorem FileNamingFormat_ascii:
  assumes "ascii_text T" "ascii fmt"
  shows "FileNamingFormat T fmt content \<noteq> Inl Panic
    \<and> (\<forall>r. FileNamingFormat T fmt content = Inr r \<longrightarrow>
        (\<exists>b g t z a gs zs. fmt = b @ g @ t @ z @ a \<and> map up_char g = ''GO'' \<and> map up_char z = ''ZERO''
          \<and> getStyle T g = Inr gs \<and> getStyle T z = Inr zs
          \<and> r = b @ join (case split content of [] \<Rightarrow> []
                  | w # ws \<Rightarrow> transferTo T w gs # map (\<lambda>s. transferTo T s zs) ws) t @ a))"
proof (cases "\<exists>i j. index_of (to_upper T fmt) flagGo = Some i \<and> index_of (to_upper T fmt) flagZero = Some j \<and> i \<le> j")
  case True
  then obtain i j where ij: "index_of (to_upper T fmt) flagGo = Some i"
    "index_of (to_upper T fmt) flagZero = Some j" "i \<le> j" by blast
  obtain b g t z a where p: "fmt = b @ g @ t @ z @ a" "map up_char g = ''GO''" "map up_char z = ''ZERO''"
    "slice fmt 0 i = Some b" "slice fmt i (i + 2) = Some g" "slice fmt (i + 2) j = Some t"
    "slice fmt j (j + 4) = Some z" "slice fmt (j + 4) (length fmt) = Some a"
    by (rule pattern_parts [OF assms ij])
  have eq: "FileNamingFormat T fmt content =
     (case getStyle T g of Inl e \<Rightarrow> Inl e | Inr gs \<Rightarrow>
       (case getStyle T z of Inl e \<Rightarrow> Inl e | Inr zs \<Rightarrow>
          Inr (b @ join (case split content of [] \<Rightarrow> []
                  | w # ws \<Rightarrow> transferTo T w gs # map (\<lambda>s. transferTo T s zs) ws) t @ a)))"
    unfolding FileNamingFormat_def Let_def ij option.case prod.case p(4-8) doFormat_map styleFormat.simps
    using ij(3) by simp
  have np: "getStyle T x \<noteq> Inl Panic" for x
    by (simp add: getStyle_def Let_def)
  show ?thesis
  proof (cases "getStyle T g")
    case (Inl e) with eq np show ?thesis by auto
  next
    case g: (Inr gs)
    show ?thesis
    proof (cases "getStyle T z")
      case (Inl e) with eq g np show ?thesis by auto
    next
      case (Inr zs)
      let ?r = "b @ join (case split content of [] \<Rightarrow> []
          | w # ws \<Rightarrow> transferTo T w gs # map (\<lambda>s. transferTo T s zs) ws) t @ a"
      have r: "FileNamingFormat T fmt content = Inr ?r"
        unfolding eq g Inr by (simp only: sum.case)
      show ?thesis
      proof (intro conjI allI impI)
        show "FileNamingFormat T fmt content \<noteq> Inl Panic" unfolding r by (rule sum.distinct)
        fix x assume "FileNamingFormat T fmt content = Inr x"
        then have "x = ?r" unfolding r by (simp only: sum.inject)
        with p(1-3) g Inr show "\<exists>b g t z a gs zs. fmt = b @ g @ t @ z @ a
          \<and> map up_char g = ''GO'' \<and> map up_char z = ''ZERO''
          \<and> getStyle T g = Inr gs \<and> getStyle T z = Inr zs
          \<and> x = b @ join (case split content of [] \<Rightarrow> []
                  | w # ws \<Rightarrow> transferTo T w gs # map (\<lambda>s. transferTo T s zs) ws) t @ a"
          by (intro exI conjI)
      qed
    qed
  qed
next
  case False
  then have "FileNamingFormat T fmt content = Inl ErrNamingFormat"
    by (auto simp: FileNamingFormat_def Let_def not_less split: option.splits)
  then show ?thesis by simp
qed

theorem FileNamingFormat_ascii_witness:
  "FileNamingFormat ascii_tables ''gopher'' ''user'' \<noteq> Inl Panic"
  using FileNamingFormat_ascii [of ascii_tables "''gopher''" "''user''"] by simp

text \<open>The indices are computed on the upper-cased pattern and used on the pattern itself. A
  character whose upper case takes more bytes (here U+0250, two bytes, with upper case U+2C6F,
  three bytes) shifts them, and the slice of the zero part is out of range: a panic.\<close>

theorem FileNamingFormat_shifted_panics:
  assumes "ascii_text T" "upper_rune T 592 = 11375"
  shows "FileNamingFormat T (encode [592] @ ''gozero'') content = Inl Panic"
proof -
  have "runes (encode [592] @ ''gozero'') = [592] @ map code ''gozero''"
    by (subst runes_encode_append) (simp_all add: valid_rune_def runes_ascii)
  then have u: "to_upper T (encode [592] @ ''gozero'') = encode_rune 11375 @ ''GOZERO''"
    using assms
    by (simp add: to_upper_def strmap_def ascii_text_def ascii_up_def encode_rune_ascii go_eval)
  have e: "encode_rune 11375 = map char_of [226 :: nat, 177, 175]"
    "encode_rune 592 = map char_of [201 :: nat, 144]"
    by (simp_all add: encode_rune_def valid_rune_def)
  have "index_of (encode_rune 11375 @ ''GOZERO'') flagGo = Some 3"
    "index_of (encode_rune 11375 @ ''GOZERO'') flagZero = Some 5"
    by (simp_all add: e has_prefix_def flagGo_def flagZero_def go_eval)
  then show ?thesis
    unfolding FileNamingFormat_def Let_def u by (simp add: slice_def e(2))
qed

theorem FileNamingFormat_shifted_panics_witness:
  "FileNamingFormat (ascii_tables\<lparr>upper_rune := (\<lambda>r. if r = 592 then 11375 else ascii_up r)\<rparr>)
     (encode [592] @ ''gozero'') ''name'' = Inl Panic"
  by (rule FileNamingFormat_shifted_panics)
     (simp_all add: ascii_text_def ascii_tables_def)

end
