(* ===== verification/Errx.thy ===== *)
theory Errx
  imports GoStrings
begin

text \<open>
  The package \<open>errx\<close>: the error codes (\<open>errx/errCode.go\<close>), their messages for the front end
  (\<open>errx/errMsg.go\<close>, texts written as code points) and the type \<open>CodeError\<close>
  (\<open>errx/errx.go\<close>).
\<close>

section \<open>Codes\<close>

definition OK :: uint32 where
  "OK = 200"

definition ServerCommonError :: uint32 where
  "ServerCommonError = 100001"

definition RequestParamError :: uint32 where
  "RequestParamError = 100002"

definition TokenExpireError :: uint32 where
  "TokenExpireError = 100003"

definition TokenGenerateError :: uint32 where
  "TokenGenerateError = 100004"

definition DbError :: uint32 where
  "DbError = 100005"

definition NoData :: uint32 where
  "NoData = 100006"

definition Duplicate :: uint32 where
  "Duplicate = 100007"

definition PrimaryError :: uint32 where
  "PrimaryError = 100008"

definition Success :: uint32 where
  "Success = 0"

definition ServerRpcError :: uint32 where
  "ServerRpcError = 500"

definition ErrUsernamePwdError :: uint32 where
  "ErrUsernamePwdError = 110000"

definition ErrGenerateTokenError :: uint32 where
  "ErrGenerateTokenError = 110001"

definition ErrAuth :: uint32 where
  "ErrAuth = 401"

definition ErrReq :: uint32 where
  "ErrReq = 100009"

definition ErrTimeout :: uint32 where
  "ErrTimeout = 110"

definition FileOrDirectoryNotExist :: uint32 where
  "FileOrDirectoryNotExist = 100010"

lemmas errx_codes = OK_def ServerCommonError_def RequestParamError_def TokenExpireError_def
  TokenGenerateError_def DbError_def NoData_def Duplicate_def PrimaryError_def Success_def ServerRpcError_def
  ErrUsernamePwdError_def ErrGenerateTokenError_def
  ErrAuth_def ErrReq_def ErrTimeout_def FileOrDirectoryNotExist_def

section \<open>Messages\<close>

definition message :: "uint32 \<rightharpoonup> string" where
  "message = Map.empty(
     OK \<mapsto> encode [83, 85, 67, 67, 69, 83, 83],
     ServerCommonError \<mapsto> encode [26381, 21153, 22120, 24320, 23567, 24046, 21862, 44, 31245,
          21518, 20877, 26469, 35797, 19968, 35797],
     RequestParamError \<mapsto> encode [21442, 25968, 38169, 35823],
     TokenExpireError \<mapsto> encode [116, 111, 107, 101, 110, 22833, 25928, 65292, 35831, 37325,
          26032, 30331, 38470],
     TokenGenerateError \<mapsto> encode [29983, 25104, 116, 111, 107, 101, 110, 22833, 36133],
     DbError \<mapsto> encode [25968, 25454, 24211, 32321, 24537, 44, 35831, 31245, 21518, 20877,
          35797],
     NoData \<mapsto> encode [25968, 25454, 19981, 23384, 22312],
     Duplicate \<mapsto> encode [25968, 25454, 25110, 20027, 38190, 37325, 22797, 44, 35831, 26816,
          26597, 36755, 20837, 25968, 25454],
     ServerRpcError \<mapsto> encode [26381, 21153, 22120, 24320, 23567, 24046, 21862, 44, 31245,
          21518, 20877, 26469, 35797, 19968, 35797],
     PrimaryError \<mapsto> encode [19981, 25903, 25345, 26080, 20027, 38190, 25110, 32852, 21512,
          20027, 38190],
     ErrGenerateTokenError \<mapsto> encode [29983, 25104, 116, 111, 107, 101, 110, 22833, 36133],
     ErrUsernamePwdError \<mapsto> encode [36134, 21495, 25110, 23494, 30721, 19981, 27491, 30830],
     ErrAuth \<mapsto> encode [26080, 35775, 38382, 26435, 38480],
     ErrReq \<mapsto> encode [25968, 25454, 35831, 27714, 38169, 35823],
     ErrTimeout \<mapsto> encode [26381, 21153, 22120, 21709, 24212, 36229, 26102],
     FileOrDirectoryNotExist \<mapsto> encode [25991, 20214, 25110, 30446, 24405, 19981, 23384,
          22312])"

text \<open>The text for an unknown code, written out again in \<open>MapErrMsg\<close>.\<close>

definition busy_msg :: string where
  "busy_msg = encode [26381, 21153, 22120, 24320, 23567, 24046, 21862, 44, 31245, 21518, 20877, 26469, 35797, 19968, 35797]"

definition MapErrMsg :: "uint32 \<Rightarrow> string" where
  "MapErrMsg errcode = (case message errcode of Some msg \<Rightarrow> msg | None \<Rightarrow> busy_msg)"

definition IsCodeErr :: "uint32 \<Rightarrow> bool" where
  "IsCodeErr errcode = (case message errcode of Some _ \<Rightarrow> True | None \<Rightarrow> False)"

section \<open>CodeError\<close>

record CodeError =
  errCode :: uint32
  errMsg :: string

definition GetErrCode :: "CodeError \<Rightarrow> uint32" where
  "GetErrCode e = errCode e"

definition GetErrMsg :: "CodeError \<Rightarrow> string" where
  "GetErrMsg e = errMsg e"

definition CodeError_Error :: "CodeError \<Rightarrow> string" where
  "CodeError_Error e = ''ErrCode:'' @ itoa (uint (errCode e)) @ '',ErrMsg:'' @ errMsg e"

definition NewErrCodeMsg :: "uint32 \<Rightarrow> string \<Rightarrow> CodeError" where
  "NewErrCodeMsg c msg = \<lparr>errCode = c, errMsg = msg\<rparr>"

definition NewErrCode :: "uint32 \<Rightarrow> CodeError" where
  "NewErrCode c = \<lparr>errCode = c, errMsg = MapErrMsg c\<rparr>"

definition NewDefaultError :: "string \<Rightarrow> CodeError" where
  "NewDefaultError msg = \<lparr>errCode = ServerCommonError, errMsg = msg\<rparr>"

text \<open>The argument \<open>sprintf\<close> is \<open>fmt.Sprintf\<close> at the given arguments.\<close>

definition NewErrorf :: "(string \<Rightarrow> 'a list \<Rightarrow> string) \<Rightarrow> uint32 \<Rightarrow> string \<Rightarrow> 'a list \<Rightarrow> CodeError" where
  "NewErrorf sprintf c fmt args = \<lparr>errCode = c, errMsg = sprintf fmt args\<rparr>"

section \<open>Lemmas\<close>

lemma dom_message:
  "dom message = {OK, ServerCommonError, RequestParamError, TokenExpireError, TokenGenerateError,
     DbError, NoData, Duplicate, ServerRpcError, PrimaryError, ErrGenerateTokenError,
     ErrUsernamePwdError, ErrAuth, ErrReq, ErrTimeout, FileOrDirectoryNotExist}"
  unfolding message_def dom_fun_upd by (simp add: insert_commute)

lemma IsCodeErr_iff: "IsCodeErr c \<longleftrightarrow> c \<in> dom message"
  by (auto simp: IsCodeErr_def split: option.splits)

lemma Success_not_code [simp]: "\<not> IsCodeErr Success"
  by (simp add: IsCodeErr_iff dom_message errx_codes)

lemma MapErrMsg_unknown: "\<not> IsCodeErr c \<Longrightarrow> MapErrMsg c = busy_msg"
  by (auto simp: MapErrMsg_def IsCodeErr_def split: option.splits)

lemma CodeError_get [simp]:
  "GetErrCode (NewErrCodeMsg c m) = c" "GetErrMsg (NewErrCodeMsg c m) = m"
  "GetErrCode (NewErrCode c) = c" "GetErrMsg (NewErrCode c) = MapErrMsg c"
  by (simp_all add: GetErrCode_def GetErrMsg_def NewErrCodeMsg_def NewErrCode_def)

section \<open>Properties\<close>

text \<open>The sixteen codes with a message are exactly the declared constants other than
  \<open>Success\<close>, the constants are pairwise different, and \<open>MapErrMsg\<close> answers every other code with
  the text of \<open>ServerCommonError\<close>.\<close>

theorem error_table:
  "distinct [OK, ServerCommonError, RequestParamError, TokenExpireError, TokenGenerateError,
     DbError, NoData, Duplicate, PrimaryError, Success, ServerRpcError, ErrUsernamePwdError,
     ErrGenerateTokenError, ErrAuth, ErrReq, ErrTimeout, FileOrDirectoryNotExist]
   \<and> {c. IsCodeErr c} = {OK, ServerCommonError, RequestParamError, TokenExpireError,
     TokenGenerateError, DbError, NoData, Duplicate, PrimaryError, ServerRpcError,
     ErrUsernamePwdError, ErrGenerateTokenError, ErrAuth, ErrReq, ErrTimeout,
     FileOrDirectoryNotExist}
   \<and> {c. MapErrMsg c \<noteq> MapErrMsg ServerCommonError} \<subseteq> {c. IsCodeErr c}"
proof (intro conjI)
  show "distinct [OK, ServerCommonError, RequestParamError, TokenExpireError, TokenGenerateError,
     DbError, NoData, Duplicate, PrimaryError, Success, ServerRpcError, ErrUsernamePwdError,
     ErrGenerateTokenError, ErrAuth, ErrReq, ErrTimeout, FileOrDirectoryNotExist]"
    by (simp add: errx_codes)
  show "{c. IsCodeErr c} = {OK, ServerCommonError, RequestParamError, TokenExpireError,
     TokenGenerateError, DbError, NoData, Duplicate, PrimaryError, ServerRpcError,
     ErrUsernamePwdError, ErrGenerateTokenError, ErrAuth, ErrReq, ErrTimeout,
     FileOrDirectoryNotExist}"
    by (simp only: IsCodeErr_iff dom_message mem_Collect_eq Collect_mem_eq) blast
  have "message ServerCommonError = Some busy_msg"
    unfolding message_def busy_msg_def by (simp add: errx_codes)
  then have "MapErrMsg ServerCommonError = busy_msg"
    by (simp add: MapErrMsg_def)
  then show "{c. MapErrMsg c \<noteq> MapErrMsg ServerCommonError} \<subseteq> {c. IsCodeErr c}"
    using MapErrMsg_unknown by auto
qed

end
