(* ===== verification/GoValues.thy ===== *)
theory GoValues
  imports GoStrings
begin

text \<open>
  What the package \<open>reflect\<close> shows of a value behind an \<open>interface{}\<close>: its kind, its type name,
  the fields of a struct with their names and tags. Several components walk over structs this
  way. A named type is told from its kind only by the name it carries; fields promoted from
  embedded structs are not in the list of fields of the outer struct.
\<close>

section \<open>Values\<close>

datatype goval =
    VNil
  | VString string
  | VInt string int64
  | VPtr goval
  | VNilPtr string
  | VStruct string "gofield list"
  | VOther string string bool
and gofield = GoField (field_name: string) (field_tags: "(string \<times> string) list") (field_value: goval)

text \<open>\<open>VInt\<close> carries the name of its integer type; \<open>VOther\<close> the name of its type, the text of the
  value and whether it is the zero value.\<close>

datatype gokind = KInvalid | KString | KInt | KPtr | KStruct | KOther string

fun kind :: "goval \<Rightarrow> gokind" where
  "kind VNil = KInvalid"
| "kind (VString _) = KString"
| "kind (VInt _ _) = KInt"
| "kind (VPtr _) = KPtr"
| "kind (VNilPtr _) = KPtr"
| "kind (VStruct _ _) = KStruct"
| "kind (VOther t _ _) = KOther t"

fun type_string :: "goval \<Rightarrow> string option" where
  "type_string VNil = None"
| "type_string (VString _) = Some ''string''"
| "type_string (VInt t _) = Some t"
| "type_string (VPtr v) = Some (''*'' @ (case type_string v of None \<Rightarrow> ''interface {}'' | Some t \<Rightarrow> t))"
| "type_string (VNilPtr t) = Some (''*'' @ t)"
| "type_string (VStruct t _) = Some t"
| "type_string (VOther t _ _) = Some t"

lemma type_string_None [simp]: "type_string v = None \<longleftrightarrow> v = VNil"
  by (cases v) simp_all

text \<open>\<open>Value.IsZero\<close>: a struct is zero when all its fields are.\<close>

fun is_zero :: "goval \<Rightarrow> bool" and fields_zero :: "gofield list \<Rightarrow> bool" where
  "is_zero VNil = True"
| "is_zero (VString s) = (s = [])"
| "is_zero (VInt _ i) = (i = 0)"
| "is_zero (VPtr _) = False"
| "is_zero (VNilPtr _) = True"
| "is_zero (VStruct _ fs) = fields_zero fs"
| "is_zero (VOther _ _ z) = z"
| "fields_zero [] = True"
| "fields_zero (GoField _ _ v # fs) = (is_zero v \<and> fields_zero fs)"

text \<open>\<open>Value.String\<close> does not fail on other kinds, it renders the type.\<close>

definition value_string :: "goval \<Rightarrow> string" where
  "value_string v =
     (case v of VString s \<Rightarrow> s
      | _ \<Rightarrow> (case type_string v of None \<Rightarrow> ''<invalid Value>'' | Some t \<Rightarrow> ''<'' @ t @ '' Value>''))"

definition FieldByName :: "gofield list \<Rightarrow> string \<Rightarrow> goval option" where
  "FieldByName fs n = map_option field_value (find (\<lambda>f. field_name f = n) fs)"

definition tag_lookup :: "gofield \<Rightarrow> string \<Rightarrow> string option" where
  "tag_lookup f key = map_of (field_tags f) key"

definition tag_get :: "gofield \<Rightarrow> string \<Rightarrow> string" where
  "tag_get f key = (case tag_lookup f key of Some t \<Rightarrow> t | None \<Rightarrow> [])"

text \<open>\<open>Value.Interface\<close> panics on a field that is not exported.\<close>

definition exported :: "gofield \<Rightarrow> bool" where
  "exported f \<longleftrightarrow> field_name f \<noteq> [] \<and> is_up (hd (field_name f))"

end
