(* ===== verification/GoPath.thy ===== *)
theory GoPath
  imports GoStrings
begin

text \<open>
  The packages \<open>path\<close> and \<open>path/filepath\<close> on a Unix system: \<open>Clean\<close>, \<open>Join\<close>, \<open>Ext\<close>, \<open>Base\<close> and
  \<open>Dir\<close>.
\<close>

section \<open>Elements\<close>

text \<open>One element of a path added to the elements kept so far, innermost first.\<close>

definition push_elem :: "bool \<Rightarrow> string \<Rightarrow> string list \<Rightarrow> string list" where
  "push_elem rooted e kept =
     (if e = [] \<or> e = ''.'' then kept
      else if e = ''..'' then
        (case kept of
           [] \<Rightarrow> if rooted then [] else [''..'']
         | k # ks \<Rightarrow> if k = ''..'' then ''..'' # kept else ks)
      else e # kept)"

definition path_elems :: "bool \<Rightarrow> string \<Rightarrow> string list" where
  "path_elems rooted p = rev (fold (push_elem rooted) (split_char (CHR ''/'') p) [])"

definition is_rooted :: "string \<Rightarrow> bool" where
  "is_rooted p \<longleftrightarrow> p \<noteq> [] \<and> hd p = CHR ''/''"

definition path_clean :: "string \<Rightarrow> string" where
  "path_clean p =
     (if is_rooted p then CHR ''/'' # join (path_elems True p) ''/''
      else (let s = join (path_elems False p) ''/'' in if s = [] then ''.'' else s))"

text \<open>\<open>Join\<close> ignores leading empty elements and cleans the rest.\<close>

definition path_join :: "string list \<Rightarrow> string" where
  "path_join elems =
     (case dropWhile (\<lambda>e. e = []) elems of [] \<Rightarrow> [] | es \<Rightarrow> path_clean (join es ''/''))"

text \<open>\<open>Ext\<close>: from the last dot of the last element.\<close>

definition path_ext :: "string \<Rightarrow> string" where
  "path_ext p = (let r = rev p; u = takeWhile (\<lambda>c. c \<noteq> CHR ''.'' \<and> c \<noteq> CHR ''/'') r;
        rest = drop (length u) r
      in if rest \<noteq> [] \<and> hd rest = CHR ''.'' then CHR ''.'' # rev u else [])"

definition trim_slashes :: "string \<Rightarrow> string" where
  "trim_slashes s = rev (dropWhile (\<lambda>c. c = CHR ''/'') (rev s))"

definition path_base :: "string \<Rightarrow> string" where
  "path_base p =
     (if p = [] then ''.''
      else (let s = trim_slashes p; b = rev (takeWhile (\<lambda>c. c \<noteq> CHR ''/'') (rev s))
            in if b = [] then ''/'' else b))"

definition path_dir :: "string \<Rightarrow> string" where
  "path_dir p = path_clean (rev (dropWhile (\<lambda>c. c \<noteq> CHR ''/'') (rev p)))"

text \<open>\<open>Split\<close>: the directory keeps its slash. \<open>Rel\<close>: \<open>None\<close> is its error.\<close>

definition path_split :: "string \<Rightarrow> string \<times> string" where
  "path_split p = (let b = rev (takeWhile (\<lambda>c. c \<noteq> CHR ''/'') (rev p)) in (take (length p - length b) p, b))"

fun strip_common :: "'a list \<Rightarrow> 'a list \<Rightarrow> 'a list \<times> 'a list" where
  "strip_common (x # xs) (y # ys) = (if x = y then strip_common xs ys else (x # xs, y # ys))"
| "strip_common xs ys = (xs, ys)"

definition path_rel :: "string \<Rightarrow> string \<Rightarrow> string option" where
  "path_rel basepath targpath =
     (let b = path_clean basepath; t = path_clean targpath in
      if t = b then Some ''.''
      else if is_rooted b \<noteq> is_rooted t then None
      else (case strip_common (path_elems (is_rooted b) b) (path_elems (is_rooted t) t) of (bs, ts) \<Rightarrow>
              if bs \<noteq> [] \<and> hd bs = ''..'' then None
              else Some (join (replicate (length bs) ''..'' @ ts) ''/'')))"

section \<open>Lemmas\<close>

text \<open>A clean list of elements holds no empty element and no dot; in a rooted path no parent element
  either.\<close>

lemma push_elem_ok:
  "list_all (\<lambda>e. e \<noteq> [] \<and> e \<noteq> ''.'') kept \<Longrightarrow> list_all (\<lambda>e. e \<noteq> [] \<and> e \<noteq> ''.'') (push_elem r e kept)"
  by (auto simp: push_elem_def split: list.splits)

lemma push_elem_rooted: "''..'' \<notin> set kept \<Longrightarrow> ''..'' \<notin> set (push_elem True e kept)"
  by (auto simp: push_elem_def split: list.splits)

lemma path_elems_ok: "list_all (\<lambda>e. e \<noteq> [] \<and> e \<noteq> ''.'') (path_elems r p)"
proof -
  have "list_all (\<lambda>e. e \<noteq> [] \<and> e \<noteq> ''.'') (fold (push_elem r) es [])" for es
    by (rule fold_invariant_list) (simp_all add: push_elem_ok)
  then show ?thesis by (simp add: path_elems_def list_all_iff)
qed

lemma rooted_elems_no_parent: "''..'' \<notin> set (path_elems True p)"
proof -
  have "''..'' \<notin> set (fold (push_elem True) es [])" for es
    by (rule fold_invariant_list) (simp_all add: push_elem_rooted)
  then show ?thesis by (simp add: path_elems_def)
qed

section \<open>Names\<close>

text \<open>A name a directory can hold.\<close>

definition valid_name :: "string \<Rightarrow> bool" where
  "valid_name x \<longleftrightarrow> x \<noteq> [] \<and> x \<noteq> ''.'' \<and> x \<noteq> ''..'' \<and> CHR ''/'' \<notin> set x \<and> length x \<le> 255"

lemma split_char_sep: "split_char d (s @ d # t) = split_char d s @ split_char d t"
proof (induction s)
  case (Cons c s)
  obtain p ps where "split_char d s = p # ps"
    using split_char_nonempty [of d s] by (cases "split_char d s") auto
  with Cons show ?case by simp
qed simp

lemma push_elem_valid [simp]: "valid_name x \<Longrightarrow> push_elem r x kept = x # kept"
  by (simp add: push_elem_def valid_name_def)

lemma path_elems_snoc: "valid_name x \<Longrightarrow> path_elems r (p @ CHR ''/'' # x) = path_elems r p @ [x]"
  by (simp add: path_elems_def split_char_sep split_char_no_sep valid_name_def push_elem_def)

lemma path_elems_single: "valid_name x \<Longrightarrow> path_elems r x = [x]"
  by (simp add: path_elems_def split_char_no_sep valid_name_def push_elem_def)

lemma join_snoc: "join (es @ [x]) sep = (if es = [] then x else join es sep @ sep @ x)"
proof (induction es)
  case (Cons e es)
  then show ?case by (cases es) (simp_all add: join_Cons)
qed simp

lemma is_rooted_append [simp]: "p \<noteq> [] \<Longrightarrow> is_rooted (p @ q) = is_rooted p"
  by (simp add: is_rooted_def)

lemma path_join_name:
  assumes "valid_name x" "p \<noteq> []"
  shows "path_join [p, x] = (if is_rooted p then CHR ''/'' # join (path_elems True p @ [x]) ''/''
    else join (path_elems False p @ [x]) ''/'')"
proof -
  have "x \<noteq> []" using assms(1) by (simp add: valid_name_def)
  then have "join (es @ [x]) ''/'' \<noteq> []" for es by (simp add: join_snoc)
  with assms \<open>x \<noteq> []\<close> show ?thesis
    by (simp add: path_join_def path_clean_def path_elems_snoc Let_def)
qed

definition clean_path :: "string \<Rightarrow> bool" where
  "clean_path p \<longleftrightarrow> p \<noteq> ''.'' \<and> path_clean p = p"

lemma clean_path_nonempty: "clean_path p \<Longrightarrow> p \<noteq> []"
  by (auto simp: clean_path_def path_clean_def path_elems_def is_rooted_def push_elem_def)

lemma path_join_longer:
  assumes "valid_name x" "clean_path p"
  shows "length p < length (path_join [p, x])"
proof (cases "is_rooted p")
  case True
  then have p: "p = CHR ''/'' # join (path_elems True p) ''/''"
    using assms(2) by (simp add: clean_path_def path_clean_def)
  have "length p = Suc (length (join (path_elems True p) ''/''))"
    using arg_cong[OF p, of length] by simp
  with assms True show ?thesis
    using clean_path_nonempty[OF assms(2)] by (auto simp: path_join_name join_snoc valid_name_def)
next
  case False
  then have p: "p = join (path_elems False p) ''/''" and "path_elems False p \<noteq> []"
    using assms(2) by (auto simp: clean_path_def path_clean_def Let_def split: if_splits)
  moreover have "length p = length (join (path_elems False p) ''/'')"
    using arg_cong[OF p, of length] .
  ultimately show ?thesis
    using assms False clean_path_nonempty[OF assms(2)] by (simp add: path_join_name join_snoc)
qed

lemma path_elems_of_join:
  assumes "list_all valid_name es" "es \<noteq> []"
  shows "path_elems r (join es ''/'') = es"
  using assms
proof (induction es rule: rev_induct)
  case (snoc x es)
  then show ?case
    by (cases "es = []") (simp_all add: join_snoc path_elems_single path_elems_snoc)
qed simp

section \<open>Cleaning twice\<close>

text \<open>The elements kept, innermost first: parent elements only at the start of an unrooted path.\<close>

fun kept_ok :: "bool \<Rightarrow> string list \<Rightarrow> bool" where
  "kept_ok r [] = True"
| "kept_ok r (e # ks) = (kept_ok r ks \<and> e \<noteq> [] \<and> e \<noteq> ''.'' \<and> CHR ''/'' \<notin> set e
     \<and> (e = ''..'' \<longrightarrow> \<not> r \<and> list_all (\<lambda>k. k = ''..'') ks))"

lemma push_elem_kept_ok: "kept_ok r kept \<Longrightarrow> CHR ''/'' \<notin> set e \<Longrightarrow> kept_ok r (push_elem r e kept)"
  by (cases kept) (auto simp: push_elem_def)

lemma push_elem_kept: "kept_ok r (e # kept) \<Longrightarrow> push_elem r e kept = e # kept"
  by (cases kept) (auto simp: push_elem_def)

lemma path_elems_kept_ok: "kept_ok r (rev (path_elems r p))"
proof -
  have "kept_ok r (fold (push_elem r) es [])" if "\<forall>e \<in> set es. CHR ''/'' \<notin> set e" for es
    by (rule fold_invariant_list [where I = "kept_ok r"]) (use that in \<open>simp_all add: push_elem_kept_ok\<close>)
  moreover have "\<forall>e \<in> set (split_char (CHR ''/'') p). CHR ''/'' \<notin> set e"
    by (intro ballI split_char_pieces)
  ultimately show ?thesis unfolding path_elems_def rev_rev_ident by blast
qed

lemma fold_push_kept: "kept_ok r (rev es) \<Longrightarrow> fold (push_elem r) es [] = rev es"
proof (induction es rule: rev_induct)
  case (snoc e es)
  then have "push_elem r e (rev es) = e # rev es" by (intro push_elem_kept) simp
  with snoc show ?case by simp
qed simp

lemma path_elems_join_kept:
  assumes "kept_ok r (rev es)"
  shows "path_elems r (join es ''/'') = es"
proof (cases "es = []")
  case True
  then show ?thesis by (simp add: path_elems_def push_elem_def)
next
  case False
  have "CHR ''/'' \<notin> set e" if "e \<in> set es" for e
  proof -
    have "kept_ok r ks \<Longrightarrow> e \<in> set ks \<Longrightarrow> CHR ''/'' \<notin> set e" for ks by (induction ks) auto
    from this[OF assms] that show ?thesis by simp
  qed
  with False have "split_char (CHR ''/'') (join es ''/'') = es" by (intro split_char_join) auto
  with assms show ?thesis by (simp add: path_elems_def fold_push_kept)
qed

lemma path_elems_slash [simp]: "path_elems r (CHR ''/'' # p) = path_elems r p"
  by (simp add: path_elems_def push_elem_def)

lemma join_rooted: "kept_ok r (rev es) \<Longrightarrow> \<not> is_rooted (join es ''/'')"
proof -
  assume ok: "kept_ok r (rev es)"
  show ?thesis
  proof (cases es)
    case (Cons e es')
    then have "e \<noteq> [] \<and> CHR ''/'' \<notin> set e"
    proof -
      have "kept_ok r ks \<Longrightarrow> e \<in> set ks \<Longrightarrow> e \<noteq> [] \<and> CHR ''/'' \<notin> set e" for ks by (induction ks) auto
      from this[OF ok] Cons show ?thesis by simp
    qed
    then show ?thesis using Cons by (cases e; cases es') (auto simp: is_rooted_def)
  qed (simp add: is_rooted_def)
qed

lemma path_clean_idem [simp]: "path_clean (path_clean p) = path_clean p"
proof (cases "is_rooted p")
  case True
  then show ?thesis
    using path_elems_join_kept[OF path_elems_kept_ok, of True p] by (simp add: path_clean_def is_rooted_def)
next
  case False
  let ?s = "join (path_elems False p) ''/''"
  have "path_elems False ?s = path_elems False p" "\<not> is_rooted ?s"
    by (rule path_elems_join_kept[OF path_elems_kept_ok] join_rooted[OF path_elems_kept_ok])+
  with False show ?thesis
    by (auto simp: path_clean_def Let_def is_rooted_def path_elems_def push_elem_def)
qed

lemma path_elems_clean [simp]: "is_rooted p \<Longrightarrow> path_elems True (path_clean p) = path_elems True p"
  by (simp add: path_clean_def path_elems_join_kept[OF path_elems_kept_ok])

lemma is_rooted_clean [simp]: "is_rooted (path_clean p) = is_rooted p"
proof -
  have "is_rooted (CHR ''/'' # q)" "\<not> is_rooted ''.''" for q by (simp_all add: is_rooted_def)
  with join_rooted[OF path_elems_kept_ok, of False p] show ?thesis
    by (simp add: path_clean_def Let_def del: is_rooted_append)
qed

lemma clean_path_join:
  assumes "valid_name x"
  shows "clean_path (path_join [p, x])"
proof -
  let ?q = "if p = [] then x else p @ ''/'' @ x"
  have x: "x \<noteq> []" using assms by (simp add: valid_name_def)
  then have q: "path_join [p, x] = path_clean ?q" by (simp add: path_join_def)
  have es: "path_elems r ?q = (if p = [] then [] else path_elems r p) @ [x]" for r
    using assms by (simp add: path_elems_snoc path_elems_single)
  have "path_clean ?q \<noteq> ''.''"
  proof (cases "is_rooted ?q")
    case False
    have "join (es @ [x]) ''/'' \<noteq> ''.''" for es
      using assms x by (cases x) (auto simp: join_snoc valid_name_def append_eq_Cons_conv Cons_eq_append_conv)
    moreover have "join (es @ [x]) ''/'' \<noteq> []" for es using x by (simp add: join_snoc)
    ultimately show ?thesis using False unfolding path_clean_def Let_def es by simp
  qed (simp add: path_clean_def)
  then show ?thesis unfolding clean_path_def q by simp
qed

end
