(* ===== verification/Response.thy ===== *)
theory Response
  imports Errx GoValues GoPath
begin

text \<open>
  The two response writers (\<open>response/response.go\<close> and \<open>respx/response.go\<close>), which turn the
  result of a handler into what is sent to the client, and the server interceptor of the RPC side
  (\<open>rpcmiddle/loggerInterceptor.go\<close>). Logging is left out. \<open>errors.Cause\<close>, \<open>status.FromError\<close>
  and \<open>status.Error\<close> belong to other modules and are parameters.
\<close>

section \<open>Errors and values of Go\<close>

text \<open>A non-nil error is a \<open>*errx.CodeError\<close> or a value of a type of another module, given by its
  text and by what its \<open>Unwrap\<close> method returns (no element, one, or several).\<close>

datatype goerr = CodeErr CodeError | Foreign string "goerr list"

fun error_text :: "goerr \<Rightarrow> string" where
  "error_text (CodeErr e) = CodeError_Error e"
| "error_text (Foreign s _) = s"

text \<open>The assertion \<open>err.(*errx.CodeError)\<close>, and \<open>errors.As\<close> for the same type, which searches the
  tree of wrapped errors depth first.\<close>

fun as_CodeError :: "goerr \<Rightarrow> CodeError option" where
  "as_CodeError (CodeErr e) = Some e"
| "as_CodeError (Foreign _ _) = None"

fun errors_As :: "goerr \<Rightarrow> CodeError option" and errors_As_list :: "goerr list \<Rightarrow> CodeError option" where
  "errors_As (CodeErr e) = Some e"
| "errors_As (Foreign _ es) = errors_As_list es"
| "errors_As_list [] = None"
| "errors_As_list (x # es) = (case errors_As x of Some e \<Rightarrow> Some e | None \<Rightarrow> errors_As_list es)"

text \<open>What the code uses of \<open>github.com/pkg/errors\<close> and \<open>google.golang.org/grpc/status\<close>: a
  status is a code and a message; \<open>status_error\<close> is nil for the code 0.\<close>

record errlib =
  cause :: "goerr \<Rightarrow> goerr"
  from_error :: "goerr \<Rightarrow> (uint32 \<times> string) option"
  status_error :: "uint32 \<Rightarrow> string \<Rightarrow> goerr option"

text \<open>The documented behaviour the properties rely on: \<open>Cause\<close> leaves an error without a cause
  alone, \<open>FromError\<close> does not accept a \<open>CodeError\<close> (which has no \<open>GRPCStatus\<close> method), and it
  reads back the code and message of \<open>status.Error\<close>, which is its own cause.\<close>

definition cause_law :: "errlib \<Rightarrow> bool" where
  "cause_law L \<longleftrightarrow> (\<forall>e. cause L (CodeErr e) = CodeErr e)"

definition status_law :: "errlib \<Rightarrow> bool" where
  "status_law L \<longleftrightarrow> (\<forall>c m. c \<noteq> 0 \<longrightarrow> (\<exists>e. status_error L c m = Some e \<and> cause L e = e
     \<and> as_CodeError e = None \<and> from_error L e = Some (c, m)))"

definition isNil :: "goval \<Rightarrow> bool" where
  "isNil v = (case v of VNilPtr _ \<Rightarrow> True | _ \<Rightarrow> False)"

definition getValueIfValid :: "goval option \<Rightarrow> goval" where
  "getValueIfValid v = (case v of Some x \<Rightarrow> x | None \<Rightarrow> VNil)"

definition getStringIfValid :: "goval option \<Rightarrow> string \<Rightarrow> string" where
  "getStringIfValid v defaultVal = (case v of Some (VString s) \<Rightarrow> s | _ \<Rightarrow> defaultVal)"

section \<open>response\<close>

record Body =
  Code :: uint32
  Msg :: string
  Data :: goval

datatype reply = Sent Body | ReplyPanic

definition default_msg :: string where
  "default_msg = encode [26381, 21153, 22120, 24320, 23567, 24046, 21862, 65292, 31245, 21518, 20877, 26469,
    35797, 19968, 35797]"

definition ok_msg :: string where
  "ok_msg = encode [35831, 27714, 25104, 21151, 33]"

definition has_duplicate :: "gotext \<Rightarrow> goerr \<Rightarrow> bool" where
  "has_duplicate T err = contains (to_lower T (error_text err)) ''duplicate''"

definition parseError :: "gotext \<Rightarrow> errlib \<Rightarrow> goerr \<Rightarrow> uint32 \<times> string" where
  "parseError T L err =
     (let causeErr = cause L err in
      case as_CodeError causeErr of
        Some e \<Rightarrow>
          (let errcode = GetErrCode e in
           if errcode = ErrReq then (GetErrCode e, GetErrMsg e) else (errcode, MapErrMsg errcode))
      | None \<Rightarrow>
          (case from_error L causeErr of
             Some (grpcCode, smsg) \<Rightarrow>
               if IsCodeErr grpcCode then
                 (if grpcCode = NoData \<or> grpcCode = Success \<or> grpcCode = ErrReq then (grpcCode, smsg)
                  else if has_duplicate T err then (Duplicate, MapErrMsg Duplicate)
                  else (ServerCommonError, MapErrMsg grpcCode))
               else (ServerCommonError, default_msg)
           | None \<Rightarrow> (ServerCommonError, error_text err)))"

text \<open>\<open>reflect.TypeOf(nil)\<close> is a nil \<open>Type\<close>, whose \<open>String\<close> method panics.\<close>

definition Response :: "gotext \<Rightarrow> errlib \<Rightarrow> goval \<Rightarrow> goerr option \<Rightarrow> reply" where
  "Response T L resp err =
     (case err of
        Some e \<Rightarrow> (let (c, m) = parseError T L e in Sent \<lparr>Code = c, Msg = m, Data = VNil\<rparr>)
      | None \<Rightarrow>
          (case type_string resp of
             None \<Rightarrow> ReplyPanic
           | Some t \<Rightarrow>
               if t = ''*types.CommonResponse'' then
                 (case resp of
                    VPtr (VStruct _ fs) \<Rightarrow>
                      Sent \<lparr>Code = 0, Msg = getStringIfValid (FieldByName fs ''Msg'') ok_msg,
                        Data = getValueIfValid (FieldByName fs ''Data'')\<rparr>
                  | _ \<Rightarrow> Sent \<lparr>Code = 0, Msg = ok_msg, Data = resp\<rparr>)
               else Sent \<lparr>Code = 0, Msg = ok_msg, Data = resp\<rparr>))"

section \<open>respx\<close>

definition respx_parseError :: "gotext \<Rightarrow> errlib \<Rightarrow> goerr \<Rightarrow> uint32 \<times> string" where
  "respx_parseError T L err =
     (let causeErr = cause L err in
      case errors_As causeErr of
        Some e \<Rightarrow>
          (let errcode = GetErrCode e in
           if errcode = ErrReq then (GetErrCode e, GetErrMsg e) else (errcode, MapErrMsg errcode))
      | None \<Rightarrow>
          (let dup = (\<lambda>errmsg. if has_duplicate T err then (Duplicate, MapErrMsg Duplicate)
                      else (ServerCommonError, errmsg)) in
           case from_error L causeErr of
             Some (grpcCode, smsg) \<Rightarrow>
               if IsCodeErr grpcCode then
                 (if grpcCode = NoData \<or> grpcCode = Success \<or> grpcCode = ErrReq then (grpcCode, smsg)
                  else dup (MapErrMsg grpcCode))
               else dup default_msg
           | None \<Rightarrow> dup (error_text err)))"

record FileResponse =
  Filename :: string
  Mime :: string
  Content :: string
  Inline :: bool

text \<open>The response value is a non-nil \<open>*FileResponse\<close> or any other value. What is written: the JSON
  of an error (built by \<open>errz.New\<close>), a file with its headers, or the JSON of the value.\<close>

datatype respx_value = FilePtr FileResponse | Plain goval

datatype respx_reply =
    JsonError int string
  | FileReply "(string \<times> string) list" string
  | JsonValue goval

definition file_reply :: "(string \<Rightarrow> string) \<Rightarrow> FileResponse \<Rightarrow> respx_reply" where
  "file_reply TypeByExtension f =
     (let fmime = (if Mime f = [] then
                     (let m = TypeByExtension (path_ext (Filename f)) in
                      if m = [] then ''application/octet-stream'' else m)
                   else Mime f);
          dispositionType = (if Inline f then ''inline'' else ''attachment'')
      in FileReply
           [(''Content-Type'', fmime),
            (''Content-Disposition'', dispositionType @ ''; filename='' @ [char_of (34 :: nat)]
               @ Filename f @ [char_of (34 :: nat)]),
            (''Cache-Control'', ''no-store''),
            (''Pragma'', ''no-cache'')]
           (Content f))"

definition respx_Response ::
  "gotext \<Rightarrow> errlib \<Rightarrow> (string \<Rightarrow> string) \<Rightarrow> respx_value \<Rightarrow> goerr option \<Rightarrow> respx_reply" where
  "respx_Response T L TypeByExtension resp err =
     (case err of
        Some e \<Rightarrow> (let (c, m) = respx_parseError T L e in JsonError (uint c) m)
      | None \<Rightarrow> (case resp of FilePtr f \<Rightarrow> file_reply TypeByExtension f | Plain v \<Rightarrow> JsonValue v))"

section \<open>rpcmiddle\<close>

text \<open>The handler runs first; its error, when its cause is a \<open>CodeError\<close>, becomes a status.\<close>

definition LoggerInterceptor ::
  "errlib \<Rightarrow> ('req \<Rightarrow> 'resp \<times> goerr option) \<Rightarrow> 'req \<Rightarrow> 'resp \<times> goerr option" where
  "LoggerInterceptor L handler req =
     (let (resp, err) = handler req in
      case err of
        None \<Rightarrow> (resp, None)
      | Some x \<Rightarrow>
          (case as_CodeError (cause L x) of
             Some e \<Rightarrow> (resp, status_error L (GetErrCode e) (GetErrMsg e))
           | None \<Rightarrow> (resp, err)))"

section \<open>Lemmas\<close>

lemma as_imp_errors_As: "as_CodeError x = Some e \<Longrightarrow> errors_As x = Some e"
  by (cases x) simp_all

lemma parse_CodeErr:
  "as_CodeError (cause L err) = Some e \<Longrightarrow>
   parseError T L err = (errCode e, if errCode e = ErrReq then errMsg e else MapErrMsg (errCode e))"
  by (simp add: parseError_def Let_def GetErrCode_def GetErrMsg_def)

lemma parse_status:
  "as_CodeError (cause L err) = None \<Longrightarrow> from_error L (cause L err) = Some (c, m) \<Longrightarrow>
   parseError T L err =
     (if c = NoData \<or> c = ErrReq then (c, m)
      else if IsCodeErr c \<and> has_duplicate T err then (Duplicate, MapErrMsg Duplicate)
      else (ServerCommonError, if IsCodeErr c then MapErrMsg c else default_msg))"
proof -
  have "IsCodeErr NoData" "IsCodeErr ErrReq" by (simp_all add: IsCodeErr_iff dom_message)
  moreover have "Success \<noteq> NoData" "Success \<noteq> ErrReq" by (simp_all add: errx_codes)
  moreover assume "as_CodeError (cause L err) = None" "from_error L (cause L err) = Some (c, m)"
  ultimately show ?thesis
    by (cases "c = Success") (auto simp: parseError_def Let_def)
qed

text \<open>A concrete library for the witnesses: no wrapping, and statuses carried in the text.\<close>

definition plain_lib :: errlib where
  "plain_lib = \<lparr>cause = id,
     from_error = (\<lambda>e. case e of Foreign m [CodeErr c] \<Rightarrow> Some (errCode c, errMsg c) | _ \<Rightarrow> None),
     status_error = (\<lambda>c m. Some (Foreign m [CodeErr \<lparr>errCode = c, errMsg = m\<rparr>]))\<rparr>"

lemma plain_lib_ok [simp]: "cause_law plain_lib" "status_law plain_lib"
  by (simp_all add: cause_law_def status_law_def plain_lib_def)

section \<open>Properties\<close>



text \<open>The two writers parse an error to the same code and text, except when \<open>errors.As\<close> finds a
  \<open>CodeError\<close> below the cause, or when the text of the error says duplicate.\<close>

theorem parseError_respx_agree:
  assumes "errors_As (cause L err) = as_CodeError (cause L err)"
    and "\<not> has_duplicate T err \<or> as_CodeError (cause L err) \<noteq> None"
  shows "respx_parseError T L err = parseError T L err"
  using assms
  by (auto simp: respx_parseError_def parseError_def Let_def split: option.splits prod.splits)

theorem parseError_respx_agree_witness:
  "respx_parseError ascii_tables plain_lib (Foreign ''boom'' []) = (ServerCommonError, ''boom'')"
  using parseError_respx_agree [of plain_lib "Foreign ''boom'' []" ascii_tables]
  by (simp add: plain_lib_def parseError_def has_duplicate_def to_lower_ascii contains_def
      has_prefix_def down_char_def byte_in_def go_eval)

text \<open>A \<open>CodeError\<close> that crosses an RPC loses its code: answered locally it is its own code with
  the text of the code; through the interceptor and the client side of the RPC, the code is
  \<open>ServerCommonError\<close> for every code but \<open>NoData\<close> and \<open>ErrReq\<close> (unless the text says
  duplicate), and for an unregistered code the text is the default one.\<close>

theorem rpc_loses_code:
  assumes "cause_law L" "status_law L" "handler req = (resp, Some (CodeErr e))"
    and "errCode e \<noteq> 0" "errCode e \<noteq> NoData" "errCode e \<noteq> ErrReq"
  shows "\<exists>x. LoggerInterceptor L handler req = (resp, Some x)
    \<and> parseError T L (CodeErr e) = (errCode e, MapErrMsg (errCode e))
    \<and> (\<not> has_duplicate T x \<longrightarrow> parseError T L x
         = (ServerCommonError, if IsCodeErr (errCode e) then MapErrMsg (errCode e) else default_msg))"
proof -
  from assms(2,4) obtain x where x: "status_error L (errCode e) (errMsg e) = Some x" "cause L x = x"
    "as_CodeError x = None" "from_error L x = Some (errCode e, errMsg e)"
    unfolding status_law_def by blast
  have "LoggerInterceptor L handler req = (resp, Some x)"
    using assms(1,3) x(1) by (simp add: LoggerInterceptor_def cause_law_def GetErrCode_def GetErrMsg_def)
  moreover have "parseError T L (CodeErr e) = (errCode e, MapErrMsg (errCode e))"
    using assms(1,6) by (simp add: parse_CodeErr cause_law_def)
  ultimately show ?thesis
    using x assms(5,6) by (simp add: parse_status)
qed

theorem rpc_loses_code_witness:
  "\<exists>x. LoggerInterceptor plain_lib (\<lambda>_. ((), Some (CodeErr (NewErrCode ErrAuth)))) () = ((), Some x)
    \<and> parseError ascii_tables plain_lib (CodeErr (NewErrCode ErrAuth)) = (ErrAuth, MapErrMsg ErrAuth)"
proof -
  have "NewErrCode ErrAuth = \<lparr>errCode = ErrAuth, errMsg = MapErrMsg ErrAuth\<rparr>"
    by (simp add: NewErrCode_def)
  then show ?thesis
    using rpc_loses_code [of plain_lib "\<lambda>_. ((), Some (CodeErr (NewErrCode ErrAuth)))" "()" "()"
        "NewErrCode ErrAuth" ascii_tables]
    by (auto simp: errx_codes)
qed

text \<open>A handler that returns neither a value nor an error: \<open>response.Response\<close> panics on the
  reflection of the nil value, and it does so in no other case, while \<open>respx.Response\<close> writes the
  nil value.\<close>

theorem Response_panics_iff:
  "(Response T L resp err = ReplyPanic \<longleftrightarrow> err = None \<and> type_string resp = None)
   \<and> respx_Response T L tbe (Plain VNil) None = JsonValue VNil
   \<and> Response T L VNil None = ReplyPanic"
  by (auto simp: Response_def respx_Response_def Let_def split: option.splits prod.splits goval.splits)

end
