(* ===== verification/Condition.thy ===== *)
theory Condition
  imports GoValues
begin

text \<open>
  The package \<open>condition\<close> (\<open>condition/condition.go\<close>): a list of conditions evaluated against the
  flds of a struct, from left to right. A failed type assertion on the value of a condition is
  the result \<open>None\<close>, a panic. Integers are \<open>int64\<close> and compared as signed numbers.
\<close>

section \<open>Model\<close>

record Condition =
  Field :: string
  Operator :: string
  Value :: goval
  Logic :: string

record Req =
  Conditions :: "Condition list"

definition compareString :: "string \<Rightarrow> string \<Rightarrow> string \<Rightarrow> bool" where
  "compareString a oper b =
     (if oper = ''='' then a = b else if oper = ''!='' then a \<noteq> b else False)"

definition compareInt :: "int64 \<Rightarrow> string \<Rightarrow> int64 \<Rightarrow> bool" where
  "compareInt a oper b =
     (if oper = ''='' then a = b
      else if oper = ''!='' then a \<noteq> b
      else if oper = ''<'' then sint a < sint b
      else if oper = ''<='' then sint a \<le> sint b
      else if oper = ''>'' then sint a > sint b
      else if oper = ''>='' then sint a \<ge> sint b
      else False)"

text \<open>One condition against the fields of the struct: skipped (no such field, or a number that does
  not parse), matched or not, or a panic of \<open>cond.Value.(string)\<close>.\<close>

datatype outcome = Skipped | Matched bool | Panicked

definition match_condition :: "gofield list \<Rightarrow> Condition \<Rightarrow> outcome" where
  "match_condition flds cond =
     (case FieldByName flds (Field cond) of
        None \<Rightarrow> Skipped
      | Some (VString s) \<Rightarrow>
          (case Value cond of VString v \<Rightarrow> Matched (compareString s (Operator cond) v) | _ \<Rightarrow> Panicked)
      | Some (VInt _ i) \<Rightarrow>
          (case Value cond of
             VString v \<Rightarrow>
               (case parse_int64 v of
                  None \<Rightarrow> Skipped
                | Some condVal \<Rightarrow> Matched (compareInt i (Operator cond) condVal))
           | _ \<Rightarrow> Panicked)
      | Some _ \<Rightarrow> Matched False)"

fun evaluate_loop :: "gofield list \<Rightarrow> Condition list \<Rightarrow> bool \<Rightarrow> bool option" where
  "evaluate_loop flds [] result = Some result"
| "evaluate_loop flds (cond # cs) result =
     (case match_condition flds cond of
        Panicked \<Rightarrow> None
      | Skipped \<Rightarrow> evaluate_loop flds cs result
      | Matched m \<Rightarrow>
          if Logic cond = ''AND'' then
            (let result = (result \<and> m) in if \<not> result then Some result else evaluate_loop flds cs result)
          else if Logic cond = ''OR'' then
            (let result = (result \<or> m) in if result then Some result else evaluate_loop flds cs result)
          else evaluate_loop flds cs m)"

text \<open>\<open>link\<close> is given by the fields of the struct it points to.\<close>

definition EvaluateCondition :: "gofield list \<Rightarrow> Condition list \<Rightarrow> bool option" where
  "EvaluateCondition flds conditions = evaluate_loop flds conditions True"

section \<open>Lemmas\<close>

lemma evaluate_and:
  "list_all (\<lambda>c. Logic c = ''AND'' \<and> match_condition flds c \<noteq> Panicked) cs
   \<Longrightarrow> evaluate_loop flds cs True
       = Some (list_all (\<lambda>c. match_condition flds c \<noteq> Matched False) cs)"
  by (induction cs) (auto split: outcome.splits)

lemma evaluate_skipped_prefix:
  "list_all (\<lambda>c. match_condition flds c = Skipped) ps
   \<Longrightarrow> evaluate_loop flds (ps @ cs) r = evaluate_loop flds cs r"
  by (induction ps) auto

lemma match_string_value:
  "Value c = VString v \<Longrightarrow> match_condition flds c \<noteq> Panicked"
  by (auto simp: match_condition_def split: option.splits goval.splits)

section \<open>Properties\<close>

text \<open>C13. When every condition is linked by \<open>AND\<close> and every value is a string, the call returns, and
  it returns true exactly when no condition that applies fails: a missing field or a number that
  does not parse never makes the answer false.\<close>

theorem EvaluateCondition_and:
  assumes "list_all (\<lambda>c. Logic c = ''AND'' \<and> (\<exists>v. Value c = VString v)) cs"
  shows "EvaluateCondition flds cs
       = Some (list_all (\<lambda>c. match_condition flds c \<noteq> Matched False) cs)"
proof -
  have "list_all (\<lambda>c. Logic c = ''AND'' \<and> match_condition flds c \<noteq> Panicked) cs"
    using assms match_string_value unfolding list_all_iff by blast
  then show ?thesis by (simp add: EvaluateCondition_def evaluate_and)
qed

theorem EvaluateCondition_and_witness:
  "EvaluateCondition [GoField ''Name'' [] (VString ''a''), GoField ''Age'' [] (VInt ''int'' 7)]
     [\<lparr>Field = ''Name'', Operator = ''='', Value = VString ''a'', Logic = ''AND''\<rparr>,
      \<lparr>Field = ''Age'', Operator = ''<'', Value = VString ''5'', Logic = ''AND''\<rparr>] = Some False"
  by (subst EvaluateCondition_and)
     (simp_all add: match_condition_def FieldByName_def compareString_def compareInt_def
       parse_int64_def parse_digits_def is_digit_def digits_val_def)

text \<open>The result starts as true, so the first condition that applies decides alone when it is
  linked by \<open>OR\<close>: the call returns true whether or not that condition or any later one matches.\<close>

theorem EvaluateCondition_or_first:
  assumes "list_all (\<lambda>c. match_condition flds c = Skipped) ps"
    and "match_condition flds c = Matched m" "Logic c = ''OR''"
  shows "EvaluateCondition flds (ps @ c # cs) = Some True"
  using assms by (simp add: EvaluateCondition_def evaluate_skipped_prefix)

theorem EvaluateCondition_or_first_witness:
  "EvaluateCondition [GoField ''Name'' [] (VString ''a'')]
     ([] @ \<lparr>Field = ''Name'', Operator = ''='', Value = VString ''b'', Logic = ''OR''\<rparr> #
       [\<lparr>Field = ''Name'', Operator = ''='', Value = VString ''c'', Logic = ''OR''\<rparr>]) = Some True"
  by (rule EvaluateCondition_or_first [of _ "[]" _ False])
     (simp_all add: match_condition_def FieldByName_def compareString_def)

end
