(* ===== verification/Converter.thy ===== *)
theory Converter
  imports GoValues
begin

text \<open>
  The package \<open>converter\<close> (\<open>converter/converter.go\<close>): from the column types of MySQL to the types
  of Go. The integer constants of \<open>github.com/zeromicro/ddl-parser/parser\<close> are a parameter: \<open>P\<close>
  gives the number of each constant, of which the properties use that they differ.
\<close>

section \<open>Model\<close>

datatype parser_type =
    TBit | TTinyInt | TSmallInt | TMediumInt | TInt | TMiddleInt | TInt1 | TInt2 | TInt3 | TInt4 | TInt8 | TInteger |
    TBigInt | TFloat | TFloat4 | TFloat8 | TDouble | TDecimal | TDec | TFixed | TNumeric | TReal | TDate | TDateTime |
    TTimestamp | TTime | TYear | TChar | TVarChar | TNVarChar | TNChar | TCharacter | TLongVarChar | TLineString |
    TMultiLineString | TBinary | TVarBinary | TTinyText | TText | TMediumText | TLongText | TEnum | TSet | TJson |
    TBlob | TLongBlob | TMediumBlob | TTinyBlob | TBool | TBoolean

definition commonMysqlDataTypeList :: "(parser_type \<times> string) list" where
  "commonMysqlDataTypeList = [
     (TBit, ''byte''), (TTinyInt, ''int64''), (TSmallInt, ''int64''), (TMediumInt, ''int64''),
     (TInt, ''int64''), (TMiddleInt, ''int64''), (TInt1, ''int64''), (TInt2, ''int64''),
     (TInt3, ''int64''), (TInt4, ''int64''), (TInt8, ''int64''), (TInteger, ''int64''),
     (TBigInt, ''int64''), (TFloat, ''float64''), (TFloat4, ''float64''), (TFloat8, ''float64''),
     (TDouble, ''float64''), (TDecimal, ''float64''), (TDec, ''float64''), (TFixed, ''float64''),
     (TNumeric, ''float64''), (TReal, ''float64''), (TDate, ''time.Time''),
     (TDateTime, ''time.Time''), (TTimestamp, ''time.Time''), (TTime, ''string''),
     (TYear, ''int64''), (TChar, ''string''), (TVarChar, ''string''), (TNVarChar, ''string''),
     (TNChar, ''string''), (TCharacter, ''string''), (TLongVarChar, ''string''),
     (TLineString, ''string''), (TMultiLineString, ''string''), (TBinary, ''string''),
     (TVarBinary, ''string''), (TTinyText, ''string''), (TText, ''string''),
     (TMediumText, ''string''), (TLongText, ''string''), (TEnum, ''string''), (TSet, ''string''),
     (TJson, ''string''), (TBlob, ''string''), (TLongBlob, ''string''),
     (TMediumBlob, ''string''), (TTinyBlob, ''string''), (TBool, ''bool''), (TBoolean, ''bool'')]"

definition commonMysqlDataTypeMapInt :: "(parser_type \<Rightarrow> int) \<Rightarrow> int \<rightharpoonup> string" where
  "commonMysqlDataTypeMapInt P n = map_of (map (\<lambda>(c, t). (P c, t)) commonMysqlDataTypeList) n"

definition commonMysqlDataTypeMapString :: "string \<rightharpoonup> string" where
  "commonMysqlDataTypeMapString = map_of [
     (''bool'', ''bool''), (''boolean'', ''bool''),
     (''tinyint'', ''int64''), (''smallint'', ''int64''),
     (''mediumint'', ''int64''), (''int'', ''int64''),
     (''int1'', ''int64''), (''int2'', ''int64''), (''int3'', ''int64''),
     (''int4'', ''int64''), (''int8'', ''int64''), (''integer'', ''int64''),
     (''bigint'', ''int64''), (''float'', ''float64''),
     (''float4'', ''float64''), (''float8'', ''float64''),
     (''double'', ''float64''), (''decimal'', ''float64''),
     (''dec'', ''float64''), (''fixed'', ''float64''),
     (''real'', ''float64''), (''bit'', ''byte''),
     (''date'', ''time.Time''), (''datetime'', ''time.Time''),
     (''timestamp'', ''time.Time''), (''time'', ''string''),
     (''year'', ''int64''), (''linestring'', ''string''),
     (''multilinestring'', ''string''), (''nvarchar'', ''string''),
     (''nchar'', ''string''), (''char'', ''string''),
     (''character'', ''string''), (''varchar'', ''string''),
     (''binary'', ''string''), (''bytea'', ''string''),
     (''longvarbinary'', ''string''), (''varbinary'', ''string''),
     (''tinytext'', ''string''), (''text'', ''string''),
     (''mediumtext'', ''string''), (''longtext'', ''string''),
     (''enum'', ''string''), (''set'', ''string''), (''json'', ''string''),
     (''jsonb'', ''string''), (''blob'', ''string''),
     (''longblob'', ''string''), (''mediumblob'', ''string''),
     (''tinyblob'', ''string'')]"

definition mayConvertNullType :: "string \<Rightarrow> bool \<Rightarrow> string" where
  "mayConvertNullType goDataType isDefaultNull =
     (if \<not> isDefaultNull then goDataType
      else if goDataType = ''int64'' then ''sql.NullInt64''
      else if goDataType = ''int32'' then ''sql.NullInt32''
      else if goDataType = ''float64'' then ''sql.NullFloat64''
      else if goDataType = ''bool'' then ''sql.NullBool''
      else if goDataType = ''string'' then ''sql.NullString''
      else if goDataType = ''time.Time'' then ''sql.NullTime''
      else goDataType)"

datatype convert_error = UnsupportedInt int | UnsupportedString string

definition ConvertDataType :: "(parser_type \<Rightarrow> int) \<Rightarrow> int \<Rightarrow> bool \<Rightarrow> convert_error + string" where
  "ConvertDataType P dataBaseType isDefaultNull =
     (case commonMysqlDataTypeMapInt P dataBaseType of
        None \<Rightarrow> Inl (UnsupportedInt dataBaseType)
      | Some tp \<Rightarrow> Inr (mayConvertNullType tp isDefaultNull))"

definition ConvertStringDataType :: "gotext \<Rightarrow> string \<Rightarrow> bool \<Rightarrow> convert_error + string" where
  "ConvertStringDataType T dataBaseType isDefaultNull =
     (case commonMysqlDataTypeMapString (to_lower T dataBaseType) of
        None \<Rightarrow> Inl (UnsupportedString dataBaseType)
      | Some tp \<Rightarrow> Inr (mayConvertNullType tp isDefaultNull))"

text \<open>The name of a type is its type string without the package; a pointer type has none. A nil
  interface has no type, and the call panics.\<close>

definition type_name :: "goval \<Rightarrow> string option" where
  "type_name v = (case v of VPtr _ \<Rightarrow> Some [] | VNilPtr _ \<Rightarrow> Some []
     | _ \<Rightarrow> map_option (\<lambda>t. rev (takeWhile (\<lambda>c. c \<noteq> CHR ''.'') (rev t))) (type_string v))"

definition ConvertDefault :: "goval \<Rightarrow> string option" where
  "ConvertDefault c =
     (case type_name c of
        None \<Rightarrow> None
      | Some n \<Rightarrow>
          if n = ''NullString'' then
            (case c of
               VStruct _ fs \<Rightarrow> Some (value_string (case FieldByName fs ''String'' of Some v \<Rightarrow> v | None \<Rightarrow> VNil))
             | _ \<Rightarrow> None)
          else Some [])"

section \<open>Lemmas\<close>

text \<open>The lower-case name of every constant, the spelling of the string table.\<close>

definition type_words :: "(parser_type \<times> string) list" where
  "type_words = [
     (TBit, ''bit''), (TTinyInt, ''tinyint''), (TSmallInt, ''smallint''),
     (TMediumInt, ''mediumint''), (TInt, ''int''), (TMiddleInt, ''middleint''),
     (TInt1, ''int1''), (TInt2, ''int2''), (TInt3, ''int3''), (TInt4, ''int4''),
     (TInt8, ''int8''), (TInteger, ''integer''), (TBigInt, ''bigint''), (TFloat, ''float''),
     (TFloat4, ''float4''), (TFloat8, ''float8''), (TDouble, ''double''),
     (TDecimal, ''decimal''), (TDec, ''dec''), (TFixed, ''fixed''), (TNumeric, ''numeric''),
     (TReal, ''real''), (TDate, ''date''), (TDateTime, ''datetime''),
     (TTimestamp, ''timestamp''), (TTime, ''time''), (TYear, ''year''), (TChar, ''char''),
     (TVarChar, ''varchar''), (TNVarChar, ''nvarchar''), (TNChar, ''nchar''),
     (TCharacter, ''character''), (TLongVarChar, ''longvarchar''), (TLineString, ''linestring''),
     (TMultiLineString, ''multilinestring''), (TBinary, ''binary''), (TVarBinary, ''varbinary''),
     (TTinyText, ''tinytext''), (TText, ''text''), (TMediumText, ''mediumtext''),
     (TLongText, ''longtext''), (TEnum, ''enum''), (TSet, ''set''), (TJson, ''json''),
     (TBlob, ''blob''), (TLongBlob, ''longblob''), (TMediumBlob, ''mediumblob''),
     (TTinyBlob, ''tinyblob''), (TBool, ''bool''), (TBoolean, ''boolean'')]"

definition word_of :: "parser_type \<Rightarrow> string" where
  "word_of c = (case map_of type_words c of Some w \<Rightarrow> w | None \<Rightarrow> [])"

lemma map_of_map_inj:
  "inj P \<Longrightarrow> map_of (map (\<lambda>(c, t). (P c, t)) xs) (P c) = map_of xs c"
  by (induction xs) (auto dest: injD)

lemma int_table: "inj P \<Longrightarrow> commonMysqlDataTypeMapInt P (P c) = map_of commonMysqlDataTypeList c"
  by (simp add: commonMysqlDataTypeMapInt_def map_of_map_inj)

lemmas tables = commonMysqlDataTypeList_def commonMysqlDataTypeMapString_def type_words_def word_of_def

lemma tables_agree_list:
  "list_all (\<lambda>(c, w). commonMysqlDataTypeMapString w
     = (if c \<in> {TMiddleInt, TNumeric, TLongVarChar} then None else map_of commonMysqlDataTypeList c)) type_words"
  by code_simp

text \<open>What one entry of the integer table says about null.\<close>

definition entry_ok :: "parser_type \<Rightarrow> string \<Rightarrow> bool" where
  "entry_ok c t \<longleftrightarrow> \<not> has_prefix t ''sql.Null'' \<and> (c = TBit \<longrightarrow> t = ''byte'')
     \<and> (has_prefix (mayConvertNullType t True) ''sql.Null'' \<longleftrightarrow> c \<noteq> TBit)
     \<and> (c = TBit \<longrightarrow> mayConvertNullType t True = ''byte'')"

lemma int_table_list:
  "list_all (\<lambda>(c, w). case map_of commonMysqlDataTypeList c of None \<Rightarrow> False | Some t \<Rightarrow> entry_ok c t) type_words"
  by code_simp

lemma type_words_total: "\<exists>w. map_of type_words c = Some w"
  by (cases c) (simp_all add: type_words_def)

lemma word_of_in: "(c, word_of c) \<in> set type_words"
  using type_words_total [of c] by (auto simp: word_of_def map_of_SomeD)

lemma tables_agree:
  "commonMysqlDataTypeMapString (word_of c)
   = (if c \<in> {TMiddleInt, TNumeric, TLongVarChar} then None else map_of commonMysqlDataTypeList c)"
  using tables_agree_list word_of_in [of c] unfolding list_all_iff by blast

lemma int_table_total: "\<exists>t. map_of commonMysqlDataTypeList c = Some t \<and> entry_ok c t"
  using int_table_list word_of_in [of c] unfolding list_all_iff by (fastforce split: option.splits)

section \<open>Properties\<close>

text \<open>Both conversions know the fifty types of the parser alike: a type name in any letter case
  converts to what its constant converts to, with or without null. The three exceptions are
  \<open>middleint\<close>, \<open>numeric\<close> and \<open>longvarchar\<close>, which the conversion by name rejects.\<close>

theorem conversions_agree:
  assumes "inj P" "to_lower T name = word_of c"
  shows "(c \<notin> {TMiddleInt, TNumeric, TLongVarChar} \<longrightarrow>
           ConvertStringDataType T name null = ConvertDataType P (P c) null)
       \<and> (c \<in> {TMiddleInt, TNumeric, TLongVarChar} \<longrightarrow>
           ConvertStringDataType T name null = Inl (UnsupportedString name))
       \<and> (\<exists>t. ConvertDataType P (P c) null = Inr t)"
proof -
  obtain t where t: "map_of commonMysqlDataTypeList c = Some t" using int_table_total by blast
  show ?thesis
    using assms t unfolding ConvertStringDataType_def ConvertDataType_def
    by (auto simp: tables_agree int_table)
qed

definition number_types :: "parser_type \<Rightarrow> int" where
  "number_types c = int (length (takeWhile (\<lambda>e. fst e \<noteq> c) type_words))"

lemma inj_number_types: "inj number_types"
proof (rule injI)
  fix c d assume eq: "number_types c = number_types d"
  have at: "fst (type_words ! nat (number_types x)) = x" for x
  proof -
    have "\<exists>e \<in> set type_words. \<not> fst e \<noteq> x"
      by (rule bexI [OF _ word_of_in [of x]]) simp
    from nth_length_takeWhile [OF takeWhile_shorter [OF this]]
    show ?thesis unfolding number_types_def nat_int by blast
  qed
  have "c = fst (type_words ! nat (number_types c))" by (rule at [symmetric])
  also have "\<dots> = d" unfolding eq by (rule at)
  finally show "c = d" .
qed

theorem conversions_agree_witness:
  "ConvertStringDataType ascii_tables ''VarChar'' True = ConvertDataType number_types (number_types TVarChar) True"
proof -
  have "to_lower ascii_tables ''VarChar'' = word_of TVarChar"
    by (simp add: to_lower_ascii down_char_def byte_in_def word_of_def type_words_def go_eval)
  from conversions_agree [OF inj_number_types this, of True] show ?thesis by simp
qed

text \<open>Nullability is not lost: a nullable column of any type of the parser becomes one of the
  \<open>sql.Null\<close> types, except a bit column, which stays a \<open>byte\<close>; a column that is not nullable
  never does.\<close>

theorem convert_null_types:
  assumes "inj P"
  shows "\<exists>t. ConvertDataType P (P c) null = Inr t
       \<and> (has_prefix t ''sql.Null'' \<longleftrightarrow> null \<and> c \<noteq> TBit) \<and> (c = TBit \<longrightarrow> t = ''byte'')"
proof -
  obtain t where "map_of commonMysqlDataTypeList c = Some t" "entry_ok c t"
    using int_table_total by blast
  then show ?thesis
    using assms by (cases null) (auto simp: ConvertDataType_def int_table entry_ok_def mayConvertNullType_def [of _ False])
qed

theorem convert_null_types_witness:
  "ConvertDataType number_types (number_types TBit) True = Inr ''byte''"
  using convert_null_types [OF inj_number_types, of TBit True] by auto

end
