(* ===== verification/Transition.thy ===== *)
theory Transition
  imports GoPrelude
begin

text \<open>
  Programs that react to events: the states reachable from the initial ones, and the interface
  that an invariant of such a program has to meet. The components that run as state machines
  interpret \<open>step_invariant\<close>.
\<close>

inductive reach :: "('s \<Rightarrow> bool) \<Rightarrow> ('s \<Rightarrow> 'e \<Rightarrow> 's \<Rightarrow> bool) \<Rightarrow> 's \<Rightarrow> bool"
  for init step where
  reach_init: "init s \<Longrightarrow> reach init step s"
| reach_step: "reach init step s \<Longrightarrow> step s e s' \<Longrightarrow> reach init step s'"

locale step_invariant =
  fixes init :: "'s \<Rightarrow> bool" and step :: "'s \<Rightarrow> 'e \<Rightarrow> 's \<Rightarrow> bool" and inv :: "'s \<Rightarrow> bool"
  assumes init_inv: "init s \<Longrightarrow> inv s"
    and step_inv: "inv s \<Longrightarrow> step s e s' \<Longrightarrow> inv s'"
begin

lemma reach_inv: "reach init step s \<Longrightarrow> inv s"
  by (induction rule: reach.induct) (auto intro: init_inv step_inv)

end

text \<open>Runs from a given state, and a property that no step of a run can lose once it holds.\<close>

inductive steps :: "('s \<Rightarrow> 'e \<Rightarrow> 's \<Rightarrow> bool) \<Rightarrow> 's \<Rightarrow> 's \<Rightarrow> bool" for step where
  steps_refl: "steps step s s"
| steps_more: "steps step s t \<Longrightarrow> step t e u \<Longrightarrow> steps step s u"

lemma steps_trans: "steps st b c \<Longrightarrow> steps st a b \<Longrightarrow> steps st a c"
  by (induction rule: steps.induct) (auto intro: steps_more)

lemma steps_first: "st a e b \<Longrightarrow> steps st b c \<Longrightarrow> steps st a c"
  by (rule steps_trans) (auto intro: steps_more steps_refl)

locale stable_property = step_invariant +
  fixes keep :: "'a \<Rightarrow> bool"
  assumes keep_step: "inv s \<Longrightarrow> keep s \<Longrightarrow> step s e s' \<Longrightarrow> keep s'"
begin

lemma steps_keep: "steps step s t \<Longrightarrow> inv s \<Longrightarrow> keep s \<Longrightarrow> inv t \<and> keep t"
  by (induction rule: steps.induct) (auto intro: step_inv keep_step)

lemma reach_keep: "reach init step s \<Longrightarrow> keep s \<Longrightarrow> steps step s t \<Longrightarrow> keep t"
  using steps_keep reach_inv by blast

end

text \<open>Programs whose runs end: every step uses up some of the work that is left. A state without a step is final.\<close>

definition final :: "('s \<Rightarrow> 'e \<Rightarrow> 's \<Rightarrow> bool) \<Rightarrow> 's \<Rightarrow> bool" where
  "final step s \<longleftrightarrow> (\<forall>e s'. \<not> step s e s')"

locale ending = step_invariant +
  fixes work :: "'a \<Rightarrow> nat"
  assumes work_step: "inv s \<Longrightarrow> step s e s' \<Longrightarrow> work s' < work s"
begin

lemma run_ends: "inv s \<Longrightarrow> \<exists>t. steps step s t \<and> inv t \<and> final step t"
proof (induction "work s" arbitrary: s rule: less_induct)
  case less
  show ?case
  proof (cases "final step s")
    case True
    then show ?thesis using less.prems by (intro exI[of _ s]) (simp add: steps_refl)
  next
    case False
    then obtain e s' where st: "step s e s'" by (auto simp: final_def)
    obtain t where t: "steps step s' t" "inv t" "final step t"
      using less.hyps[OF work_step[OF less.prems st] step_inv[OF less.prems st]] by auto
    have "steps step s t" by (rule steps_first[where st = step, OF st t(1)])
    then show ?thesis using t(2,3) by auto
  qed
qed

end

end
