(* ===== verification/Websocket.thy ===== *)
theory Websocket
  imports Transition GoStrings
begin

text \<open>
  The package \<open>websocketx\<close>: the hub that owns the set of clients (\<open>websocketx/hub.go\<close>) and the
  two goroutines of each client (\<open>websocketx/client.go\<close>), as a step relation over the events of
  the program. A buffered channel is a queue with a closed flag; sending on a closed channel and
  closing it twice panic, which is the state \<open>None\<close>. A send on the unbuffered channels of the hub
  is one step with its receipt.
\<close>

section \<open>State\<close>

definition maxMessageSize :: nat where
  "maxMessageSize = 512"

definition bufSize :: nat where
  "bufSize = 256"

type_synonym cid = nat

record channel =
  queue :: "string list"
  closed :: bool

text \<open>A write pump that was started waits for a message, holds one it took from the channel, or has
  returned.\<close>

datatype pump = NotStarted | Waiting | Holding string | Returned

text \<open>\<open>clients\<close> is the map of the hub, \<open>send\<close> the channel of each client and \<open>frames\<close> the text
  messages written to its connection, each as the list of messages it joins by newlines. The
  fields \<open>history\<close> and \<open>joined\<close> only record what was broadcast, and since when a client is served.\<close>

record net =
  clients :: "cid set"
  send :: "cid \<Rightarrow> channel"
  reading :: "cid \<Rightarrow> bool"
  writer :: "cid \<Rightarrow> pump"
  frames :: "cid \<Rightarrow> string list list"
  history :: "string list"
  joined :: "cid \<Rightarrow> nat"

definition NewHub :: net where
  "NewHub = \<lparr>clients = {}, send = (\<lambda>_. \<lparr>queue = [], closed = False\<rparr>), reading = (\<lambda>_. False),
     writer = (\<lambda>_. NotStarted), frames = (\<lambda>_. []), history = [], joined = (\<lambda>_. 0)\<rparr>"

section \<open>The hub\<close>

definition close_send :: "cid \<Rightarrow> net \<Rightarrow> net option" where
  "close_send c n =
     (if closed (send n c) then None
      else Some (n\<lparr>send := (send n)(c := (send n c)\<lparr>closed := True\<rparr>)\<rparr>))"

text \<open>The three cases of \<open>Hub.Run\<close>.\<close>

definition hub_register :: "cid \<Rightarrow> net \<Rightarrow> net option" where
  "hub_register c n = Some (n\<lparr>clients := insert c (clients n)\<rparr>)"

definition hub_unregister :: "cid \<Rightarrow> net \<Rightarrow> net option" where
  "hub_unregister c n =
     (if c \<in> clients n then close_send c (n\<lparr>clients := clients n - {c}\<rparr>) else Some n)"

text \<open>One client of a broadcast: the message is queued when there is room, otherwise the client is
  dropped.\<close>

definition deliver :: "string \<Rightarrow> cid \<Rightarrow> net \<Rightarrow> net option" where
  "deliver message c n =
     (if closed (send n c) then None
      else if length (queue (send n c)) < bufSize
      then Some (n\<lparr>send := (send n)(c := (send n c)\<lparr>queue := queue (send n c) @ [message]\<rparr>)\<rparr>)
      else map_option (\<lambda>n. n\<lparr>clients := clients n - {c}\<rparr>) (close_send c n))"

fun broadcast_loop :: "string \<Rightarrow> cid list \<Rightarrow> net \<Rightarrow> net option" where
  "broadcast_loop message [] n = Some n"
| "broadcast_loop message (c # cs) n = Option.bind (deliver message c n) (broadcast_loop message cs)"

text \<open>\<open>order\<close> is the order in which \<open>range h.clients\<close> visits the clients.\<close>

definition hub_broadcast :: "string \<Rightarrow> cid list \<Rightarrow> net \<Rightarrow> net option" where
  "hub_broadcast message order n =
     map_option (\<lambda>n. n\<lparr>history := history n @ [message]\<rparr>) (broadcast_loop message order n)"

section \<open>The clients\<close>

text \<open>\<open>ServeWs\<close> after a successful upgrade: a new client with an empty channel, registered, with both
  pumps started.\<close>

definition ServeWs :: "cid \<Rightarrow> net \<Rightarrow> net option" where
  "ServeWs c n =
     map_option (\<lambda>n. n\<lparr>writer := (writer n)(c := Waiting), reading := (reading n)(c := True)\<rparr>)
       (hub_register c
         (n\<lparr>send := (send n)(c := \<lparr>queue = [], closed = False\<rparr>), joined := (joined n)(c := length (history n))\<rparr>))"

definition readPump_message :: "string \<Rightarrow> string" where
  "readPump_message message = trim_space (replace None message [char_of (10 :: nat)] '' '')"

text \<open>The write pump takes one message, then joins everything that is queued by then. Taking the
  \<open>n\<close> queued messages is one step: the hub only appends to the queue meanwhile.\<close>

definition writePump_take :: "cid \<Rightarrow> net \<Rightarrow> net" where
  "writePump_take c n = n\<lparr>writer := (writer n)(c := Holding (hd (queue (send n c)))),
     send := (send n)(c := (send n c)\<lparr>queue := tl (queue (send n c))\<rparr>)\<rparr>"

definition writePump_flush :: "cid \<Rightarrow> string \<Rightarrow> net \<Rightarrow> net" where
  "writePump_flush c message n = n\<lparr>writer := (writer n)(c := Waiting),
     frames := (frames n)(c := frames n c @ [message # queue (send n c)]),
     send := (send n)(c := (send n c)\<lparr>queue := []\<rparr>)\<rparr>"

definition frame_text :: "string list \<Rightarrow> string" where
  "frame_text ms = join ms [char_of (10 :: nat)]"

datatype event =
    Serve cid
  | Read cid string "cid list"
  | ReadFails cid
  | Take cid
  | Flush cid
  | WriteFails cid
  | SeeClosed cid
  | PingFails cid

text \<open>The deferred \<open>unregister\<close> of both pumps is commented out in the source, so that no event sends
  on that channel: a pump that ends only stops.\<close>

inductive ws_step :: "net option \<Rightarrow> event \<Rightarrow> net option \<Rightarrow> bool" where
  serve: "writer n c = NotStarted \<Longrightarrow> ws_step (Some n) (Serve c) (ServeWs c n)"
| read: "reading n c \<Longrightarrow> length message \<le> maxMessageSize \<Longrightarrow> distinct order \<Longrightarrow> set order = clients n
    \<Longrightarrow> ws_step (Some n) (Read c message order) (hub_broadcast (readPump_message message) order n)"
| read_fails: "reading n c
    \<Longrightarrow> ws_step (Some n) (ReadFails c) (Some (n\<lparr>reading := (reading n)(c := False)\<rparr>))"
| take: "writer n c = Waiting \<Longrightarrow> queue (send n c) \<noteq> []
    \<Longrightarrow> ws_step (Some n) (Take c) (Some (writePump_take c n))"
| flush: "writer n c = Holding m \<Longrightarrow> ws_step (Some n) (Flush c) (Some (writePump_flush c m n))"
| write_fails: "writer n c = Holding m
    \<Longrightarrow> ws_step (Some n) (WriteFails c) (Some (n\<lparr>writer := (writer n)(c := Returned)\<rparr>))"
| see_closed: "writer n c = Waiting \<Longrightarrow> queue (send n c) = [] \<Longrightarrow> closed (send n c)
    \<Longrightarrow> ws_step (Some n) (SeeClosed c) (Some (n\<lparr>writer := (writer n)(c := Returned)\<rparr>))"
| ping_fails: "writer n c = Waiting
    \<Longrightarrow> ws_step (Some n) (PingFails c) (Some (n\<lparr>writer := (writer n)(c := Returned)\<rparr>))"

inductive_cases ws_stepE: "ws_step s e s'"
inductive_simps ws_step_Some: "ws_step (Some n) e s'"

definition ws_init :: "net option \<Rightarrow> bool" where
  "ws_init s \<longleftrightarrow> s = Some NewHub"

section \<open>A broadcast in one equation\<close>

text \<open>What a broadcast does, without the order: every client with room gets the message, the others
  are closed and dropped.\<close>

definition after_broadcast :: "string \<Rightarrow> cid set \<Rightarrow> net \<Rightarrow> net" where
  "after_broadcast m cs n = n\<lparr>
     clients := clients n - {c \<in> cs. bufSize \<le> length (queue (send n c))},
     send := (\<lambda>c. if c \<notin> cs then send n c
       else if length (queue (send n c)) < bufSize then (send n c)\<lparr>queue := queue (send n c) @ [m]\<rparr>
       else (send n c)\<lparr>closed := True\<rparr>)\<rparr>"

lemma deliver_after:
  "\<not> closed (send n c) \<Longrightarrow> deliver m c n = Some (after_broadcast m {c} n)"
  by (auto simp: deliver_def close_send_def after_broadcast_def fun_eq_iff intro!: net.equality)

lemma after_broadcast_insert:
  assumes "c \<notin> cs"
  shows "after_broadcast m cs (after_broadcast m {c} n) = after_broadcast m (insert c cs) n"
proof -
  have "send (after_broadcast m {c} n) d = send n d" if "d \<in> cs" for d
    using that assms by (auto simp: after_broadcast_def)
  then have "{d \<in> cs. bufSize \<le> length (queue (send (after_broadcast m {c} n) d))}
      = {d \<in> cs. bufSize \<le> length (queue (send n d))}"
    by auto
  with assms show ?thesis
    by (intro net.equality) (auto simp: after_broadcast_def fun_eq_iff)
qed

lemma after_broadcast_empty: "after_broadcast m {} n = n"
  by (simp add: after_broadcast_def)

lemma broadcast_loop_after:
  "distinct cs \<Longrightarrow> \<forall>c \<in> set cs. \<not> closed (send n c)
   \<Longrightarrow> broadcast_loop m cs n = Some (after_broadcast m (set cs) n)"
proof (induction cs arbitrary: n)
  case Nil
  then show ?case by (simp add: after_broadcast_empty)
next
  case (Cons c cs)
  let ?n = "after_broadcast m {c} n"
  have "\<forall>d \<in> set cs. \<not> closed (send ?n d)"
    using Cons.prems by (auto simp: after_broadcast_def)
  with Cons have "broadcast_loop m cs ?n = Some (after_broadcast m (set cs) ?n)" by simp
  with Cons.prems show ?case
    by (simp add: deliver_after after_broadcast_insert)
qed

section \<open>The invariant\<close>

definition held :: "pump \<Rightarrow> string list" where
  "held p = (case p of Holding m \<Rightarrow> [m] | _ \<Rightarrow> [])"

text \<open>A registered client has an open channel within its capacity; channels of clients never served
  are untouched; and as long as its write pump runs, what was written, what the pump holds and what
  is queued is, in order, everything broadcast since it was served.\<close>

definition client_ok :: "net \<Rightarrow> cid \<Rightarrow> bool" where
  "client_ok n c \<longleftrightarrow>
     length (queue (send n c)) \<le> bufSize \<and>
     (c \<in> clients n \<longrightarrow> \<not> closed (send n c) \<and> writer n c \<noteq> NotStarted) \<and>
     (writer n c = NotStarted \<longrightarrow> frames n c = []) \<and>
     joined n c \<le> length (history n) \<and>
     (c \<in> clients n \<longrightarrow> writer n c \<noteq> Returned \<longrightarrow>
        concat (frames n c) @ held (writer n c) @ queue (send n c) = drop (joined n c) (history n))"

fun ws_inv :: "net option \<Rightarrow> bool" where
  "ws_inv None = False"
| "ws_inv (Some n) = (\<forall>c. client_ok n c)"

lemma client_ok_cong:
  "send n' c = send n c \<Longrightarrow> c \<in> clients n' \<longleftrightarrow> c \<in> clients n \<Longrightarrow> writer n' c = writer n c
   \<Longrightarrow> frames n' c = frames n c \<Longrightarrow> joined n' c = joined n c \<Longrightarrow> history n' = history n
   \<Longrightarrow> client_ok n' c = client_ok n c"
  by (simp add: client_ok_def)

lemma ws_inv_init: "ws_init s \<Longrightarrow> ws_inv s"
  by (auto simp: ws_init_def NewHub_def client_ok_def held_def bufSize_def)

lemma inv_serve [go_inv]:
  assumes "ws_inv (Some n)" "writer n c = NotStarted"
  shows "ws_inv (ServeWs c n)"
proof -
  have "client_ok n d" for d using assms(1) by simp
  then show ?thesis
    using assms(2) by (auto simp: ServeWs_def hub_register_def client_ok_def held_def)
qed

lemma broadcast_open:
  assumes "ws_inv (Some n)" "distinct order" "set order = clients n"
  shows "hub_broadcast m order n
       = Some ((after_broadcast m (clients n) n)\<lparr>history := history n @ [m]\<rparr>)"
proof -
  have "\<forall>c \<in> set order. \<not> closed (send n c)"
    using assms by (auto simp: client_ok_def)
  then show ?thesis
    using assms by (simp add: hub_broadcast_def broadcast_loop_after) (simp add: after_broadcast_def)
qed

lemma inv_broadcast [go_inv]:
  assumes "ws_inv (Some n)" "distinct order" "set order = clients n"
  shows "ws_inv (hub_broadcast m order n)"
proof -
  have "client_ok ((after_broadcast m (clients n) n)\<lparr>history := history n @ [m]\<rparr>) c" for c
  proof -
    have ok: "client_ok n c" using assms(1) by simp
    show ?thesis
    proof (cases "c \<in> clients n \<and> length (queue (send n c)) < bufSize")
      case True
      then show ?thesis
        using ok by (auto simp: client_ok_def after_broadcast_def simp flip: append_assoc)
    next
      case False
      then show ?thesis
        using ok by (auto simp: client_ok_def after_broadcast_def)
    qed
  qed
  with assms show ?thesis by (auto simp: broadcast_open simp del: ws_inv.simps(2)) (simp only: ws_inv.simps, blast)
qed

lemma inv_writer [go_inv]:
  assumes "ws_inv (Some n)"
  shows "writer n c = Waiting \<Longrightarrow> queue (send n c) \<noteq> [] \<Longrightarrow> ws_inv (Some (writePump_take c n))"
    and "writer n c = Holding m \<Longrightarrow> ws_inv (Some (writePump_flush c m n))"
    and "writer n c \<noteq> NotStarted \<Longrightarrow> ws_inv (Some (n\<lparr>writer := (writer n)(c := Returned)\<rparr>))"
    and "ws_inv (Some (n\<lparr>reading := (reading n)(c := False)\<rparr>))"
proof -
  have ok: "client_ok n d" for d using assms by simp
  show "writer n c = Waiting \<Longrightarrow> queue (send n c) \<noteq> [] \<Longrightarrow> ws_inv (Some (writePump_take c n))"
  proof -
    assume w: "writer n c = Waiting" "queue (send n c) \<noteq> []"
    have "client_ok (writePump_take c n) d" for d
      using ok [of d] w by (cases "d = c") (auto simp: client_ok_def writePump_take_def held_def)
    then show ?thesis by auto
  qed
  show "writer n c = Holding m \<Longrightarrow> ws_inv (Some (writePump_flush c m n))"
  proof -
    assume w: "writer n c = Holding m"
    have "client_ok (writePump_flush c m n) d" for d
      using ok [of d] w by (cases "d = c") (auto simp: client_ok_def writePump_flush_def held_def)
    then show ?thesis by auto
  qed
  show "writer n c \<noteq> NotStarted \<Longrightarrow> ws_inv (Some (n\<lparr>writer := (writer n)(c := Returned)\<rparr>))"
    using ok by (auto simp: client_ok_def)
  show "ws_inv (Some (n\<lparr>reading := (reading n)(c := False)\<rparr>))"
    using ok by (auto simp: client_ok_def)
qed

interpretation ws: step_invariant ws_init ws_step ws_inv
proof
  show "ws_inv s" if "ws_init s" for s using that by (rule ws_inv_init)
  show "ws_inv s'" if i: "ws_inv s" and st: "ws_step s e s'" for s e s'
    using st i by cases (auto intro: go_inv simp del: ws_inv.simps)
qed

text \<open>A client that was dropped.\<close>

fun dropped :: "cid \<Rightarrow> net option \<Rightarrow> bool" where
  "dropped c None = False"
| "dropped c (Some n) = (c \<notin> clients n \<and> closed (send n c) \<and> writer n c \<noteq> NotStarted)"

lemma dropped_step:
  assumes "ws_inv s" "dropped c s" "ws_step s e s'"
  shows "dropped c s'"
  using assms(3)
proof cases
  case (read n d message order)
  then have "ws_inv (Some n)" "distinct order" "set order = clients n" using assms(1) by simp_all
  from broadcast_open [OF this] show ?thesis
    using assms(2) read(1,3) by (auto simp: after_broadcast_def)
next
  case (serve n d)
  with assms(2) show ?thesis by (auto simp: ServeWs_def hub_register_def)
qed (use assms(2) in \<open>auto simp: writePump_take_def writePump_flush_def\<close>)

interpretation gone: stable_property ws_init ws_step ws_inv "dropped c" for c
  by unfold_locales (rule dropped_step)

section \<open>Properties\<close>

text \<open>C3. The hub never panics: in every reachable state no channel was closed twice or written after
  its close, every registered client has an open channel, and no channel holds more messages than
  its capacity.\<close>

theorem hub_never_panics:
  assumes "reach ws_init ws_step s"
  shows "\<exists>n. s = Some n \<and> (\<forall>c \<in> clients n. \<not> closed (send n c))
       \<and> (\<forall>c. length (queue (send n c)) \<le> bufSize)"
  using ws.reach_inv [OF assms] by (cases s) (auto simp: client_ok_def)

lemma reach_served: "reach ws_init ws_step (ServeWs 1 NewHub)"
proof (rule reach_step)
  show "reach ws_init ws_step (Some NewHub)" by (rule reach_init) (simp add: ws_init_def)
  show "ws_step (Some NewHub) (Serve 1) (ServeWs 1 NewHub)"
    by (rule ws_step.serve) (simp add: NewHub_def)
qed

theorem hub_never_panics_witness:
  "\<exists>n. ServeWs 1 NewHub = Some n \<and> 1 \<in> clients n \<and> \<not> closed (send n 1)"
  using hub_never_panics [OF reach_served] by (auto simp: ServeWs_def hub_register_def)

text \<open>C4. Messages are delivered in order and none is lost: for a registered client whose write pump
  runs, the messages written to the connection, then the one the pump holds, then the queued ones
  are all messages broadcast since the client was served, in broadcast order.\<close>

theorem ws_delivery_in_order:
  assumes "reach ws_init ws_step (Some n)" "c \<in> clients n" "writer n c \<noteq> Returned"
  shows "concat (frames n c) @ held (writer n c) @ queue (send n c) = drop (joined n c) (history n)"
  using ws.reach_inv [OF assms(1)] assms(2,3) by (auto simp: client_ok_def)

definition served_once :: net where
  "served_once = the (ServeWs 1 NewHub)"

lemma served_once: "ServeWs 1 NewHub = Some served_once"
  by (simp add: served_once_def ServeWs_def hub_register_def)

lemma served_once_parts:
  "clients served_once = {1}" "reading served_once 1" "queue (send served_once 1) = []"
  by (simp_all add: served_once_def ServeWs_def hub_register_def NewHub_def)

theorem ws_delivery_in_order_witness:
  "concat (frames served_once 1) @ held (writer served_once 1) @ queue (send served_once 1)
   = drop (joined served_once 1) (history served_once)"
  by (rule ws_delivery_in_order)
     (use reach_served in \<open>simp_all add: served_once, simp_all add: served_once_def ServeWs_def hub_register_def\<close>)

text \<open>C9. A broadcast gives the message to every registered client with room, in any order of the map,
  and closes and drops exactly the clients whose queue is full.\<close>

theorem hub_broadcast_result:
  assumes "reach ws_init ws_step (Some n)" "distinct order" "set order = clients n"
  shows "\<exists>n'. hub_broadcast m order n = Some n'
       \<and> clients n' = {c \<in> clients n. length (queue (send n c)) < bufSize}
       \<and> (\<forall>c \<in> clients n'. queue (send n' c) = queue (send n c) @ [m])
       \<and> (\<forall>c \<in> clients n - clients n'. closed (send n' c) \<and> queue (send n' c) = queue (send n c))
       \<and> (\<forall>order'. distinct order' \<longrightarrow> set order' = clients n \<longrightarrow> hub_broadcast m order' n = Some n')"
proof -
  note inv = ws.reach_inv [OF assms(1)]
  show ?thesis
    using broadcast_open [OF inv assms(2,3), of m] broadcast_open [OF inv]
    by (intro exI conjI) (auto simp: after_broadcast_def)
qed

theorem hub_broadcast_result_witness:
  "\<exists>n'. hub_broadcast ''hi'' [1] served_once = Some n' \<and> clients n' = {1}"
  using hub_broadcast_result [of served_once "[1]" "''hi''"] reach_served served_once
  by (auto simp: served_once_def ServeWs_def hub_register_def NewHub_def bufSize_def)

text \<open>Nothing but a full queue removes a client: when a step takes a client out of the hub, that
  step is a broadcast and the queue of the client was full. In particular a connection that fails
  or is closed by the peer stays registered.\<close>

theorem only_full_queue_drops:
  assumes "reach ws_init ws_step (Some n)" "ws_step (Some n) e (Some n')" "c \<in> clients n - clients n'"
  shows "(\<exists>d m order. e = Read d m order) \<and> length (queue (send n c)) = bufSize"
proof -
  note inv = ws.reach_inv [OF assms(1)]
  then have le: "length (queue (send n c)) \<le> bufSize" by (auto simp: client_ok_def)
  from assms(2) show ?thesis
  proof cases
    case (read d message order)
    with broadcast_open [OF inv read(5,6)] assms(3) le show ?thesis
      by (auto simp: after_broadcast_def)
  next
    case (serve d)
    with assms(3) show ?thesis by (auto simp: ServeWs_def hub_register_def)
  qed (use assms(3) in \<open>auto simp: writePump_take_def writePump_flush_def\<close>)
qed

lemma readPump_empty: "readPump_message [] = []"
proof -
  have "replace None [] [char_of (10 :: nat)] '' '' = []"
    unfolding replace_def by (subst replace_from.simps) simp
  then show ?thesis by (simp add: readPump_message_def trim_space_def)
qed

fun broadcasts :: "nat \<Rightarrow> net option \<Rightarrow> net option" where
  "broadcasts 0 s = s"
| "broadcasts (Suc k) s = Option.bind (broadcasts k s) (hub_broadcast [] [1])"

lemma broadcasts_served:
  "k \<le> bufSize \<Longrightarrow> reach ws_init ws_step (broadcasts k (Some served_once))
     \<and> (\<exists>n. broadcasts k (Some served_once) = Some n \<and> clients n = {1} \<and> reading n 1
          \<and> queue (send n 1) = replicate k [])"
proof (induction k)
  case 0
  show ?case
    using reach_served unfolding served_once by (simp add: served_once_parts del: One_nat_def)
next
  case (Suc k)
  have k: "k < bufSize" using Suc.prems by simp
  have IH: "reach ws_init ws_step (broadcasts k (Some served_once))"
    "\<exists>n. broadcasts k (Some served_once) = Some n \<and> clients n = {1} \<and> reading n 1
          \<and> queue (send n 1) = replicate k []"
    using Suc.IH k by (blast intro: less_imp_le)+
  then obtain n where n: "broadcasts k (Some served_once) = Some n" "clients n = {1}" "reading n 1"
    "queue (send n 1) = replicate k []" by blast
  have n5: "reach ws_init ws_step (Some n)" using IH(1) unfolding n(1) .
  have e: "hub_broadcast [] [1] n
      = Some ((after_broadcast [] (clients n) n)\<lparr>history := history n @ [[]]\<rparr>)"
    by (rule broadcast_open [OF ws.reach_inv [OF n5]]) (simp_all add: n(2))
  have "ws_step (Some n) (Read 1 [] [1]) (hub_broadcast (readPump_message []) [1] n)"
    by (rule ws_step.read) (simp_all add: n(2,3) maxMessageSize_def del: One_nat_def)
  then have "ws_step (Some n) (Read 1 [] [1]) (hub_broadcast [] [1] n)"
    unfolding readPump_empty .
  with n5 have r: "reach ws_init ws_step (hub_broadcast [] [1] n)" by (rule reach_step)
  have b: "broadcasts (Suc k) (Some served_once) = hub_broadcast [] [1] n"
    unfolding broadcasts.simps n(1) by (rule Option.bind.bind_lunit)
  have "clients (after_broadcast [] (clients n) n) = {1}"
    "queue (send (after_broadcast [] (clients n) n) 1) = replicate (Suc k) []"
    "reading (after_broadcast [] (clients n) n) 1"
    using k by (auto simp: n(2-4) after_broadcast_def replicate_append_same simp del: One_nat_def)
  then show ?case using r unfolding b e
    by (intro conjI exI [of _ "(after_broadcast [] (clients n) n)\<lparr>history := history n @ [[]]\<rparr>"])
       (simp_all del: One_nat_def)
qed

theorem only_full_queue_drops_witness:
  "\<exists>n n'. broadcasts bufSize (Some served_once) = Some n \<and> hub_broadcast [] [1] n = Some n'
     \<and> 1 \<notin> clients n' \<and> length (queue (send n 1)) = 256"
proof -
  obtain n where n: "broadcasts bufSize (Some served_once) = Some n" "clients n = {1}" "reading n 1"
    "queue (send n 1) = replicate bufSize []"
    using broadcasts_served [of bufSize] by blast
  have n5: "reach ws_init ws_step (Some n)"
    using broadcasts_served [of bufSize] unfolding n(1) by blast
  let ?n' = "(after_broadcast [] (clients n) n)\<lparr>history := history n @ [[]]\<rparr>"
  have e: "hub_broadcast [] [1] n = Some ?n'"
    by (rule broadcast_open [OF ws.reach_inv [OF n5]]) (simp_all add: n(2))
  have "ws_step (Some n) (Read 1 [] [1]) (hub_broadcast (readPump_message []) [1] n)"
    by (rule ws_step.read) (simp_all add: n(2,3) maxMessageSize_def del: One_nat_def)
  then have st: "ws_step (Some n) (Read 1 [] [1]) (Some ?n')"
    unfolding readPump_empty e .
  have out: "1 \<in> clients n - clients ?n'"
    by (simp add: n(2,4) after_broadcast_def del: One_nat_def)
  have "length (queue (send n 1)) = bufSize"
    using only_full_queue_drops [OF n5 st out] by blast
  then have "length (queue (send n 1)) = 256" by (simp add: bufSize_def)
  with n(1) e out show ?thesis by blast
qed

end
