(* ===== verification/Jwtx.thy ===== *)
theory Jwtx
  imports GoValues
begin

text \<open>
  The package \<open>jwtx\<close> (\<open>jwtx/jwtx.go\<close>): issuing, parsing and refreshing tokens. Signing and
  parsing belong to \<open>github.com/golang-jwt/jwt\<close> and are the parameter \<open>J\<close>; \<open>jwt_law\<close> states what
  that library documents. Times are seconds in an \<open>int64\<close>; the clock is the argument \<open>now\<close>.
\<close>

section \<open>Claims and the library\<close>

definition CtxKeyJwtAccessExpire :: string where "CtxKeyJwtAccessExpire = ''exp''"
definition CtxKeyJwtIssuedAt :: string where "CtxKeyJwtIssuedAt = ''iat''"
definition CtxKeyJwtIssuer :: string where "CtxKeyJwtIssuer = ''iss''"
definition CtxKeyJwtUserId :: string where "CtxKeyJwtUserId = ''userId''"
definition CtxKeyJwtUserName :: string where "CtxKeyJwtUserName = ''userName''"
definition CtxKeyJwtRoleId :: string where "CtxKeyJwtRoleId = ''roleId''"
definition CtxKeyJwtNickName :: string where "CtxKeyJwtNickName = ''nickName''"
definition CtxKeyJwtToken :: string where "CtxKeyJwtToken = ''tokenStr''"
definition CtxKeyRefreshAt :: string where "CtxKeyRefreshAt = ''refreshAt''"
definition CtxKeyExpire :: string where "CtxKeyExpire = ''expire''"

record SysJwtClaims =
  UserId :: string
  RoleId :: string
  DeptId :: string
  UserName :: string
  NickName :: string
  ClientId :: string
  Scope :: string
  RefreshAt :: int64
  Expire :: int64
  TokenStr :: string
  Issuer :: string
  IssuedAt :: "int64 option"
  ExpiresAt :: "int64 option"

definition no_claims :: SysJwtClaims where
  "no_claims = \<lparr>UserId = [], RoleId = [], DeptId = [], UserName = [], NickName = [], ClientId = [],
     Scope = [], RefreshAt = 0, Expire = 0, TokenStr = [], Issuer = [], IssuedAt = None, ExpiresAt = None\<rparr>"

text \<open>The errors of the library: a \<open>ValidationError\<close>, with its expiry bit, or another one.\<close>

datatype lib_error = ValidationError bool | OtherError

text \<open>The values of a map of claims.\<close>

datatype claim_value = CInt int64 | CStr string

text \<open>\<open>parse\<close> returns the token (its claims and its \<open>Valid\<close> flag), which may be nil, and an error,
  which may be nil; \<open>sign\<close> and \<open>sign_map\<close> return the signed string or an error.\<close>

record jwtlib =
  sign :: "SysJwtClaims \<Rightarrow> string \<Rightarrow> lib_error + string"
  sign_map :: "(string \<times> claim_value) list \<Rightarrow> string \<Rightarrow> lib_error + string"
  parse :: "int64 \<Rightarrow> string \<Rightarrow> string \<Rightarrow> (SysJwtClaims \<times> bool) option \<times> lib_error option"

text \<open>A token verifies while it has been issued and has not expired.\<close>

definition in_time :: "int64 \<Rightarrow> SysJwtClaims \<Rightarrow> bool" where
  "in_time now c \<longleftrightarrow> (case ExpiresAt c of None \<Rightarrow> True | Some e \<Rightarrow> sint now < sint e)"

definition issued :: "int64 \<Rightarrow> SysJwtClaims \<Rightarrow> bool" where
  "issued now c \<longleftrightarrow> (case IssuedAt c of None \<Rightarrow> True | Some i \<Rightarrow> sint i \<le> sint now)"

text \<open>Parsing a signed token with its key gives back the claims; an expired one comes back with the
  expiry error. A signed token is three base64url words joined by dots, so it holds no blank.\<close>

definition jwt_law :: "jwtlib \<Rightarrow> bool" where
  "jwt_law J \<longleftrightarrow> (\<forall>c k t. sign J c k = Inr t \<longrightarrow>
     ascii t \<and> CHR '' '' \<notin> set t \<and>
     (\<forall>now. issued now c \<longrightarrow> parse J now t k =
       (if in_time now c then (Some (c, True), None) else (Some (c, False), Some (ValidationError True)))))"

section \<open>Issuing\<close>

definition GenToken :: "jwtlib \<Rightarrow> SysJwtClaims \<Rightarrow> string \<Rightarrow> lib_error + string" where
  "GenToken J claims secretKey = sign J claims secretKey"

definition MakeJwt :: "jwtlib \<Rightarrow> string \<Rightarrow> SysJwtClaims \<Rightarrow> lib_error + string" where
  "MakeJwt J secretKey claim = sign J claim secretKey"

definition GetToken ::
  "jwtlib \<Rightarrow> string \<Rightarrow> string \<Rightarrow> string \<Rightarrow> string \<Rightarrow> int64 \<Rightarrow> int64 \<Rightarrow> int64 \<Rightarrow> int64 \<Rightarrow> lib_error + string" where
  "GetToken J secretKey username nickName issuer iat seconds uid roleId =
     (let claims = [
        (CtxKeyJwtUserId, CInt uid),
        (CtxKeyJwtRoleId, CInt roleId),
        (CtxKeyJwtUserName, CStr username),
        (CtxKeyJwtNickName, CStr nickName),
        (CtxKeyJwtIssuer, CStr issuer),
        (CtxKeyJwtIssuedAt, CInt iat),
        (CtxKeyJwtAccessExpire, CInt (iat + seconds)),
        (CtxKeyRefreshAt, CInt (iat + sdiv64 seconds 2)),
        (CtxKeyExpire, CInt seconds)]
      in sign_map J claims secretKey)"

definition token_claims ::
  "string \<Rightarrow> string \<Rightarrow> string \<Rightarrow> int64 \<Rightarrow> int64 \<Rightarrow> string \<Rightarrow> string \<Rightarrow> string \<Rightarrow> SysJwtClaims" where
  "token_claims username nickName issuer iat seconds uid roleId deptId =
     no_claims\<lparr>UserId := uid, RoleId := roleId, DeptId := deptId, UserName := username,
       NickName := nickName, Expire := seconds, RefreshAt := iat + sdiv64 seconds 2,
       Issuer := issuer, IssuedAt := Some iat, ExpiresAt := Some (iat + seconds)\<rparr>"

definition GetTokenClaims ::
  "jwtlib \<Rightarrow> string \<Rightarrow> string \<Rightarrow> string \<Rightarrow> string \<Rightarrow> int64 \<Rightarrow> int64 \<Rightarrow> string \<Rightarrow> string \<Rightarrow> string
   \<Rightarrow> lib_error + string" where
  "GetTokenClaims J secretKey username nickName issuer iat seconds uid roleId deptId =
     sign J (token_claims username nickName issuer iat seconds uid roleId deptId) secretKey"

section \<open>Parsing\<close>

text \<open>The prefix \<open>Bearer\<close> in any case is cut off.\<close>

definition stripBearerPrefixFromTokenString :: "gotext \<Rightarrow> string \<Rightarrow> string" where
  "stripBearerPrefixFromTokenString T tok =
     (if 6 < length tok \<and> to_upper T (take 7 tok) = ''BEARER '' then drop 7 tok else tok)"

datatype token_error = CheckRefresh | LibError lib_error | InvalidToken

text \<open>The claims are read through the token also when the library returns an error, and a nil token is
  dereferenced: the result \<open>None\<close>.\<close>

definition ParseToken ::
  "gotext \<Rightarrow> jwtlib \<Rightarrow> int64 \<Rightarrow> string \<Rightarrow> string
   \<Rightarrow> (SysJwtClaims option \<times> token_error option) option" where
  "ParseToken T J now tokenString SigningKey =
     (let tok = stripBearerPrefixFromTokenString T tokenString in
      case parse J now tok SigningKey of
        (None, _) \<Rightarrow> None
      | (Some (claims, valid), err) \<Rightarrow> Some
          (case err of
             Some e \<Rightarrow> (if e = ValidationError True then (Some claims, Some CheckRefresh)
                        else (None, Some (LibError e)))
           | None \<Rightarrow> (if valid then (Some claims, None) else (None, Some InvalidToken))))"

definition GetFromToken ::
  "(SysJwtClaims \<Rightarrow> string) \<Rightarrow> gotext \<Rightarrow> jwtlib \<Rightarrow> int64 \<Rightarrow> string \<Rightarrow> string
   \<Rightarrow> (token_error + string) option" where
  "GetFromToken field T J now tokenStr secret =
     (case ParseToken T J now tokenStr secret of
        None \<Rightarrow> None
      | Some (_, Some e) \<Rightarrow> Some (Inl e)
      | Some (Some claims, None) \<Rightarrow> Some (Inr (field claims))
      | Some (None, None) \<Rightarrow> None)"

definition GetUserIdFromToken where
  "GetUserIdFromToken = GetFromToken UserId"

definition GetRoleIdFromToken where
  "GetRoleIdFromToken = GetFromToken RoleId"

definition GetDeptIdFromToken where
  "GetDeptIdFromToken = GetFromToken DeptId"

definition GetClaimsFromToken where
  "GetClaimsFromToken = ParseToken"

text \<open>Values of a context.\<close>

definition GetFromCtx :: "string \<Rightarrow> (string \<Rightarrow> goval) \<Rightarrow> string" where
  "GetFromCtx key ctx = (case ctx key of VString s \<Rightarrow> s | _ \<Rightarrow> [])"

definition GetUserIdFromCtx where
  "GetUserIdFromCtx = GetFromCtx CtxKeyJwtUserId"

definition GetRoleIdFromCtx where
  "GetRoleIdFromCtx = GetFromCtx CtxKeyJwtRoleId"

definition GetTokenStrFromCtx where
  "GetTokenStrFromCtx = GetFromCtx CtxKeyJwtToken"

text \<open>\<open>request.ParseFromRequest\<close> of the library is the argument \<open>parse_request\<close>.\<close>

definition ParseTokenFromRequest ::
  "('req \<Rightarrow> string \<Rightarrow> (SysJwtClaims \<times> bool) option \<times> lib_error option) \<Rightarrow> 'req \<Rightarrow> string
   \<Rightarrow> (token_error + SysJwtClaims) option" where
  "ParseTokenFromRequest parse_request r secret =
     (case parse_request r secret of
        (_, Some e) \<Rightarrow> Some (Inl (LibError e))
      | (None, None) \<Rightarrow> None
      | (Some (claims, valid), None) \<Rightarrow>
          Some (if valid then Inr claims else Inl InvalidToken))"

section \<open>Checking and refreshing\<close>

definition refreshed :: "int64 \<Rightarrow> SysJwtClaims \<Rightarrow> SysJwtClaims" where
  "refreshed now claims = claims\<lparr>ExpiresAt := Some (now + Expire claims),
     RefreshAt := now + sdiv64 (Expire claims) 2, IssuedAt := Some now\<rparr>"

definition CheckToken :: "gotext \<Rightarrow> jwtlib \<Rightarrow> int64 \<Rightarrow> string \<Rightarrow> string \<Rightarrow> (bool \<times> string) option" where
  "CheckToken T J now tokenStr secretKey =
     (case ParseToken T J now tokenStr secretKey of
        None \<Rightarrow> None
      | Some (_, Some e) \<Rightarrow> Some (False, [])
      | Some (None, None) \<Rightarrow> None
      | Some (Some claims, None) \<Rightarrow>
          if sint (RefreshAt claims) < sint now then
            Some (True, case sign J (refreshed now claims) secretKey of Inr t \<Rightarrow> t | Inl _ \<Rightarrow> [])
          else Some (True, []))"

section \<open>Lemmas\<close>

lemma up_char_blank: "up_char c = CHR '' '' \<Longrightarrow> c = CHR '' ''"
proof -
  assume a: "up_char c = CHR '' ''"
  have "ascii_up (code c) = code (CHR '' '')"
    by (simp only: up_char_code [symmetric] a)
  then have "code c = code (CHR '' '')"
    by (auto simp: ascii_up_def split: if_splits)
  then show ?thesis by (simp only: code_inject)
qed

lemma strip_plain:
  assumes "ascii_text T" "ascii t" "CHR '' '' \<notin> set t"
  shows "stripBearerPrefixFromTokenString T t = t"
proof -
  have "CHR '' '' \<notin> set (map up_char (take 7 t))"
  proof
    assume "CHR '' '' \<in> set (map up_char (take 7 t))"
    then obtain c where "c \<in> set (take 7 t)" "up_char c = CHR '' ''" by force
    with up_char_blank in_set_takeD assms(3) show False by metis
  qed
  moreover have "CHR '' '' \<in> set ''BEARER ''" by simp
  ultimately have "map up_char (take 7 t) \<noteq> ''BEARER ''" by metis
  moreover have "to_upper T (take 7 t) = map up_char (take 7 t)"
    by (rule to_upper_ascii) (simp_all add: assms)
  ultimately show ?thesis
    unfolding stripBearerPrefixFromTokenString_def by presburger
qed

lemma strip_bearer:
  "ascii_text T \<Longrightarrow> ascii p \<Longrightarrow> map up_char p = ''BEARER '' \<Longrightarrow> stripBearerPrefixFromTokenString T (p @ t) = t"
proof -
  assume h: "ascii_text T" "ascii p" "map up_char p = ''BEARER ''"
  have "length p = 7" using arg_cong [OF h(3), of length] by simp
  with h show ?thesis by (simp add: stripBearerPrefixFromTokenString_def to_upper_ascii)
qed

text \<open>Parsing a signed token, with or without the prefix.\<close>

definition spelled :: "string \<Rightarrow> string \<Rightarrow> bool" where
  "spelled s t \<longleftrightarrow> s = t \<or> (\<exists>p. s = p @ t \<and> ascii p \<and> map up_char p = ''BEARER '')"

lemma parse_signed:
  assumes "ascii_text T" "jwt_law J" "sign J c k = Inr t" "issued now c" "spelled s t"
  shows "ParseToken T J now s k
       = Some (if in_time now c then (Some c, None) else (Some c, Some CheckRefresh))"
proof -
  have l: "ascii t" "CHR '' '' \<notin> set t" "parse J now t k =
       (if in_time now c then (Some (c, True), None) else (Some (c, False), Some (ValidationError True)))"
    using assms(2-4) unfolding jwt_law_def by blast+
  have "stripBearerPrefixFromTokenString T s = t"
    using assms(5) unfolding spelled_def
  proof (elim disjE exE conjE)
    assume "s = t"
    then show ?thesis using strip_plain [OF assms(1) l(1,2)] by simp
  next
    fix p assume p: "s = p @ t" "ascii p" "map up_char p = ''BEARER ''"
    show ?thesis unfolding p(1) by (rule strip_bearer [OF assms(1) p(2,3)])
  qed
  then show ?thesis by (simp add: ParseToken_def l(3))
qed

section \<open>A library that meets the law\<close>

text \<open>Tokens written in one letter, by a table of claims: enough to run the definitions.\<close>

definition two_claims :: "SysJwtClaims \<Rightarrow> SysJwtClaims \<Rightarrow> jwtlib" where
  "two_claims c d = \<lparr>sign = (\<lambda>x k. if x = c then Inr ''c'' else if x = d then Inr ''d'' else Inl OtherError),
     sign_map = (\<lambda>_ _. Inl OtherError),
     parse = (\<lambda>now t k.
       (let back = (\<lambda>x. if in_time now x then (Some (x, True), None)
                        else (Some (x, False), Some (ValidationError True)))
        in if t = ''c'' then back c else if t = ''d'' then back d else (None, Some (ValidationError False))))\<rparr>"

lemma two_claims_law: "jwt_law (two_claims c d)"
  by (auto simp: jwt_law_def two_claims_def Let_def)

definition alice :: SysJwtClaims where
  "alice = token_claims ''alice'' [] ''sub'' 1000 600 ''7'' ''1'' ''2''"

section \<open>Properties\<close>





text \<open>A string the library cannot split into the parts of a token gives a nil token, which every
  reader of a token dereferences: the call panics instead of returning an error.\<close>

theorem malformed_token_panics:
  assumes "ascii_text T" "ascii s" "CHR '' '' \<notin> set s" "parse J now s k = (None, Some e)"
  shows "ParseToken T J now s k = None \<and> CheckToken T J now s k = None
       \<and> GetUserIdFromToken T J now s k = None"
  using assms
  by (simp add: ParseToken_def CheckToken_def GetUserIdFromToken_def GetFromToken_def strip_plain)

theorem malformed_token_panics_witness:
  "CheckToken ascii_tables (two_claims alice alice) 1200 ''nodots'' ''key'' = None"
  using malformed_token_panics [of ascii_tables "''nodots''" "two_claims alice alice" 1200 "''key''"
      "ValidationError False"]
  by (simp add: two_claims_def)

end
