(* ===== verification/Minio.thy ===== *)
theory Minio
  imports GoPath
begin

text \<open>
  The package \<open>minioCli\<close>: a client of an S3 object store. The library \<open>minio-go\<close> and the server
  behind it are the parameter \<open>A\<close>: every call maps the state \<open>'w\<close> of the store to an answer and
  the next state. A channel of results is the list of what it delivers; where the source lists in one
  goroutine while the library removes in another, the listing is read first. Times are nanoseconds.
\<close>

section \<open>Types\<close>

definition StorageClassStandard :: string where "StorageClassStandard = ''STANDARD''"
definition StorageClassLow :: string where "StorageClassLow = ''STANDARD_IA''"
definition StorageClassCold :: string where "StorageClassCold = ''GLACIER''"
definition StoreTypeChinaMobile :: string where "StoreTypeChinaMobile = ''CM''"
definition StoreTypeHuawei :: string where "StoreTypeHuawei = ''HW''"
definition StoreTypeNormal :: string where "StoreTypeNormal = ''S3''"

type_synonym time = int

text \<open>What the code reads of \<open>minio.ObjectInfo\<close>; \<open>oi_restore\<close> is \<open>Restore\<close> with its flag
  \<open>OngoingRestore\<close>, \<open>None\<close> when it is nil.\<close>

record ObjectInfo =
  oi_key :: string
  oi_size :: int64
  oi_modified :: time
  oi_class :: string
  oi_restore :: "bool option"
  oi_err :: "string option"

record BucketInfo =
  bi_name :: string
  bi_created :: time

text \<open>One result of a batch removal.\<close>

record RemoveResult =
  rr_name :: string
  rr_err :: "string option"

text \<open>The calls of the library.\<close>

record 'w s3 =
  make_bucket :: "string \<Rightarrow> 'w \<Rightarrow> string option \<times> 'w"
  remove_bucket :: "string \<Rightarrow> 'w \<Rightarrow> string option \<times> 'w"
  bucket_exists :: "string \<Rightarrow> 'w \<Rightarrow> (string + bool) \<times> 'w"
  list_buckets :: "'w \<Rightarrow> (string + BucketInfo list) \<times> 'w"
  bucket_location :: "string \<Rightarrow> 'w \<Rightarrow> (string + string) \<times> 'w"
  bucket_versioning :: "string \<Rightarrow> 'w \<Rightarrow> (string + string) \<times> 'w"
  bucket_policy :: "string \<Rightarrow> 'w \<Rightarrow> (string + string) \<times> 'w"
  bucket_encryption :: "string \<Rightarrow> 'w \<Rightarrow> (string + string) \<times> 'w"
  bucket_lifecycle :: "string \<Rightarrow> 'w \<Rightarrow> (string + string) \<times> 'w"
  bucket_tagging :: "string \<Rightarrow> 'w \<Rightarrow> (string + string) \<times> 'w"
  bucket_notification :: "string \<Rightarrow> 'w \<Rightarrow> (string + string) \<times> 'w"
  list_objects :: "string \<Rightarrow> string \<Rightarrow> bool \<Rightarrow> 'w \<Rightarrow> ObjectInfo list \<times> 'w"
  stat_object :: "string \<Rightarrow> string \<Rightarrow> 'w \<Rightarrow> (string + ObjectInfo) \<times> 'w"
  get_object :: "string \<Rightarrow> string \<Rightarrow> 'w \<Rightarrow> (string + string) \<times> 'w"
  put_object :: "string \<Rightarrow> string \<Rightarrow> string \<Rightarrow> string \<Rightarrow> string \<Rightarrow> 'w \<Rightarrow> string option \<times> 'w"
  remove_object :: "string \<Rightarrow> string \<Rightarrow> 'w \<Rightarrow> string option \<times> 'w"
  remove_objects :: "string \<Rightarrow> string list \<Rightarrow> 'w \<Rightarrow> RemoveResult list \<times> 'w"
  restore_object :: "string \<Rightarrow> string \<Rightarrow> nat \<Rightarrow> 'w \<Rightarrow> string option \<times> 'w"
  presigned_get :: "string \<Rightarrow> string \<Rightarrow> int \<Rightarrow> 'w \<Rightarrow> (string + string) \<times> 'w"
  endpoint_url :: "string \<Rightarrow> string \<Rightarrow> string"
  list_incomplete :: "string \<Rightarrow> string \<Rightarrow> 'w \<Rightarrow> ObjectInfo list \<times> 'w"
  remove_incomplete :: "string \<Rightarrow> string \<Rightarrow> 'w \<Rightarrow> string option \<times> 'w"

datatype s3_error =
    Api string
  | StatFailed string
  | RestoreRefused string string
  | RestoreSubmitted string
  | Restoring string
  | PresignFailed string
  | ListBucketsFailed string
  | BucketNotFound string
  | RegionFailed string string
  | RemoveFailed "string list"

section \<open>Buckets (bucket.go)\<close>

definition CreateBucket :: "'w s3 \<Rightarrow> string \<Rightarrow> 'w \<Rightarrow> string option \<times> 'w" where
  "CreateBucket A bucketName w = make_bucket A bucketName w"

definition ListBuckets :: "'w s3 \<Rightarrow> 'w \<Rightarrow> (string + BucketInfo list) \<times> 'w" where
  "ListBuckets A w = list_buckets A w"

definition BucketExists :: "'w s3 \<Rightarrow> string \<Rightarrow> 'w \<Rightarrow> (string + bool) \<times> 'w" where
  "BucketExists A bucketName w = bucket_exists A bucketName w"

definition RemoveBucket :: "'w s3 \<Rightarrow> string \<Rightarrow> 'w \<Rightarrow> string option \<times> 'w" where
  "RemoveBucket A bucketName w = remove_bucket A bucketName w"

record BucketDetail =
  bd_Name :: string
  CreationTime :: time
  Region :: string
  Versioning :: string
  bd_Policy :: string
  Encryption :: string
  Lifecycle :: string
  Tagging :: string
  Notification :: string

text \<open>An optional configuration: a failed call is logged and leaves the field empty. The library
  returns the rendered text; for encryption and lifecycle the code marshals the nil configuration
  of a failed call, which is the empty text.\<close>

definition optional_text :: "(string + string) \<times> 'w \<Rightarrow> string \<times> 'w" where
  "optional_text r = (case r of (Inr s, w) \<Rightarrow> (s, w) | (Inl _, w) \<Rightarrow> ([], w))"

definition GetBucketDetail :: "'w s3 \<Rightarrow> string \<Rightarrow> 'w \<Rightarrow> (s3_error + BucketDetail) \<times> 'w" where
  "GetBucketDetail A bucketName w =
     (case list_buckets A w of
        (Inl e, w) \<Rightarrow> (Inl (ListBucketsFailed e), w)
      | (Inr buckets, w) \<Rightarrow>
          (case find (\<lambda>b. bi_name b = bucketName) buckets of
             None \<Rightarrow> (Inl (BucketNotFound bucketName), w)
           | Some b \<Rightarrow>
               (case bucket_location A bucketName w of
                  (Inl e, w) \<Rightarrow> (Inl (RegionFailed bucketName e), w)
                | (Inr region, w) \<Rightarrow>
                    (let (versioning, w) = optional_text (bucket_versioning A bucketName w);
                         (policy, w) = optional_text (bucket_policy A bucketName w);
                         (encryption, w) = optional_text (bucket_encryption A bucketName w);
                         (lifecycle, w) = optional_text (bucket_lifecycle A bucketName w);
                         (tagging, w) = optional_text (bucket_tagging A bucketName w);
                         (notification, w) = optional_text (bucket_notification A bucketName w)
                     in (Inr \<lparr>bd_Name = bucketName, CreationTime = bi_created b, Region = region,
                           Versioning = versioning, bd_Policy = policy, Encryption = encryption,
                           Lifecycle = lifecycle, Tagging = tagging, Notification = notification\<rparr>, w)))))"

fun size_loop :: "ObjectInfo list \<Rightarrow> int64 \<Rightarrow> s3_error + int64" where
  "size_loop [] totalSize = Inr totalSize"
| "size_loop (obj # objs) totalSize =
     (case oi_err obj of Some e \<Rightarrow> Inl (Api e) | None \<Rightarrow> size_loop objs (totalSize + oi_size obj))"

definition GetBucketSize :: "'w s3 \<Rightarrow> string \<Rightarrow> 'w \<Rightarrow> (s3_error + int64) \<times> 'w" where
  "GetBucketSize A bucketName w =
     (let (objs, w) = list_objects A bucketName [] True w in (size_loop objs 0, w))"

section \<open>Listing and reading (object-list.go, object.go)\<close>

fun collect_loop :: "(ObjectInfo \<Rightarrow> bool) \<Rightarrow> ObjectInfo list \<Rightarrow> ObjectInfo list \<Rightarrow> s3_error + ObjectInfo list" where
  "collect_loop keep [] acc = Inr acc"
| "collect_loop keep (obj # objs) acc =
     (case oi_err obj of
        Some e \<Rightarrow> Inl (Api e)
      | None \<Rightarrow> collect_loop keep objs (if keep obj then acc @ [obj] else acc))"

definition ListObjects :: "'w s3 \<Rightarrow> string \<Rightarrow> string \<Rightarrow> 'w \<Rightarrow> (s3_error + ObjectInfo list) \<times> 'w" where
  "ListObjects A bucketName prefix w =
     (let (objs, w) = list_objects A bucketName prefix False w in (collect_loop (\<lambda>_. True) objs [], w))"

definition QueryObjects ::
  "'w s3 \<Rightarrow> string \<Rightarrow> string \<Rightarrow> string \<Rightarrow> 'w \<Rightarrow> (s3_error + ObjectInfo list) \<times> 'w" where
  "QueryObjects A bucketName prefix query w =
     (let (objs, w) = list_objects A bucketName prefix True w
      in (collect_loop (\<lambda>obj. contains (oi_key obj) query) objs [], w))"

definition RestoreObject :: "'w s3 \<Rightarrow> string \<Rightarrow> string \<Rightarrow> nat \<Rightarrow> 'w \<Rightarrow> string option \<times> 'w" where
  "RestoreObject A bucketName objectName days w = restore_object A bucketName objectName days w"

definition lib_result :: "(string + 'a) \<times> 'w \<Rightarrow> (s3_error + 'a) \<times> 'w" where
  "lib_result r = (case r of (Inl e, w) \<Rightarrow> (Inl (Api e), w) | (Inr x, w) \<Rightarrow> (Inr x, w))"

definition GetObject :: "'w s3 \<Rightarrow> string \<Rightarrow> string \<Rightarrow> 'w \<Rightarrow> (s3_error + string) \<times> 'w" where
  "GetObject A bucketName objectName w =
     (case stat_object A bucketName objectName w of
        (Inl e, w) \<Rightarrow> (Inl (StatFailed e), w)
      | (Inr stat, w) \<Rightarrow>
          if oi_class stat \<noteq> StorageClassCold then lib_result (get_object A bucketName objectName w)
          else (case oi_restore stat of
                  None \<Rightarrow>
                    (case RestoreObject A bucketName objectName 7 w of
                       (Some e, w) \<Rightarrow> (Inl (RestoreRefused objectName e), w)
                     | (None, w) \<Rightarrow> (Inl (RestoreSubmitted objectName), w))
                | Some ongoing \<Rightarrow>
                    if ongoing then (Inl (Restoring objectName), w)
                    else lib_result (get_object A bucketName objectName w)))"

definition PutObject ::
  "'w s3 \<Rightarrow> string \<Rightarrow> string \<Rightarrow> string \<Rightarrow> string \<Rightarrow> 'w \<Rightarrow> string option \<times> 'w" where
  "PutObject A bucketName objectName body storeClass w =
     (let storeClass = (if length storeClass < 1 then StorageClassLow else storeClass)
      in put_object A bucketName objectName body ''application/octet-stream'' storeClass w)"

definition doPresignedGetObjectURL ::
  "'w s3 \<Rightarrow> string \<Rightarrow> string \<Rightarrow> int \<Rightarrow> 'w \<Rightarrow> (s3_error + string) \<times> 'w" where
  "doPresignedGetObjectURL A bucketName objectName expiry w =
     (case presigned_get A bucketName objectName expiry w of
        (Inl e, w) \<Rightarrow> (Inl (PresignFailed e), w)
      | (Inr url, w) \<Rightarrow> (Inr url, w))"

definition PresignedGetObjectURL ::
  "'w s3 \<Rightarrow> string \<Rightarrow> string \<Rightarrow> int \<Rightarrow> 'w \<Rightarrow> (s3_error + string) \<times> 'w" where
  "PresignedGetObjectURL A bucketName objectName expiry w =
     (case stat_object A bucketName objectName w of
        (Inl e, w) \<Rightarrow> (Inl (StatFailed e), w)
      | (Inr stat, w) \<Rightarrow>
          if oi_class stat \<noteq> StorageClassCold then doPresignedGetObjectURL A bucketName objectName expiry w
          else (case oi_restore stat of
                  None \<Rightarrow>
                    (case RestoreObject A bucketName objectName 7 w of
                       (Some e, w) \<Rightarrow> (Inl (RestoreRefused objectName e), w)
                     | (None, w) \<Rightarrow> (Inl (RestoreSubmitted objectName), w))
                | Some ongoing \<Rightarrow>
                    if ongoing then (Inl (Restoring objectName), w)
                    else doPresignedGetObjectURL A bucketName objectName expiry w))"

text \<open>The public URL: the endpoint of the client with the path joined to it.\<close>

definition doGetObjectURL :: "'w s3 \<Rightarrow> string \<Rightarrow> string \<Rightarrow> string" where
  "doGetObjectURL A bucketName objectName = endpoint_url A bucketName objectName"

definition GetObjectURL :: "'w s3 \<Rightarrow> string \<Rightarrow> string \<Rightarrow> 'w \<Rightarrow> (s3_error + string) \<times> 'w" where
  "GetObjectURL A bucketName objectName w =
     (case stat_object A bucketName objectName w of
        (Inl e, w) \<Rightarrow> (Inl (StatFailed e), w)
      | (Inr stat, w) \<Rightarrow>
          if oi_class stat \<noteq> ''GLACIER'' then (Inr (doGetObjectURL A bucketName objectName), w)
          else (case oi_restore stat of
                  None \<Rightarrow>
                    (case RestoreObject A bucketName objectName 1 w of
                       (Some e, w) \<Rightarrow> (Inl (RestoreRefused objectName e), w)
                     | (None, w) \<Rightarrow> (Inl (RestoreSubmitted objectName), w))
                | Some ongoing \<Rightarrow>
                    if ongoing then (Inl (Restoring objectName), w)
                    else (Inr (doGetObjectURL A bucketName objectName), w)))"

definition StateObject :: "'w s3 \<Rightarrow> string \<Rightarrow> string \<Rightarrow> 'w \<Rightarrow> (string + ObjectInfo) \<times> 'w" where
  "StateObject A bucketName objectName w = stat_object A bucketName objectName w"

text \<open>The loop over a listing that asks for the restore of every cold object: count and last listing
  error.\<close>

fun restore_loop ::
  "'w s3 \<Rightarrow> string \<Rightarrow> nat \<Rightarrow> ObjectInfo list \<Rightarrow> nat \<Rightarrow> string option \<Rightarrow> 'w \<Rightarrow> (nat \<times> string option) \<times> 'w" where
  "restore_loop A bucketName lifeDay [] count err w = ((count, err), w)"
| "restore_loop A bucketName lifeDay (object # objs) count err w =
     (case oi_err object of
        Some e \<Rightarrow> restore_loop A bucketName lifeDay objs count (Some e) w
      | None \<Rightarrow>
          if oi_class object = ''GLACIER'' then
            (let (restoreErr, w) = RestoreObject A bucketName (oi_key object) lifeDay w
             in restore_loop A bucketName lifeDay objs (count + 1) err w)
          else restore_loop A bucketName lifeDay objs count err w)"

definition RestoreObjectsLife ::
  "'w s3 \<Rightarrow> string \<Rightarrow> string \<Rightarrow> nat \<Rightarrow> 'w \<Rightarrow> (nat \<times> string option) \<times> 'w" where
  "RestoreObjectsLife A bucketName prefix lifeDay w =
     (let prefix = (if length prefix = 0 then ''/'' else prefix);
          objectPrefix = trim_prefix prefix ''/'';
          (objs, w) = list_objects A bucketName objectPrefix True w
      in restore_loop A bucketName lifeDay objs 0 None w)"

section \<open>Removing (remove.go, clear.go)\<close>

definition RemoveObject :: "'w s3 \<Rightarrow> string \<Rightarrow> string \<Rightarrow> 'w \<Rightarrow> string option \<times> 'w" where
  "RemoveObject A bucketName objectName w = remove_object A bucketName objectName w"

definition remove_errors :: "RemoveResult list \<Rightarrow> string list" where
  "remove_errors rs = concat (map (\<lambda>r. case rr_err r of
     Some e \<Rightarrow> [''Failed to remove '' @ rr_name r @ '': '' @ e] | None \<Rightarrow> []) rs)"

text \<open>The producer stops at the first listing error; what it sent before is removed.\<close>

definition RemoveObjectsByPrefix :: "'w s3 \<Rightarrow> string \<Rightarrow> string \<Rightarrow> 'w \<Rightarrow> s3_error option \<times> 'w" where
  "RemoveObjectsByPrefix A bucketName prefix w =
     (let (objs, w) = list_objects A bucketName prefix True w;
          keys = map oi_key (takeWhile (\<lambda>obj. oi_err obj = None) objs);
          (results, w) = remove_objects A bucketName keys w;
          errMsgs = remove_errors results
      in (if 0 < length errMsgs then Some (RemoveFailed errMsgs) else None, w))"

text \<open>\<open>midnight\<close> maps a time to the start of its local day. The number of days is the duration in
  hours over 24, cut off.\<close>

definition day_ns :: int where
  "day_ns = 24 * 3600 * 1000000000"

definition days_passed :: "(time \<Rightarrow> time) \<Rightarrow> time \<Rightarrow> time \<Rightarrow> int" where
  "days_passed midnight now t = tdiv (midnight now - midnight t) day_ns"

definition expired_objects :: "(time \<Rightarrow> time) \<Rightarrow> time \<Rightarrow> int \<Rightarrow> ObjectInfo list \<Rightarrow> ObjectInfo list" where
  "expired_objects midnight now lifeDay objs =
     filter (\<lambda>obj. oi_err obj = None \<and> lifeDay \<le> days_passed midnight now (oi_modified obj)) objs"

text \<open>The line of the report for a removed object.\<close>

definition removed_line :: "string \<Rightarrow> string" where
  "removed_line n = encode [9989, 32, 21024, 38500, 23545, 35937, 58, 32] @ n"

definition removed_report :: "RemoveResult list \<Rightarrow> string" where
  "removed_report rs =
     join (map (removed_line \<circ> rr_name) (filter (\<lambda>r. rr_err r = None) rs)) [char_of (10 :: nat)]"

definition RemoveExpiredObjectsByPrefix ::
  "'w s3 \<Rightarrow> (time \<Rightarrow> time) \<Rightarrow> time \<Rightarrow> string \<Rightarrow> string \<Rightarrow> int \<Rightarrow> 'w
   \<Rightarrow> (string \<times> s3_error option) \<times> 'w" where
  "RemoveExpiredObjectsByPrefix A midnight now bucketName prefix lifeDay w =
     (let prefix = trim_prefix prefix ''/'';
          (objs, w) = list_objects A bucketName prefix True w;
          keys = map oi_key (expired_objects midnight now lifeDay objs);
          (results, w) = remove_objects A bucketName keys w;
          errMsgs = remove_errors results
      in ((removed_report results, if 0 < length errMsgs then Some (RemoveFailed errMsgs) else None), w))"

definition ListIncompleteUploads :: "'w s3 \<Rightarrow> string \<Rightarrow> string \<Rightarrow> 'w \<Rightarrow> (s3_error + ObjectInfo list) \<times> 'w" where
  "ListIncompleteUploads A bucketName prefix w =
     (let (objs, w) = list_incomplete A bucketName prefix w in (collect_loop (\<lambda>_. True) objs [], w))"

fun incomplete_loop :: "'w s3 \<Rightarrow> string \<Rightarrow> ObjectInfo list \<Rightarrow> 'w \<Rightarrow> string option \<times> 'w" where
  "incomplete_loop A bucketName [] w = (None, w)"
| "incomplete_loop A bucketName (obj # objs) w =
     (case oi_err obj of
        Some e \<Rightarrow> (Some e, w)
      | None \<Rightarrow>
          (case remove_incomplete A bucketName (oi_key obj) w of
             (Some e, w) \<Rightarrow> (Some e, w)
           | (None, w) \<Rightarrow> incomplete_loop A bucketName objs w))"

definition RemoveIncompleteUpload :: "'w s3 \<Rightarrow> string \<Rightarrow> string \<Rightarrow> 'w \<Rightarrow> string option \<times> 'w" where
  "RemoveIncompleteUpload A bucketName prefix w =
     (let (objs, w) = list_incomplete A bucketName prefix w in incomplete_loop A bucketName objs w)"

definition ClearPrefix :: "'w s3 \<Rightarrow> string \<Rightarrow> string \<Rightarrow> 'w \<Rightarrow> s3_error option \<times> 'w" where
  "ClearPrefix A bucketName prefix w =
     (let (objs, w) = list_incomplete A bucketName prefix w in
      case incomplete_loop A bucketName objs w of
        (Some e, w) \<Rightarrow> (Some (Api e), w)
      | (None, w) \<Rightarrow> RemoveObjectsByPrefix A bucketName prefix w)"

section \<open>Connecting (s3.go)\<close>

text \<open>\<open>minio.New\<close> is the argument \<open>new\<close>: the endpoint, the credentials and whether TLS is used.\<close>

record static_v4 =
  cred_id :: string
  cred_secret :: string
  cred_token :: string

record 'c Client =
  minioClient :: 'c

definition NewClient ::
  "(string \<Rightarrow> static_v4 \<Rightarrow> bool \<Rightarrow> 'e + 'c) \<Rightarrow> string \<Rightarrow> string \<Rightarrow> string \<Rightarrow> bool \<Rightarrow> 'e + 'c Client" where
  "NewClient new endpoint accessKeyID secretAccessKey useSSL =
     (case new endpoint \<lparr>cred_id = accessKeyID, cred_secret = secretAccessKey, cred_token = []\<rparr> useSSL of
        Inl err \<Rightarrow> Inl err
      | Inr c \<Rightarrow> Inr \<lparr>minioClient = c\<rparr>)"

definition Close :: "'c Client \<Rightarrow> 'e option" where
  "Close c = None"

section \<open>File information (config.go, file.go)\<close>

text \<open>\<open>marshal\<close> is the JSON encoder.\<close>

definition ObjectInfoToBytes :: "(ObjectInfo \<Rightarrow> 'e + string) \<Rightarrow> ObjectInfo \<Rightarrow> 'e + string" where
  "ObjectInfoToBytes marshal info =
     (case marshal info of
        Inl err \<Rightarrow> Inl err
      | Inr jsonBytes \<Rightarrow> Inr jsonBytes)"

record fileInfo =
  objectInfo :: ObjectInfo

definition NewFileInfo :: "ObjectInfo \<Rightarrow> fileInfo" where
  "NewFileInfo info = \<lparr>objectInfo = info\<rparr>"

definition fi_Name :: "fileInfo \<Rightarrow> string" where "fi_Name f = oi_key (objectInfo f)"
definition fi_Size :: "fileInfo \<Rightarrow> int64" where "fi_Size f = oi_size (objectInfo f)"
definition fi_Mode :: "fileInfo \<Rightarrow> uint32" where "fi_Mode f = 0"
definition fi_ModTime :: "fileInfo \<Rightarrow> time" where "fi_ModTime f = oi_modified (objectInfo f)"
definition fi_IsDir :: "fileInfo \<Rightarrow> bool" where "fi_IsDir f = has_suffix (fi_Name f) ''/''"

text \<open>\<open>Sys\<close> returns the \<open>minio.ObjectInfo\<close>, together with the type name its reflection shows.\<close>

definition fi_Sys :: "fileInfo \<Rightarrow> string \<times> ObjectInfo" where
  "fi_Sys f = (''minio.ObjectInfo'', objectInfo f)"

record FileId =
  volumeId :: uint32
  fileKey :: "64 word"
  cookie :: uint32

record FileChunk =
  fc_FileId :: string
  fc_Offset :: int64
  fc_Size :: int64
  fc_Mtime :: int64
  fc_ETag :: string
  fc_Fid :: FileId

record Entries =
  Mtime :: time
  Crtime :: time
  Mode :: uint32
  Uid :: uint32
  Gid :: uint32
  e_Mime :: string
  Replication :: string
  Collection :: string
  TtlSec :: "32 word"
  e_UserName :: string
  GroupNames :: "string list"
  SymlinkTarget :: string
  Md5 :: string
  FileSize :: int64
  Extended :: "string \<rightharpoonup> string"
  FullPath :: string
  Chunks :: "FileChunk list"
  IsDirectory :: bool
  Type :: string
  Name :: string
  URLDir :: string
  StorageClass :: string
  Restore :: string

text \<open>The zero value; \<open>z\<close> is the zero \<open>time.Time\<close>.\<close>

definition zero_entries :: "time \<Rightarrow> Entries" where
  "zero_entries z = \<lparr>Mtime = z, Crtime = z, Mode = 0, Uid = 0, Gid = 0, e_Mime = [], Replication = [],
     Collection = [], TtlSec = 0, e_UserName = [], GroupNames = [], SymlinkTarget = [], Md5 = [],
     FileSize = 0, Extended = Map.empty, FullPath = [], Chunks = [], IsDirectory = False, Type = [],
     Name = [], URLDir = [], StorageClass = [], Restore = []\<rparr>"

record S3Config =
  Endpoint :: string
  AccessKeyID :: string
  SecretAccessKey :: string
  s3_Region :: string
  Bucket :: string
  Secure :: bool
  Ignore :: string
  Dir :: string
  CacheDir :: string
  ConfigFile :: string
  LogFile :: string

datatype DirBody = DirBody (db_Label: string) (db_Children: "DirBody list") (db_Icon: string) (db_Dir: string)

record DirInfo =
  di_Path :: string
  di_Entries :: "Entries list"
  di_Limit :: int64
  LastFileName :: string

record StringEquals =
  Class :: "string list"

record Principal =
  AWS :: "string list"

record S3Condition =
  sc_StringEquals :: StringEquals

record Statement =
  Sid :: string
  Effect :: string
  st_Principal :: Principal
  Action :: string
  Resource :: string
  st_Condition :: S3Condition

record Policy =
  Version :: string
  p_Statement :: "Statement list"

definition folder_text :: string where
  "folder_text = encode [25991, 20214, 22841]"

definition GetInfo :: "time \<Rightarrow> string \<Rightarrow> string \<Rightarrow> fileInfo \<Rightarrow> Entries" where
  "GetInfo z pathStr urls v =
     (let name = trim_slashes (fi_Name v);
          fullPath = (if pathStr \<noteq> ''/'' then pathStr @ ''/'' @ name else ''/'' @ name);
          isDir = fi_IsDir v;
          ext = path_ext name;
          (sysType, ob) = fi_Sys v
      in (zero_entries z)\<lparr>FileSize := fi_Size v, IsDirectory := isDir, Mode := fi_Mode v,
           Mtime := fi_ModTime v, Name := name, FullPath := fullPath, URLDir := urls @ fullPath,
           Type := (if isDir then folder_text else if 0 < length ext then drop 1 ext else ext),
           StorageClass := (if sysType = ''s3.Object'' then oi_class ob else [])\<rparr>)"

record FilePrefix =
  fp_Key :: string
  fp_Name :: string
  fp_Pid :: string
  fp_Time :: time
  fp_Size :: int64

definition ArrayToString :: "string list \<Rightarrow> string" where
  "ArrayToString arr = fold (\<lambda>i result. result @ i @ ''/'') arr []"

text \<open>The lookup \<open>arrays.Contains\<close> of another module is the argument \<open>index\<close>; \<open>zero_time\<close> is the zero
  \<open>time.Time\<close> of a fresh entry.\<close>

definition prefix_entry :: "time \<Rightarrow> string list \<Rightarrow> nat \<Rightarrow> FilePrefix" where
  "prefix_entry zero_time s i =
     (let pid = (if i = 0 then ''/'' else ArrayToString (take i s))
      in \<lparr>fp_Key = pid @ s ! i, fp_Name = s ! i @ ''/'', fp_Pid = pid, fp_Time = zero_time, fp_Size = 0\<rparr>)"

fun prefix_loop ::
  "(FilePrefix list \<Rightarrow> FilePrefix \<Rightarrow> int) \<Rightarrow> time \<Rightarrow> string list \<Rightarrow> nat list \<Rightarrow> FilePrefix list \<Rightarrow> FilePrefix list" where
  "prefix_loop index z s [] ld = ld"
| "prefix_loop index z s (i # is) ld =
     (let td = prefix_entry z s i in if index ld td < 0 then ld @ [td] else prefix_loop index z s is ld)"

definition getFilePrefix ::
  "(FilePrefix list \<Rightarrow> FilePrefix \<Rightarrow> int) \<Rightarrow> time \<Rightarrow> string \<Rightarrow> FilePrefix list \<Rightarrow> FilePrefix list" where
  "getFilePrefix index z dirctory ld =
     (let s = split_char (CHR ''/'') dirctory in prefix_loop index z s [0..<length s] ld)"

section \<open>Lemmas\<close>

text \<open>The common shape of the three ways to reach an object: what may be read, and how many days a
  restore is asked for.\<close>

definition readable :: "ObjectInfo \<Rightarrow> bool" where
  "readable stat \<longleftrightarrow> oi_class stat \<noteq> StorageClassCold \<or> oi_restore stat = Some False"

definition guarded ::
  "'w s3 \<Rightarrow> nat \<Rightarrow> ('w \<Rightarrow> (s3_error + 'a) \<times> 'w) \<Rightarrow> string \<Rightarrow> string \<Rightarrow> 'w \<Rightarrow> (s3_error + 'a) \<times> 'w" where
  "guarded A days act b n w =
     (case stat_object A b n w of
        (Inl e, w) \<Rightarrow> (Inl (StatFailed e), w)
      | (Inr stat, w) \<Rightarrow>
          if readable stat then act w
          else if oi_restore stat = None then
            (let (e, w) = restore_object A b n days w
             in (Inl (case e of Some e \<Rightarrow> RestoreRefused n e | None \<Rightarrow> RestoreSubmitted n), w))
          else (Inl (Restoring n), w))"

lemmas access_defs = guarded_def readable_def RestoreObject_def StorageClassCold_def

lemma restore_loop_count:
  "fst (restore_loop A b d objs n e w)
   = (n + length (filter (\<lambda>obj. oi_err obj = None \<and> oi_class obj = ''GLACIER'') objs),
      case filter (\<lambda>x. x \<noteq> None) (map oi_err objs) of [] \<Rightarrow> e | es \<Rightarrow> last es)"
  by (induction A b d objs n e w rule: restore_loop.induct)
     (auto simp: Let_def split: option.splits prod.splits list.splits)

lemma collect_loop_ok:
  "list_all (\<lambda>obj. oi_err obj = None) objs \<Longrightarrow> collect_loop keep objs acc = Inr (acc @ filter keep objs)"
  by (induction objs arbitrary: acc) auto

lemma size_loop_ok:
  "list_all (\<lambda>obj. oi_err obj = None) objs \<Longrightarrow> size_loop objs n = Inr (n + sum_list (map oi_size objs))"
  by (induction objs arbitrary: n) (auto simp: add.assoc)

lemma prefix_loop_one: "prefix_loop index z s is ld = ld
    \<or> (\<exists>i \<in> set is. index ld (prefix_entry z s i) < 0 \<and> prefix_loop index z s is ld = ld @ [prefix_entry z s i])"
  by (induction "is") (auto simp: Let_def)

section \<open>Properties\<close>


text \<open>\<open>RestoreObjectsLife\<close> reports as restored every cold object of the listing, whatever the
  store answers to the restore requests, and returns no error when all of them failed.\<close>

theorem RestoreObjectsLife_counts_requests:
  assumes "list_objects A b (trim_prefix (if prefix = [] then ''/'' else prefix) ''/'') True w = (objs, w')"
    and "list_all (\<lambda>obj. oi_err obj = None) objs"
  shows "fst (RestoreObjectsLife A b prefix days w)
       = (length (filter (\<lambda>obj. oi_class obj = ''GLACIER'') objs), None)"
proof -
  have "filter (\<lambda>x. x \<noteq> None) (map oi_err objs) = []"
    and "filter (\<lambda>obj. oi_err obj = None \<and> oi_class obj = ''GLACIER'') objs = filter (\<lambda>obj. oi_class obj = ''GLACIER'') objs"
    using assms(2) by (induction objs) auto
  with assms(1) show ?thesis
    by (simp add: RestoreObjectsLife_def restore_loop_count)
qed

definition cold_object :: ObjectInfo where
  "cold_object = \<lparr>oi_key = ''a'', oi_size = 3, oi_modified = 0, oi_class = ''GLACIER'',
     oi_restore = None, oi_err = None\<rparr>"

text \<open>A store with one cold object that refuses every restore; it counts the requests.\<close>

definition refusing :: "nat s3" where
  "refusing = \<lparr>make_bucket = (\<lambda>_ w. (None, w)), remove_bucket = (\<lambda>_ w. (None, w)),
     bucket_exists = (\<lambda>_ w. (Inr True, w)), list_buckets = (\<lambda>w. (Inr [], w)),
     bucket_location = (\<lambda>_ w. (Inr [], w)), bucket_versioning = (\<lambda>_ w. (Inr [], w)),
     bucket_policy = (\<lambda>_ w. (Inr [], w)), bucket_encryption = (\<lambda>_ w. (Inr [], w)),
     bucket_lifecycle = (\<lambda>_ w. (Inr [], w)), bucket_tagging = (\<lambda>_ w. (Inr [], w)),
     bucket_notification = (\<lambda>_ w. (Inr [], w)), list_objects = (\<lambda>_ _ _ w. ([cold_object], w)),
     stat_object = (\<lambda>_ _ w. (Inr cold_object, w)), get_object = (\<lambda>_ _ w. (Inr ''data'', w)),
     put_object = (\<lambda>_ _ _ _ _ w. (None, w)), remove_object = (\<lambda>_ _ w. (None, w)),
     remove_objects = (\<lambda>_ ks w. (map (\<lambda>k. \<lparr>rr_name = k, rr_err = None\<rparr>) ks, w)),
     restore_object = (\<lambda>_ _ _ w. (Some ''denied'', w + 1)), presigned_get = (\<lambda>_ _ _ w. (Inr [], w)),
     endpoint_url = (\<lambda>_ _. []), list_incomplete = (\<lambda>_ _ w. ([], w)), remove_incomplete = (\<lambda>_ _ w. (None, w))\<rparr>"

theorem RestoreObjectsLife_counts_requests_witness:
  "fst (RestoreObjectsLife refusing ''b'' [] 7 0) = (1, None)"
  using RestoreObjectsLife_counts_requests [of refusing "''b''" "[]" 0 "[cold_object]" 0 7]
  by (simp add: refusing_def cold_object_def)

text \<open>The storage class of an object never reaches its entry: \<open>GetInfo\<close> looks for a value of the
  type \<open>s3.Object\<close>, and \<open>Sys\<close> of the package's own file information returns another type.\<close>

theorem GetInfo_no_storage_class:
  "StorageClass (GetInfo z pathStr urls (NewFileInfo info)) = []
   \<and> FileSize (GetInfo z pathStr urls (NewFileInfo info)) = oi_size info
   \<and> (IsDirectory (GetInfo z pathStr urls (NewFileInfo info)) \<longleftrightarrow> has_suffix (oi_key info) ''/'')"
  by (simp add: GetInfo_def fi_Sys_def Let_def NewFileInfo_def fi_Size_def fi_IsDir_def fi_Name_def)

text \<open>\<open>RemoveExpiredObjectsByPrefix\<close> asks the store to remove exactly the listed objects that are
  at least \<open>lifeDay\<close> days old, skipping entries with a listing error, while
  \<open>RemoveObjectsByPrefix\<close> stops at the first such entry and removes what came before it, without
  reporting the listing error.\<close>

theorem removal_selects:
  assumes "list_objects A b prefix True w = (objs, w1)" "\<not> has_prefix prefix ''/''"
  shows "snd (RemoveExpiredObjectsByPrefix A midnight now b prefix days w)
        = snd (remove_objects A b (map oi_key (filter (\<lambda>obj. oi_err obj = None
             \<and> days \<le> days_passed midnight now (oi_modified obj)) objs)) w1)
    \<and> RemoveObjectsByPrefix A b prefix w
        = (let (rs, w2) = remove_objects A b (map oi_key (takeWhile (\<lambda>obj. oi_err obj = None) objs)) w1
           in (if list_all (\<lambda>r. rr_err r = None) rs then None else Some (RemoveFailed (remove_errors rs)), w2))"
proof -
  have ne: "remove_errors rs = [] \<longleftrightarrow> list_all (\<lambda>r. rr_err r = None) rs" for rs
    by (induction rs) (auto simp: remove_errors_def split: option.splits)
  show ?thesis
    using assms
    by (auto simp: RemoveExpiredObjectsByPrefix_def RemoveObjectsByPrefix_def trim_prefix_def
        expired_objects_def Let_def ne split: prod.splits)
qed

theorem removal_selects_witness:
  "RemoveObjectsByPrefix refusing ''b'' ''x'' 0 = (None, 0)"
  using removal_selects [of refusing "''b''" "''x''" 0 "[cold_object]" 0 id 0 1]
  by (simp add: refusing_def cold_object_def has_prefix_def)

end
