(* ===== verification/GormLogger.thy ===== *)
theory GormLogger
  imports GoStrings
begin

text \<open>
  The gorm logger of \<open>gormx/logger/logger.go\<close>. The levels of gorm are ordered from silent to info.
  A call to the logging library is the line it writes: which of its functions, the format and what
  fills it; the caller's position and the rendering belong to the library.
\<close>

section \<open>Levels\<close>

datatype log_level = Silent | Error | Warn | Info

text \<open>The numbers gorm gives its levels.\<close>

fun level_num :: "log_level \<Rightarrow> nat" where
  "level_num Silent = 1"
| "level_num Error = 2"
| "level_num Warn = 3"
| "level_num Info = 4"

lemma level_num_inject [simp]: "level_num a = level_num b \<longleftrightarrow> a = b"
  by (cases a; cases b) simp_all

text \<open>
  The guards \<open>l.LogLevel >= level\<close> compare these numbers: the order of the type is theirs, so that
  the operations below read as the code does.
\<close>

instantiation log_level :: linorder
begin

definition less_eq_log_level :: "log_level \<Rightarrow> log_level \<Rightarrow> bool" where
  "less_eq_log_level a b \<longleftrightarrow> level_num a \<le> level_num b"

definition less_log_level :: "log_level \<Rightarrow> log_level \<Rightarrow> bool" where
  "less_log_level a b \<longleftrightarrow> level_num a < level_num b"

instance
  by standard (auto simp: less_eq_log_level_def less_log_level_def)

end

lemmas level_le = less_eq_log_level_def less_log_level_def

section \<open>Model\<close>

record log_config =
  SlowThreshold :: int64
  Colorful :: bool
  IgnoreRecordNotFoundError :: bool
  LogLevel :: log_level

record logger =
  config :: log_config
  infoStr :: string
  warnStr :: string
  errStr :: string
  traceStr :: string
  traceErrStr :: string
  traceWarnStr :: string

text \<open>The colour codes of gorm are the argument \<open>K\<close>.\<close>

record colours =
  Reset :: string
  Red :: string
  Green :: string
  Yellow :: string
  Magenta :: string
  BlueBold :: string
  RedBold :: string
  MagentaBold :: string

definition nl :: string where
  "nl = [char_of (10 :: nat)]"

definition NewZeroLog :: "colours \<Rightarrow> log_config \<Rightarrow> logger" where
  "NewZeroLog K cfg =
     (if Colorful cfg then
        \<lparr>config = cfg,
         infoStr = Green K @ ''%s'' @ nl @ Reset K @ Green K @ ''[info] '' @ Reset K,
         warnStr = BlueBold K @ ''%s'' @ nl @ Reset K @ Magenta K @ ''[warn] '' @ Reset K,
         errStr = Magenta K @ ''%s'' @ nl @ Reset K @ Red K @ ''[error] '' @ Reset K,
         traceStr = Green K @ ''%s'' @ nl @ Reset K @ Yellow K @ ''[%.3fms] '' @ BlueBold K
           @ ''[rows:%v]'' @ Reset K @ '' %s'',
         traceErrStr = RedBold K @ ''%s '' @ MagentaBold K @ ''%s'' @ nl @ Reset K @ Yellow K
           @ ''[%.3fms] '' @ BlueBold K @ ''[rows:%v]'' @ Reset K @ '' %s'',
         traceWarnStr = Green K @ ''%s '' @ Yellow K @ ''%s'' @ nl @ Reset K @ RedBold K
           @ ''[%.3fms] '' @ Yellow K @ ''[rows:%v]'' @ Magenta K @ '' %s'' @ Reset K\<rparr>
      else
        \<lparr>config = cfg,
         infoStr = ''%s'' @ nl @ ''[info] '',
         warnStr = ''%s'' @ nl @ ''[warn] '',
         errStr = ''%s'' @ nl @ ''[error] '',
         traceStr = ''%s'' @ nl @ ''[%.3fms] [rows:%v] %s'',
         traceErrStr = ''%s %s'' @ nl @ ''[%.3fms] [rows:%v] %s'',
         traceWarnStr = ''%s %s'' @ nl @ ''[%.3fms] [rows:%v] %s''\<rparr>)"

definition LogMode :: "log_level \<Rightarrow> logger \<Rightarrow> logger" where
  "LogMode level l = l\<lparr>config := (config l)\<lparr>LogLevel := level\<rparr>\<rparr>"

text \<open>\<open>Infof\<close>, \<open>Slowf\<close> and \<open>Errorf\<close> of the logging library with a format and a message.\<close>

datatype sink = Infof | Slowf | Errorf

definition log_Info :: "logger \<Rightarrow> string \<Rightarrow> (sink \<times> string) option" where
  "log_Info l msg = (if LogLevel (config l) \<ge> Info then Some (Infof, infoStr l @ msg) else None)"

definition log_Warn :: "logger \<Rightarrow> string \<Rightarrow> (sink \<times> string) option" where
  "log_Warn l msg = (if LogLevel (config l) \<ge> Warn then Some (Slowf, warnStr l @ msg) else None)"

definition log_Error :: "logger \<Rightarrow> string \<Rightarrow> (sink \<times> string) option" where
  "log_Error l msg = (if LogLevel (config l) \<ge> Error then Some (Errorf, errStr l @ msg) else None)"

text \<open>A traced line: the format, the note (the error or the slow threshold), the elapsed time, the rows
  (\<open>None\<close> for the dash) and the statement.\<close>

record trace_line =
  tl_sink :: sink
  tl_format :: string
  tl_note :: "string option"
  tl_elapsed :: int64
  tl_rows :: "int64 option"
  tl_sql :: string

definition rows_shown :: "int64 \<Rightarrow> int64 option" where
  "rows_shown rows = (if rows = - 1 then None else Some rows)"

text \<open>The error is given by its text and by whether it is gorm's \<open>ErrRecordNotFound\<close>; \<open>dur\<close> renders
  a duration.\<close>

definition Trace ::
  "(int64 \<Rightarrow> string) \<Rightarrow> logger \<Rightarrow> int64 \<Rightarrow> string \<times> int64 \<Rightarrow> (string \<times> bool) option \<Rightarrow> trace_line option" where
  "Trace dur l elapsed fc err =
     (let cfg = config l; (sql, rows) = fc in
      if LogLevel cfg \<le> Silent then None
      else if (case err of None \<Rightarrow> False
               | Some (_, notFound) \<Rightarrow> LogLevel cfg \<ge> Error
                   \<and> (\<not> IgnoreRecordNotFoundError cfg \<or> \<not> notFound))
      then Some \<lparr>tl_sink = Errorf, tl_format = traceErrStr l, tl_note = map_option fst err,
             tl_elapsed = elapsed, tl_rows = rows_shown rows, tl_sql = sql\<rparr>
      else if sint elapsed > sint (SlowThreshold cfg) \<and> SlowThreshold cfg \<noteq> 0 \<and> LogLevel cfg \<ge> Warn
      then Some \<lparr>tl_sink = Slowf, tl_format = traceWarnStr l,
             tl_note = Some (''SLOW SQL >= '' @ dur (SlowThreshold cfg)),
             tl_elapsed = elapsed, tl_rows = rows_shown rows, tl_sql = sql\<rparr>
      else if LogLevel cfg = Info
      then Some \<lparr>tl_sink = Infof, tl_format = traceStr l, tl_note = None,
             tl_elapsed = elapsed, tl_rows = rows_shown rows, tl_sql = sql\<rparr>
      else None)"

section \<open>Lemmas\<close>

lemma Trace_silent: "LogLevel (config l) = Silent \<Longrightarrow> Trace dur l elapsed fc err = None"
  by (simp add: Trace_def Let_def split: prod.splits)

lemma Trace_config:
  "LogLevel (config (LogMode level l)) = level" "infoStr (LogMode level l) = infoStr l"
  by (simp_all add: LogMode_def)

section \<open>Properties\<close>

text \<open>Raising the level never loses a line and never changes one: what \<open>Trace\<close> writes at a level it
  writes at every higher one, and at the highest level every statement is traced.\<close>

theorem Trace_monotone:
  assumes "Trace dur (LogMode a l) elapsed fc err = Some line" "a \<le> b"
  shows "Trace dur (LogMode b l) elapsed fc err = Some line
       \<and> Trace dur (LogMode Info l) elapsed fc err \<noteq> None
       \<and> (tl_sink line = Errorf \<longleftrightarrow> err \<noteq> None
            \<and> \<not> (IgnoreRecordNotFoundError (config l) \<and> snd (the err)))"
proof -
  obtain sql rows where fc: "fc = (sql, rows)" by (cases fc)
  show ?thesis
    using assms unfolding fc
    by (cases a; cases b; cases err)
       (auto simp: Trace_def LogMode_def level_le Let_def split: if_splits prod.splits)
qed

definition plain_logger :: logger where
  "plain_logger = NewZeroLog \<lparr>Reset = [], Red = [], Green = [], Yellow = [], Magenta = [], BlueBold = [],
       RedBold = [], MagentaBold = []\<rparr>
     \<lparr>SlowThreshold = 1000, Colorful = False, IgnoreRecordNotFoundError = True, LogLevel = Warn\<rparr>"

theorem Trace_monotone_witness:
  "\<exists>line. Trace (\<lambda>_. ''1s'') (LogMode Error plain_logger) 5 (''SELECT 1'', 1) (Some (''bad'', False)) = Some line
     \<and> Trace (\<lambda>_. ''1s'') (LogMode Info plain_logger) 5 (''SELECT 1'', 1) (Some (''bad'', False)) = Some line"
proof -
  have "\<exists>line. Trace (\<lambda>_. ''1s'') (LogMode Error plain_logger) 5 (''SELECT 1'', 1) (Some (''bad'', False)) = Some line"
    by (simp add: Trace_def LogMode_def plain_logger_def NewZeroLog_def level_le)
  then obtain line where l: "Trace (\<lambda>_. ''1s'') (LogMode Error plain_logger) 5 (''SELECT 1'', 1) (Some (''bad'', False)) = Some line" ..
  have "Error \<le> Info" by (simp add: level_le)
  from Trace_monotone [OF l this] l show ?thesis by blast
qed

end
