(* ===== verification/Configx.thy ===== *)
theory Configx
  imports GormLogger GoPath
begin

text \<open>
  The package \<open>gormx/configx\<close>: the configurations of the three databases, the connection each one
  opens and the choice by driver (\<open>config.go\<close>, \<open>mysql_config.go\<close>, \<open>pg_config.go\<close>,
  \<open>sqllite.go\<close>). What is handed to \<open>gorm.Open\<close> is a value of type \<open>open_request\<close>; whether it
  succeeds is the parameter \<open>opens\<close>. The three configurations implement one interface, which is the
  locale \<open>gorm_log_config\<close>.
\<close>

section \<open>Configurations\<close>

definition MySQL :: string where "MySQL = ''mysql''"
definition Postgres :: string where "Postgres = ''postgres''"
definition MongoDB :: string where "MongoDB = ''mongodb''"
definition Sqlite :: string where "Sqlite = ''sqlite''"

definition AllDBTypes :: "string list" where
  "AllDBTypes = [MySQL, Postgres, Sqlite]"

record DbConf =
  Driver :: string
  Host :: string
  Port :: int64
  Dbname :: string
  Username :: string
  Password :: string
  TimeZone :: string
  SslMode :: string
  Config :: string
  MaxIdleConns :: int64
  MaxOpenConns :: int64
  LogMode :: string
  LogColorful :: bool
  conf_SlowThreshold :: int64
  Schema :: string
  TablePrefix :: string

record Mysql =
  my_Driver :: string
  my_Host :: string
  my_Port :: int64
  my_Dbname :: string
  my_Username :: string
  my_Password :: string
  my_Config :: string
  my_MaxIdleConns :: int64
  my_MaxOpenConns :: int64
  my_LogMode :: string
  my_LogColorful :: bool
  my_SlowThreshold :: int64

record PgSql =
  pg_Driver :: string
  pg_Host :: string
  pg_Port :: int64
  pg_Username :: string
  pg_Password :: string
  pg_Dbname :: string
  pg_TimeZone :: string
  pg_SslMode :: string
  pg_MaxIdleConns :: int64
  pg_MaxOpenConns :: int64
  pg_LogMode :: string
  pg_LogColorful :: bool
  pg_SlowThreshold :: int64
  pg_Schema :: string

record Sqlite3 =
  sq_Driver :: string
  sq_Host :: string
  sq_Username :: string
  sq_Password :: string
  sq_Dbname :: string
  sq_TimeZone :: string
  sq_SslMode :: string
  sq_MaxIdleConns :: int64
  sq_MaxOpenConns :: int64
  sq_LogMode :: string
  sq_LogColorful :: bool
  sq_SlowThreshold :: int64
  sq_Schema :: string

text \<open>The zero values of the fields that a composite literal leaves out.\<close>

definition mysql_of :: "DbConf \<Rightarrow> Mysql" where
  "mysql_of conf =
     \<lparr>my_Driver = Driver conf, my_Host = Host conf, my_Port = Port conf, my_Dbname
       = Dbname conf, my_Username = Username conf, my_Password = Password conf, my_Config
       = Config conf, my_MaxIdleConns = MaxIdleConns conf, my_MaxOpenConns = MaxOpenConns
       conf, my_LogMode = LogMode conf, my_LogColorful = LogColorful conf,
       my_SlowThreshold = conf_SlowThreshold conf\<rparr>"

definition pgsql_of :: "DbConf \<Rightarrow> PgSql" where
  "pgsql_of conf =
     \<lparr>pg_Driver = Driver conf, pg_Host = Host conf, pg_Port = Port conf,
       pg_Username = Username conf, pg_Password = Password conf, pg_Dbname = Dbname conf,
       pg_TimeZone = TimeZone conf, pg_SslMode = SslMode conf, pg_MaxIdleConns =
       MaxIdleConns conf, pg_MaxOpenConns = MaxOpenConns conf, pg_LogMode = LogMode conf,
       pg_LogColorful = LogColorful conf, pg_SlowThreshold = conf_SlowThreshold conf,
       pg_Schema = []\<rparr>"

definition pgsql_with_schema_of :: "DbConf \<Rightarrow> PgSql" where
  "pgsql_with_schema_of conf =
     \<lparr>pg_Driver = Driver conf, pg_Host = Host conf, pg_Port = Port conf,
       pg_Username = Username conf, pg_Password = Password conf, pg_Dbname = Dbname conf,
       pg_TimeZone = TimeZone conf, pg_SslMode = SslMode conf, pg_MaxIdleConns =
       MaxIdleConns conf, pg_MaxOpenConns = MaxOpenConns conf, pg_LogMode = LogMode conf,
       pg_LogColorful = LogColorful conf, pg_SlowThreshold = conf_SlowThreshold conf,
       pg_Schema = Schema conf\<rparr>"

definition sqlite_of :: "DbConf \<Rightarrow> Sqlite3" where
  "sqlite_of conf =
     \<lparr>sq_Driver = Driver conf, sq_Host = Host conf, sq_Username = Username conf,
       sq_Password = Password conf, sq_Dbname = Dbname conf, sq_TimeZone = [], sq_SslMode
       = [], sq_MaxIdleConns = 0, sq_MaxOpenConns = 0, sq_LogMode = [], sq_LogColorful =
       False, sq_SlowThreshold = 0, sq_Schema = []\<rparr>"

definition OverwriteGormLogMode :: "string \<Rightarrow> log_level" where
  "OverwriteGormLogMode mode =
     (if mode = ''dev'' then Info else if mode = ''test'' then Warn
      else if mode = ''prod'' then Error else if mode = ''silent'' then Silent
      else Silent)"

text \<open>\<open>time.Duration(m.SlowThreshold) * time.Millisecond\<close>, in nanoseconds.\<close>

definition millis :: "int64 \<Rightarrow> int64" where
  "millis n = n * 1000000"

section \<open>Connections\<close>

datatype dialect = DMysql | DPostgres | DSqlite

datatype logger_kind = GormStd | ZeroLog

record gorm_logger =
  lg_kind :: logger_kind
  lg_config :: log_config

record gorm_config =
  gc_logger :: "gorm_logger option"
  gc_singular :: bool

record open_request =
  rq_dialect :: dialect
  rq_dsn :: string
  rq_simple :: bool
  rq_config :: gorm_config

text \<open>An open connection: how it was opened, the limits set on its pool, and whether the tracing plugin
  is installed.\<close>

record gormdb =
  opened :: open_request
  pool :: "(int64 \<times> int64) option"
  traced :: bool

datatype conn_error = EmptyDbname | OpenFailed string | PluginFailed string | UnsupportedDriver string

text \<open>\<open>gorm.Open\<close> and \<open>db.Use\<close>: the error they return, if any.\<close>

record gormlib =
  opens :: "open_request \<Rightarrow> string option"
  uses :: "open_request \<Rightarrow> string option"

definition default_config :: "gorm_logger \<Rightarrow> gorm_config" where
  "default_config lg = \<lparr>gc_logger = Some lg, gc_singular = False\<rparr>"

text \<open>The two constructors of a logger read the configuration through its interface; the argument is
  the triple of level, threshold and colour.\<close>

definition log_config_of :: "log_level \<times> int64 \<times> bool \<Rightarrow> log_config" where
  "log_config_of c = (case c of (level, slow, colorful) \<Rightarrow>
     \<lparr>SlowThreshold = slow, Colorful = colorful, IgnoreRecordNotFoundError = True, LogLevel = level\<rparr>)"

definition NewDefaultZeroLogger :: "log_level \<times> int64 \<times> bool \<Rightarrow> gorm_logger" where
  "NewDefaultZeroLogger c = \<lparr>lg_kind = ZeroLog, lg_config = log_config_of c\<rparr>"

definition NewDefaultGormLogger :: "log_level \<times> int64 \<times> bool \<Rightarrow> gorm_logger" where
  "NewDefaultGormLogger c = \<lparr>lg_kind = GormStd, lg_config = log_config_of c\<rparr>"

definition InitPlugins :: "gormlib \<Rightarrow> open_request \<Rightarrow> string option" where
  "InitPlugins G r = (case uses G r of Some e \<Rightarrow> Some e | None \<Rightarrow> None)"

subsection \<open>MySQL\<close>

definition my_Dsn :: "Mysql \<Rightarrow> string" where
  "my_Dsn m = my_Username m @ '':'' @ my_Password m @ ''@tcp('' @ my_Host m @ '':'' @ itoa (sint (my_Port m))
     @ '')/'' @ my_Dbname m @ ''?'' @ my_Config m"

definition my_GetGormLogMode :: "Mysql \<Rightarrow> log_level" where
  "my_GetGormLogMode m = OverwriteGormLogMode (my_LogMode m)"

definition my_GetSlowThreshold :: "Mysql \<Rightarrow> int64" where
  "my_GetSlowThreshold m = millis (my_SlowThreshold m)"

definition my_GetColorful :: "Mysql \<Rightarrow> bool" where
  "my_GetColorful m = my_LogColorful m"

definition my_log :: "Mysql \<Rightarrow> log_level \<times> int64 \<times> bool" where
  "my_log m = (my_GetGormLogMode m, my_GetSlowThreshold m, my_GetColorful m)"

definition my_Connect :: "gormlib \<Rightarrow> Mysql \<Rightarrow> conn_error + gormdb" where
  "my_Connect G m =
     (if my_Dbname m = [] then Inl EmptyDbname
      else (let rq = \<lparr>rq_dialect = DMysql, rq_dsn = my_Dsn m, rq_simple = False,
                      rq_config = default_config (NewDefaultGormLogger (my_log m))\<rparr>
            in case opens G rq of
                 Some e \<Rightarrow> Inl (OpenFailed e)
               | None \<Rightarrow> Inr \<lparr>opened = rq, pool = Some (my_MaxIdleConns m, my_MaxOpenConns m), traced = False\<rparr>))"

definition my_ConnectWithConfig :: "gormlib \<Rightarrow> Mysql \<Rightarrow> gorm_config \<Rightarrow> conn_error + gormdb" where
  "my_ConnectWithConfig G m cfg =
     (if my_Dbname m = [] then Inl EmptyDbname
      else (let rq = \<lparr>rq_dialect = DMysql, rq_dsn = my_Dsn m, rq_simple = False,
                      rq_config = cfg\<lparr>gc_logger := Some (NewDefaultZeroLogger (my_log m))\<rparr>\<rparr>
            in case opens G rq of
                 Some e \<Rightarrow> Inl (OpenFailed e)
               | None \<Rightarrow>
                   (case InitPlugins G rq of
                      Some e \<Rightarrow> Inl (PluginFailed e)
                    | None \<Rightarrow> Inr \<lparr>opened = rq, pool = Some (my_MaxIdleConns m, my_MaxOpenConns m), traced = True\<rparr>)))"

subsection \<open>PostgreSQL\<close>

text \<open>\<open>Dsn\<close> fills an empty schema in the receiver first.\<close>

definition pg_default_schema :: "PgSql \<Rightarrow> PgSql" where
  "pg_default_schema m = (if length (pg_Schema m) < 1 then m\<lparr>pg_Schema := ''public''\<rparr> else m)"

definition pg_Dsn :: "PgSql \<Rightarrow> string \<times> PgSql" where
  "pg_Dsn m =
     (let m = pg_default_schema m
      in (''user='' @ pg_Username m @ '' password='' @ pg_Password m @ '' dbname='' @ pg_Dbname m
          @ '' host='' @ pg_Host m @ '' port='' @ itoa (sint (pg_Port m)) @ '' search_path='' @ pg_Schema m
          @ '' sslmode='' @ pg_SslMode m @ '' TimeZone='' @ pg_TimeZone m, m))"

definition pg_GetGormLogMode :: "PgSql \<Rightarrow> log_level" where
  "pg_GetGormLogMode m = OverwriteGormLogMode (pg_LogMode m)"

definition pg_GetSlowThreshold :: "PgSql \<Rightarrow> int64" where
  "pg_GetSlowThreshold m = millis (pg_SlowThreshold m)"

definition pg_GetColorful :: "PgSql \<Rightarrow> bool" where
  "pg_GetColorful m = pg_LogColorful m"

definition pg_log :: "PgSql \<Rightarrow> log_level \<times> int64 \<times> bool" where
  "pg_log m = (pg_GetGormLogMode m, pg_GetSlowThreshold m, pg_GetColorful m)"

definition pg_Connect :: "gormlib \<Rightarrow> PgSql \<Rightarrow> conn_error + gormdb" where
  "pg_Connect G m =
     (if pg_Dbname m = [] then Inl EmptyDbname
      else (let lg = NewDefaultGormLogger (pg_log m); (dsn, m) = pg_Dsn m;
                rq = \<lparr>rq_dialect = DPostgres, rq_dsn = dsn, rq_simple = True, rq_config = default_config lg\<rparr>
            in case opens G rq of
                 Some e \<Rightarrow> Inl (OpenFailed e)
               | None \<Rightarrow> Inr \<lparr>opened = rq, pool = Some (pg_MaxIdleConns m, pg_MaxOpenConns m), traced = False\<rparr>))"

definition pg_ConnectWithConfig :: "gormlib \<Rightarrow> PgSql \<Rightarrow> gorm_config \<Rightarrow> conn_error + gormdb" where
  "pg_ConnectWithConfig G m cfg =
     (if pg_Dbname m = [] then Inl EmptyDbname
      else (let (dsn, m) = pg_Dsn m;
                rq = \<lparr>rq_dialect = DPostgres, rq_dsn = dsn, rq_simple = True,
                      rq_config = cfg\<lparr>gc_logger := Some (NewDefaultZeroLogger (pg_log m))\<rparr>\<rparr>
            in case opens G rq of
                 Some e \<Rightarrow> Inl (OpenFailed e)
               | None \<Rightarrow>
                   (case InitPlugins G rq of
                      Some e \<Rightarrow> Inl (PluginFailed e)
                    | None \<Rightarrow> Inr \<lparr>opened = rq, pool = Some (pg_MaxIdleConns m, pg_MaxOpenConns m), traced = True\<rparr>)))"

subsection \<open>SQLite\<close>

definition sq_Dsn :: "Sqlite3 \<Rightarrow> string \<times> Sqlite3" where
  "sq_Dsn m =
     (let m = (if length (sq_Schema m) < 1 then m\<lparr>sq_Schema := ''public''\<rparr> else m)
      in (path_join [sq_Host m, sq_Dbname m @ ''.db''], m))"

definition sq_GetGormLogMode :: "Sqlite3 \<Rightarrow> log_level" where
  "sq_GetGormLogMode m = OverwriteGormLogMode (sq_LogMode m)"

definition sq_GetSlowThreshold :: "Sqlite3 \<Rightarrow> int64" where
  "sq_GetSlowThreshold m = millis (sq_SlowThreshold m)"

definition sq_GetColorful :: "Sqlite3 \<Rightarrow> bool" where
  "sq_GetColorful m = sq_LogColorful m"

definition sq_log :: "Sqlite3 \<Rightarrow> log_level \<times> int64 \<times> bool" where
  "sq_log m = (sq_GetGormLogMode m, sq_GetSlowThreshold m, sq_GetColorful m)"

definition sq_Connect :: "gormlib \<Rightarrow> Sqlite3 \<Rightarrow> conn_error + gormdb" where
  "sq_Connect G m =
     (if sq_Dbname m = [] then Inl EmptyDbname
      else (let lg = NewDefaultGormLogger (sq_log m); (dsn, m) = sq_Dsn m;
                rq = \<lparr>rq_dialect = DSqlite, rq_dsn = dsn, rq_simple = False,
                      rq_config = \<lparr>gc_logger = Some lg, gc_singular = True\<rparr>\<rparr>
            in case opens G rq of
                 Some e \<Rightarrow> Inl (OpenFailed e)
               | None \<Rightarrow> Inr \<lparr>opened = rq, pool = None, traced = False\<rparr>))"

definition sq_ConnectWithConfig :: "gormlib \<Rightarrow> Sqlite3 \<Rightarrow> gorm_config \<Rightarrow> conn_error + gormdb" where
  "sq_ConnectWithConfig G m cfg =
     (if sq_Dbname m = [] then Inl EmptyDbname
      else (let cfg = cfg\<lparr>gc_logger := Some (NewDefaultZeroLogger (sq_log m)), gc_singular := True\<rparr>;
                (dsn, m) = sq_Dsn m;
                rq = \<lparr>rq_dialect = DSqlite, rq_dsn = dsn, rq_simple = False, rq_config = cfg\<rparr>
            in case opens G rq of
                 Some e \<Rightarrow> Inl (OpenFailed e)
               | None \<Rightarrow>
                   (case InitPlugins G rq of
                      Some e \<Rightarrow> Inl (PluginFailed e)
                    | None \<Rightarrow> Inr \<lparr>opened = rq, pool = None, traced = True\<rparr>)))"

subsection \<open>By driver\<close>

definition GetConnect :: "gormlib \<Rightarrow> DbConf \<Rightarrow> conn_error + gormdb" where
  "GetConnect G conf =
     (if Driver conf = MySQL then my_Connect G (mysql_of conf)
      else if Driver conf = Postgres then pg_Connect G (pgsql_of conf)
      else if Driver conf = Sqlite then sq_Connect G (sqlite_of conf)
      else Inl (UnsupportedDriver (Driver conf)))"

definition GetConnectWithConfig :: "gormlib \<Rightarrow> DbConf \<Rightarrow> gorm_config \<Rightarrow> conn_error + gormdb" where
  "GetConnectWithConfig G conf cfg =
     (if Driver conf = MySQL then my_ConnectWithConfig G (mysql_of conf) cfg
      else if Driver conf = Postgres then pg_ConnectWithConfig G (pgsql_with_schema_of conf) cfg
      else if Driver conf = Sqlite then sq_ConnectWithConfig G (sqlite_of conf) cfg
      else Inl (UnsupportedDriver (Driver conf)))"

section \<open>The interface of a configuration\<close>

text \<open>What both ways to connect promise to their caller: no attempt without a database name, and a
  connection that logs with the level, threshold and colour of the configuration, by the standard
  logger or by the package's own one together with the tracing plugin.\<close>

locale gorm_log_config =
  fixes dbname :: "'c \<Rightarrow> string"
    and log :: "'c \<Rightarrow> log_level \<times> int64 \<times> bool"
    and connect :: "gormlib \<Rightarrow> 'c \<Rightarrow> conn_error + gormdb"
    and connect_with :: "gormlib \<Rightarrow> 'c \<Rightarrow> gorm_config \<Rightarrow> conn_error + gormdb"
  assumes connect_name: "connect G m = Inr db \<Longrightarrow> dbname m \<noteq> []"
    and connect_with_name: "connect_with G m cfg = Inr db \<Longrightarrow> dbname m \<noteq> []"
    and connect_logger: "connect G m = Inr db \<Longrightarrow>
      gc_logger (rq_config (opened db)) = Some (NewDefaultGormLogger (log m)) \<and> \<not> traced db"
    and connect_with_logger: "connect_with G m cfg = Inr db \<Longrightarrow>
      gc_logger (rq_config (opened db)) = Some (NewDefaultZeroLogger (log m)) \<and> traced db"
    and connect_opens: "connect G m = Inr db \<Longrightarrow> opens G (opened db) = None"
    and connect_with_opens: "connect_with G m cfg = Inr db \<Longrightarrow>
      opens G (opened db) = None \<and> uses G (opened db) = None"
begin

lemma empty_name_fails: "dbname m = [] \<Longrightarrow> (\<exists>e. connect G m = Inl e) \<and> (\<exists>e. connect_with G m cfg = Inl e)"
  using connect_name connect_with_name by (metis sum.exhaust_sel)

lemma same_log_config:
  "connect G m = Inr db \<Longrightarrow> connect_with G m cfg = Inr db' \<Longrightarrow>
   map_option lg_config (gc_logger (rq_config (opened db)))
     = map_option lg_config (gc_logger (rq_config (opened db')))"
  by (simp add: connect_logger connect_with_logger NewDefaultGormLogger_def NewDefaultZeroLogger_def)

lemma log_level:
  "connect G m = Inr db \<Longrightarrow>
   \<exists>lg. gc_logger (rq_config (opened db)) = Some lg \<and> LogLevel (lg_config lg) = fst (log m)"
  by (auto simp: connect_logger NewDefaultGormLogger_def log_config_of_def split: prod.splits)

end

lemmas conn_splits = prod.splits option.splits if_splits

interpretation my: gorm_log_config my_Dbname my_log my_Connect my_ConnectWithConfig
  by unfold_locales
     (auto simp: my_Connect_def my_ConnectWithConfig_def default_config_def InitPlugins_def Let_def
       split: conn_splits)

lemma pg_Dsn_keeps:
  "pg_Dsn m = (dsn, m') \<Longrightarrow> pg_log m' = pg_log m \<and> pg_MaxIdleConns m' = pg_MaxIdleConns m
     \<and> pg_MaxOpenConns m' = pg_MaxOpenConns m"
  by (auto simp: pg_Dsn_def pg_default_schema_def Let_def pg_log_def pg_GetGormLogMode_def
      pg_GetSlowThreshold_def pg_GetColorful_def split: if_splits)

interpretation pg: gorm_log_config pg_Dbname pg_log pg_Connect pg_ConnectWithConfig
  by unfold_locales
     (auto simp: pg_Connect_def pg_ConnectWithConfig_def default_config_def InitPlugins_def Let_def
       pg_Dsn_keeps split: conn_splits)

interpretation sq: gorm_log_config sq_Dbname sq_log sq_Connect sq_ConnectWithConfig
  by unfold_locales
     (auto simp: sq_Connect_def sq_ConnectWithConfig_def InitPlugins_def Let_def split: conn_splits)

lemma mode_of_parts:
  "my_log (mysql_of conf) = (OverwriteGormLogMode (LogMode conf), millis (conf_SlowThreshold conf), LogColorful conf)"
  "pg_log (pgsql_of conf) = (OverwriteGormLogMode (LogMode conf), millis (conf_SlowThreshold conf), LogColorful conf)"
  "pg_log (pgsql_with_schema_of conf) = (OverwriteGormLogMode (LogMode conf), millis (conf_SlowThreshold conf), LogColorful conf)"
  "sq_log (sqlite_of conf) = (Silent, 0, False)"
  by (simp_all add: my_log_def pg_log_def sq_log_def my_GetGormLogMode_def my_GetSlowThreshold_def
      my_GetColorful_def pg_GetGormLogMode_def pg_GetSlowThreshold_def pg_GetColorful_def
      sq_GetGormLogMode_def sq_GetSlowThreshold_def sq_GetColorful_def mysql_of_def pgsql_of_def
      pgsql_with_schema_of_def sqlite_of_def OverwriteGormLogMode_def millis_def)

lemma drivers_distinct [simp]: "Postgres \<noteq> MySQL" "Sqlite \<noteq> MySQL" "Sqlite \<noteq> Postgres"
  by (simp_all add: MySQL_def Postgres_def Sqlite_def)

text \<open>A connection by driver is one of the three, with a name; its level is the one of its part of the
  configuration.\<close>

lemma GetConnect_level:
  assumes "GetConnect G conf = Inr db"
  shows "\<exists>lg. gc_logger (rq_config (opened db)) = Some lg
    \<and> LogLevel (lg_config lg) = (if Driver conf = Sqlite then Silent else OverwriteGormLogMode (LogMode conf))"
proof -
  consider "Driver conf = MySQL" "my_Connect G (mysql_of conf) = Inr db"
    | "Driver conf = Postgres" "pg_Connect G (pgsql_of conf) = Inr db"
    | "Driver conf = Sqlite" "sq_Connect G (sqlite_of conf) = Inr db"
    using assms by (auto simp: GetConnect_def split: if_splits)
  then show ?thesis
  proof cases
    case 1 with my.log_level [OF 1(2)] show ?thesis
      by (metis drivers_distinct(2) fst_conv mode_of_parts(1))
  next
    case 2 with pg.log_level [OF 2(2)] show ?thesis
      by (metis drivers_distinct(3) fst_conv mode_of_parts(2))
  next
    case 3 with sq.log_level [OF 3(2)] show ?thesis by (metis fst_conv mode_of_parts(4))
  qed
qed

lemma GetConnect_driver:
  "GetConnect G conf = Inr db \<Longrightarrow> Driver conf \<in> set AllDBTypes \<and> Dbname conf \<noteq> []"
  using my.connect_name pg.connect_name sq.connect_name
  by (fastforce simp: GetConnect_def AllDBTypes_def mysql_of_def pgsql_of_def sqlite_of_def split: if_splits)

section \<open>Properties\<close>

text \<open>A connection opened by \<open>GetConnect\<close> has a supported driver and a database name, and logs at
  the level of the configured mode, except for SQLite, whose log settings are dropped: it is always
  silent.\<close>

theorem GetConnect_log_level:
  assumes "GetConnect G conf = Inr db"
  shows "Driver conf \<in> set AllDBTypes \<and> Dbname conf \<noteq> []
    \<and> (\<exists>lg. gc_logger (rq_config (opened db)) = Some lg
        \<and> LogLevel (lg_config lg)
          = (if Driver conf = Sqlite then Silent else OverwriteGormLogMode (LogMode conf)))"
  using GetConnect_driver [OF assms] GetConnect_level [OF assms] by blast

definition always_up :: gormlib where
  "always_up = \<lparr>opens = (\<lambda>_. None), uses = (\<lambda>_. None)\<rparr>"

definition sample_conf :: "string \<Rightarrow> DbConf" where
  "sample_conf d = \<lparr>Driver = d, Host = ''h'', Port = 5432, Dbname = ''app'', Username = ''u'', Password = ''p'',
     TimeZone = ''UTC'', SslMode = ''disable'', Config = [], MaxIdleConns = 10, MaxOpenConns = 10,
     LogMode = ''dev'', LogColorful = False, conf_SlowThreshold = 1000, Schema = ''tenant'', TablePrefix = []\<rparr>"

lemma always_up_connects:
  "sq_Dbname m \<noteq> [] \<Longrightarrow> \<exists>db. sq_Connect always_up m = Inr db"
  "pg_Dbname p \<noteq> [] \<Longrightarrow> \<exists>db. pg_Connect always_up p = Inr db"
  "pg_Dbname p \<noteq> [] \<Longrightarrow> \<exists>db. pg_ConnectWithConfig always_up p cfg = Inr db"
  by (simp_all add: sq_Connect_def pg_Connect_def pg_ConnectWithConfig_def InitPlugins_def always_up_def
      Let_def split: prod.splits)

theorem GetConnect_log_level_witness:
  "\<exists>db lg. GetConnect always_up (sample_conf ''sqlite'') = Inr db
     \<and> gc_logger (rq_config (opened db)) = Some lg \<and> LogLevel (lg_config lg) = Silent"
proof -
  obtain db where db: "GetConnect always_up (sample_conf ''sqlite'') = Inr db"
    using always_up_connects(1) [of "sqlite_of (sample_conf ''sqlite'')"]
    by (auto simp: GetConnect_def sample_conf_def MySQL_def Postgres_def Sqlite_def sqlite_of_def)
  from GetConnect_log_level [OF db] db show ?thesis
    by (auto simp: sample_conf_def Sqlite_def)
qed

text \<open>For PostgreSQL \<open>GetConnect\<close> drops the schema of the configuration: the connection searches
  the schema \<open>public\<close> whatever is configured, while \<open>GetConnectWithConfig\<close> uses the configured one.
  So the two open different data sources exactly when another schema is configured.\<close>

theorem GetConnect_drops_schema:
  assumes "Driver conf = Postgres" "GetConnect G conf = Inr db" "GetConnectWithConfig G conf cfg = Inr db'"
  shows "GetConnect G (conf\<lparr>Schema := s\<rparr>) = GetConnect G conf
    \<and> (rq_dsn (opened db) = rq_dsn (opened db') \<longleftrightarrow> Schema conf \<in> {[], ''public''})"
proof -
  have "rq_dsn (opened db) = fst (pg_Dsn (pgsql_of conf))"
    using assms(1,2) by (auto simp: GetConnect_def pg_Connect_def Let_def split: conn_splits)
  moreover have "rq_dsn (opened db') = fst (pg_Dsn (pgsql_with_schema_of conf))"
    using assms(1,3) by (auto simp: GetConnectWithConfig_def pg_ConnectWithConfig_def Let_def split: conn_splits)
  moreover have "fst (pg_Dsn (pgsql_of conf)) = fst (pg_Dsn (pgsql_with_schema_of conf))
      \<longleftrightarrow> Schema conf \<in> {[], ''public''}"
    by (auto simp: pg_Dsn_def pg_default_schema_def pgsql_of_def pgsql_with_schema_of_def Let_def)
  ultimately show ?thesis
    using assms(1) by (simp add: GetConnect_def pgsql_of_def)
qed

theorem GetConnect_drops_schema_witness:
  "\<exists>db db'. GetConnect always_up (sample_conf ''postgres'') = Inr db
     \<and> GetConnectWithConfig always_up (sample_conf ''postgres'') \<lparr>gc_logger = None, gc_singular = False\<rparr> = Inr db'
     \<and> rq_dsn (opened db) \<noteq> rq_dsn (opened db')"
proof -
  let ?cfg = "\<lparr>gc_logger = None, gc_singular = False\<rparr>"
  obtain db db' where db: "GetConnect always_up (sample_conf ''postgres'') = Inr db"
    "GetConnectWithConfig always_up (sample_conf ''postgres'') ?cfg = Inr db'"
    using always_up_connects(2) [of "pgsql_of (sample_conf ''postgres'')"]
      always_up_connects(3) [of "pgsql_with_schema_of (sample_conf ''postgres'')" ?cfg]
    by (auto simp: GetConnect_def GetConnectWithConfig_def sample_conf_def MySQL_def Postgres_def
        pgsql_of_def pgsql_with_schema_of_def)
  have "Driver (sample_conf ''postgres'') = Postgres" "Schema (sample_conf ''postgres'') = ''tenant''"
    by (simp_all add: sample_conf_def Postgres_def)
  with GetConnect_drops_schema [OF this(1) db] db show ?thesis by auto
qed

end
