(* ===== verification/Modelx.thy ===== *)
theory Modelx
  imports GoValues
begin

text \<open>
  The package \<open>gormx/modelx\<close>: the structs every model embeds, the setters of the audit fields, the
  page numbers of a request and the table header of a struct (\<open>model.go\<close>, \<open>int.go\<close>, \<open>tag.go\<close>).
  A UUID is its text, a time its nanoseconds; a soft-delete time is absent or present.
\<close>

type_synonym time = int

record BaseModel =
  bm_Id :: string

record ControlBy =
  cb_CreateBy :: string
  cb_UpdateBy :: string

record ModelTime =
  CreatedAt :: time
  UpdatedAt :: time
  DeletedAt :: "time option"

record ModelUtils =
  mu_Sort :: int64
  mu_Remark :: string
  mu_Enabled :: bool

record ModelWithCommon =
  mc_BaseModel :: BaseModel
  mc_ModelUtils :: ModelUtils
  mc_ControlBy :: ControlBy
  mc_ModelTime :: ModelTime

record Pagination =
  PageIndex :: int64
  PageSize :: int64
  SortBY :: string
  Descending :: bool
  SearchKey :: string

record BaseModelInt =
  bi_Id :: int64

record ControlByInt =
  ci_CreateBy :: int64
  ci_UpdateBy :: int64

record TableTag =
  Label :: string
  Field :: string

text \<open>The getters correct the receiver before they answer: the value and the receiver afterwards.\<close>

definition GetPageIndex :: "Pagination \<Rightarrow> int64 \<times> Pagination" where
  "GetPageIndex m = (let m = (if sint (PageIndex m) \<le> 0 then m\<lparr>PageIndex := 1\<rparr> else m) in (PageIndex m, m))"

definition GetPageSize :: "Pagination \<Rightarrow> int64 \<times> Pagination" where
  "GetPageSize m = (let m = (if sint (PageSize m) \<le> 0 then m\<lparr>PageSize := 10\<rparr> else m) in (PageSize m, m))"

definition SetCreateBy :: "string \<Rightarrow> ControlBy \<Rightarrow> ControlBy" where
  "SetCreateBy createBy e = e\<lparr>cb_CreateBy := createBy\<rparr>"

definition SetUpdateBy :: "string \<Rightarrow> ControlBy \<Rightarrow> ControlBy" where
  "SetUpdateBy updateBy e = e\<lparr>cb_UpdateBy := updateBy\<rparr>"

definition SetCreateByInt :: "int64 \<Rightarrow> ControlByInt \<Rightarrow> ControlByInt" where
  "SetCreateByInt createBy e = e\<lparr>ci_CreateBy := createBy\<rparr>"

definition SetUpdateByInt :: "int64 \<Rightarrow> ControlByInt \<Rightarrow> ControlByInt" where
  "SetUpdateByInt updateBy e = e\<lparr>ci_UpdateBy := updateBy\<rparr>"

text \<open>\<open>None\<close> is the panic of \<open>Kind\<close> on the nil type of a nil interface.\<close>

definition GetTableTag :: "goval \<Rightarrow> TableTag list option" where
  "GetTableTag obj =
     (case obj of
        VNil \<Rightarrow> None
      | VStruct _ fs \<Rightarrow> Some (map (\<lambda>f. \<lparr>Label = tag_get f ''comment'', Field = tag_get f ''json''\<rparr>) fs)
      | _ \<Rightarrow> Some [])"

lemma page_numbers_positive:
  "0 < sint (fst (GetPageIndex m)) \<and> 0 < sint (fst (GetPageSize m))"
  by (auto simp: GetPageIndex_def GetPageSize_def Let_def)

end
