(* ===== verification/GormQuery.thy ===== *)
theory GormQuery
  imports Modelx "HOL-Library.AList"
begin

text \<open>
  The query side of \<open>gormx\<close>: search tags and condition sinks (\<open>condition.go\<close>), the translation of
  a tagged struct into conditions (\<open>query.go\<close>), the scopes put on a statement (\<open>search.go\<close>,
  \<open>datapermission.go\<close>), and the data source names (\<open>db.go\<close>). A \<open>*gorm.DB\<close> is the list of
  builder calls made on it. A Go map is an association list with one entry per key; \<open>iter\<close> is the
  order in which \<open>range\<close> visits it.
\<close>

section \<open>Search tags\<close>

record resolveSearchTag =
  Type :: string
  Column :: string
  Table :: string
  On :: "string list"
  Join :: string

definition empty_tag :: resolveSearchTag where
  "empty_tag = \<lparr>Type = [], Column = [], Table = [], On = [], Join = []\<rparr>"

definition apply_tag_part :: "string \<Rightarrow> resolveSearchTag \<Rightarrow> resolveSearchTag" where
  "apply_tag_part t r =
     (let ts = split_char (CHR '':'') t in
      if length ts = 0 then r
      else if ts ! 0 = ''type'' then (if 1 < length ts then r\<lparr>Type := ts ! 1\<rparr> else r)
      else if ts ! 0 = ''column'' then (if 1 < length ts then r\<lparr>Column := ts ! 1\<rparr> else r)
      else if ts ! 0 = ''table'' then (if 1 < length ts then r\<lparr>Table := ts ! 1\<rparr> else r)
      else if ts ! 0 = ''on'' then (if 1 < length ts then r\<lparr>On := drop 1 ts\<rparr> else r)
      else if ts ! 0 = ''join'' then (if 1 < length ts then r\<lparr>Join := ts ! 1\<rparr> else r)
      else r)"

definition makeTag :: "string \<Rightarrow> resolveSearchTag" where
  "makeTag tag = fold apply_tag_part (split_char (CHR '';'') tag) empty_tag"

text \<open>\<open>utils/sort.go\<close> has a \<open>makeTag\<close> of its own, here with the loop and the skipped parts as written.\<close>

fun utils_tag_loop :: "string list \<Rightarrow> resolveSearchTag \<Rightarrow> resolveSearchTag" where
  "utils_tag_loop [] r = r"
| "utils_tag_loop (t # tags) r =
     (case split_char (CHR '':'') t of
        [] \<Rightarrow> utils_tag_loop tags r
      | [_] \<Rightarrow> utils_tag_loop tags r
      | n # v # vs \<Rightarrow>
          utils_tag_loop tags
            (if n = ''type'' then r\<lparr>Type := v\<rparr>
             else if n = ''column'' then r\<lparr>Column := v\<rparr>
             else if n = ''table'' then r\<lparr>Table := v\<rparr>
             else if n = ''on'' then r\<lparr>On := v # vs\<rparr>
             else if n = ''join'' then r\<lparr>Join := v\<rparr>
             else r))"

definition utils_makeTag :: "string \<Rightarrow> resolveSearchTag" where
  "utils_makeTag tag = utils_tag_loop (split_char (CHR '';'') tag) empty_tag"

lemma apply_tag_part_cases:
  "split_char (CHR '':'') t = [] \<Longrightarrow> apply_tag_part t r = r"
  "split_char (CHR '':'') t = [n] \<Longrightarrow> apply_tag_part t r = r"
  "split_char (CHR '':'') t = n # v # vs \<Longrightarrow> apply_tag_part t r =
     (if n = ''type'' then r\<lparr>Type := v\<rparr> else if n = ''column'' then r\<lparr>Column := v\<rparr>
      else if n = ''table'' then r\<lparr>Table := v\<rparr> else if n = ''on'' then r\<lparr>On := v # vs\<rparr>
      else if n = ''join'' then r\<lparr>Join := v\<rparr> else r)"
  by (simp_all add: apply_tag_part_def Let_def)

lemma utils_tag_loop_fold: "utils_tag_loop tags r = fold apply_tag_part tags r"
proof (induction tags arbitrary: r)
  case (Cons t tags)
  consider "split_char (CHR '':'') t = []" | n where "split_char (CHR '':'') t = [n]"
    | n v vs where "split_char (CHR '':'') t = n # v # vs"
    by (metis neq_Nil_conv)
  then show ?case by cases (simp_all only: utils_tag_loop.simps fold_simps apply_tag_part_cases list.case Cons)
qed simp

text \<open>The two packages read a tag alike.\<close>

theorem utils_makeTag_same: "utils_makeTag tag = makeTag tag"
  by (simp add: utils_makeTag_def makeTag_def utils_tag_loop_fold)

section \<open>Condition sinks\<close>

type_synonym clauses = "(string \<times> goval list) list"

record GormPublic =
  Where :: clauses
  Order :: "string list"
  Or :: clauses

record GormJoin = GormPublic +
  JoinType :: string
  JoinOn :: string

record GormCondition = GormPublic +
  Joins :: "GormJoin list"

definition empty_join :: "string \<Rightarrow> string \<Rightarrow> GormJoin" where
  "empty_join t on = \<lparr>Where = [], Order = [], Or = [], JoinType = t, JoinOn = on\<rparr>"

definition empty_condition :: GormCondition where
  "empty_condition = \<lparr>Where = [], Order = [], Or = [], Joins = []\<rparr>"

definition SetWhere :: "string \<Rightarrow> goval list \<Rightarrow> 'a GormPublic_scheme \<Rightarrow> 'a GormPublic_scheme" where
  "SetWhere k v e = e\<lparr>Where := AList.update k v (Where e)\<rparr>"

definition SetOr :: "string \<Rightarrow> goval list \<Rightarrow> 'a GormPublic_scheme \<Rightarrow> 'a GormPublic_scheme" where
  "SetOr k v e = e\<lparr>Or := AList.update k v (Or e)\<rparr>"

definition SetOrder :: "string \<Rightarrow> 'a GormPublic_scheme \<Rightarrow> 'a GormPublic_scheme" where
  "SetOrder k e = e\<lparr>Order := Order e @ [k]\<rparr>"

text \<open>The \<open>Condition\<close> interface: a \<open>*GormCondition\<close>, a \<open>*GormJoin\<close>, or nil, which is what
  \<open>SetJoinOn\<close> of a join returns. A call on nil panics.\<close>

datatype sink = SCondition GormCondition | SJoin GormJoin | SNil

fun sink_where :: "string \<Rightarrow> goval list \<Rightarrow> sink \<Rightarrow> sink option" where
  "sink_where k v (SCondition c) = Some (SCondition (SetWhere k v c))"
| "sink_where k v (SJoin j) = Some (SJoin (SetWhere k v j))"
| "sink_where k v SNil = None"

fun sink_order :: "string \<Rightarrow> sink \<Rightarrow> sink option" where
  "sink_order k (SCondition c) = Some (SCondition (SetOrder k c))"
| "sink_order k (SJoin j) = Some (SJoin (SetOrder k j))"
| "sink_order k SNil = None"

text \<open>\<open>SetJoinOn\<close> hands out the sink for the joined struct; \<open>put_join\<close> is the condition once that
  sink has been filled, since the new join is shared with the list of the condition.\<close>

fun SetJoinOn :: "string \<Rightarrow> string \<Rightarrow> sink \<Rightarrow> sink option" where
  "SetJoinOn t on (SCondition c) = Some (SJoin (empty_join t on))"
| "SetJoinOn t on (SJoin j) = Some SNil"
| "SetJoinOn t on SNil = None"

fun put_join :: "sink \<Rightarrow> sink \<Rightarrow> sink" where
  "put_join (SCondition c) (SJoin j) = SCondition (c\<lparr>Joins := Joins c @ [j]\<rparr>)"
| "put_join s _ = s"

section \<open>Rendering\<close>

definition Mysql_driver :: string where "Mysql_driver = ''mysql''"
definition Postgres_driver :: string where "Postgres_driver = ''postgres''"
definition FromQueryTag :: string where "FromQueryTag = ''search''"

definition dq :: string where "dq = [char_of (34 :: nat)]"
definition bq :: string where "bq = [char_of (96 :: nat)]"

definition quote_of :: "string \<Rightarrow> string" where
  "quote_of driver = (if driver = Postgres_driver then dq else bq)"

definition formatColumn :: "string \<Rightarrow> string \<Rightarrow> string \<Rightarrow> string" where
  "formatColumn driver table column =
     (if driver = Postgres_driver then dq @ table @ dq @ ''.'' @ dq @ column @ dq
      else bq @ table @ bq @ ''.'' @ bq @ column @ bq)"

text \<open>The join clauses index the two parts of the \<open>on\<close> tag; \<open>None\<close> is the panic when one is missing.\<close>

definition join_sql :: "string \<Rightarrow> string \<Rightarrow> string \<Rightarrow> string list \<Rightarrow> string \<Rightarrow> string option" where
  "join_sql verb driver joinTable on table =
     (if length on < 2 then None
      else (let q = quote_of driver in
        Some (verb @ '' JOIN '' @ q @ joinTable @ q @ '' ON '' @ q @ joinTable @ q @ ''.'' @ q @ on ! 0 @ q
          @ '' = '' @ q @ table @ q @ ''.'' @ q @ on ! 1 @ q)))"

definition formatJoinSQL :: "string \<Rightarrow> string \<Rightarrow> string list \<Rightarrow> string \<Rightarrow> string option" where
  "formatJoinSQL = join_sql ''LEFT''"

definition formatInnerJoins :: "string \<Rightarrow> string \<Rightarrow> string list \<Rightarrow> string \<Rightarrow> string option" where
  "formatInnerJoins = join_sql ''INNER''"

text \<open>What one tagged field asks for: a condition, an order, a joined struct, or nothing.\<close>

datatype request = AskWhere string "goval list" | AskOrder string | AskJoin string | AskNothing

definition like_word :: "string \<Rightarrow> string" where
  "like_word driver = (if driver = Postgres_driver then '' ILIKE ?'' else '' LIKE ?'')"

definition field_request :: "gotext \<Rightarrow> string \<Rightarrow> resolveSearchTag \<Rightarrow> goval \<Rightarrow> request option" where
  "field_request T driver t v =
     (let columnRef = formatColumn driver (Table t) (Column t); ty = Type t in
      if ty = ''left'' then map_option AskJoin (formatJoinSQL driver (Join t) (On t) (Table t))
      else if ty = ''inner'' then map_option AskJoin (formatInnerJoins driver (Join t) (On t) (Table t))
      else if ty = ''exact'' \<or> ty = ''iexact'' then Some (AskWhere (columnRef @ '' = ?'') [v])
      else if ty = ''contains'' \<or> ty = ''icontains'' then
        Some (AskWhere (columnRef @ like_word driver) [VString (''%'' @ value_string v @ ''%'')])
      else if ty = ''gt'' then Some (AskWhere (columnRef @ '' > ?'') [v])
      else if ty = ''gte'' then Some (AskWhere (columnRef @ '' >= ?'') [v])
      else if ty = ''lt'' then Some (AskWhere (columnRef @ '' < ?'') [v])
      else if ty = ''lte'' then Some (AskWhere (columnRef @ '' <= ?'') [v])
      else if ty = ''startswith'' \<or> ty = ''istartswith'' then
        Some (AskWhere (columnRef @ like_word driver) [VString (value_string v @ ''%'')])
      else if ty = ''endswith'' \<or> ty = ''iendswith'' then
        Some (AskWhere (columnRef @ like_word driver) [VString (''%'' @ value_string v)])
      else if ty = ''in'' then Some (AskWhere (columnRef @ '' in (?)'') [v])
      else if ty = ''isnull'' then Some (AskWhere (columnRef @ '' is null'') [])
      else if ty = ''order'' then
        (let orderValue = to_lower T (value_string v) in
         Some (if orderValue = ''desc'' \<or> orderValue = ''asc''
               then AskOrder (columnRef @ '' '' @ orderValue) else AskNothing))
      else Some AskNothing)"

section \<open>ResolveSearchQuery\<close>

text \<open>The walk over the fields. A value that is not a struct has no fields and panics, as does
  \<open>Interface\<close> on an unexported field, which the cases of \<open>reads_interface\<close> call. A field that is zero
  was skipped before, so the test of the \<open>isnull\<close> case is always true.\<close>

definition reads_interface :: "string \<Rightarrow> bool" where
  "reads_interface ty \<longleftrightarrow>
     ty \<in> {''left'', ''inner'', ''exact'', ''iexact'', ''gt'', ''gte'', ''lt'', ''lte'', ''in''}"

fun resolve_value :: "gotext \<Rightarrow> string \<Rightarrow> goval \<Rightarrow> sink \<Rightarrow> sink option"
and resolve_fields :: "gotext \<Rightarrow> string \<Rightarrow> gofield list \<Rightarrow> sink \<Rightarrow> sink option" where
  "resolve_value T driver (VStruct _ fs) s = resolve_fields T driver fs s"
| "resolve_value T driver _ s = None"
| "resolve_fields T driver [] s = Some s"
| "resolve_fields T driver (GoField n tags v # fs) s =
     (case tag_lookup (GoField n tags v) FromQueryTag of
        None \<Rightarrow>
          if exported (GoField n tags v)
          then (case resolve_value T driver v s of None \<Rightarrow> None | Some s' \<Rightarrow> resolve_fields T driver fs s')
          else None
      | Some tag \<Rightarrow>
          if tag = ''-'' \<or> is_zero v then resolve_fields T driver fs s
          else if reads_interface (Type (makeTag tag)) \<and> \<not> exported (GoField n tags v) then None
          else (case field_request T driver (makeTag tag) v of
                  None \<Rightarrow> None
                | Some AskNothing \<Rightarrow> resolve_fields T driver fs s
                | Some (AskWhere k vs) \<Rightarrow>
                    (case sink_where k vs s of None \<Rightarrow> None | Some s' \<Rightarrow> resolve_fields T driver fs s')
                | Some (AskOrder k) \<Rightarrow>
                    (case sink_order k s of None \<Rightarrow> None | Some s' \<Rightarrow> resolve_fields T driver fs s')
                | Some (AskJoin sql) \<Rightarrow>
                    (case SetJoinOn (Type (makeTag tag)) sql s of
                       None \<Rightarrow> None
                     | Some js \<Rightarrow>
                         (case resolve_value T driver v js of
                            None \<Rightarrow> None
                          | Some js' \<Rightarrow> resolve_fields T driver fs (put_join s js')))))"

definition ResolveSearchQuery :: "gotext \<Rightarrow> string \<Rightarrow> goval \<Rightarrow> sink \<Rightarrow> sink option" where
  "ResolveSearchQuery T driver q condition = resolve_value T driver q condition"

section \<open>Statements\<close>

datatype db_call =
    DbJoins string
  | DbWhere string "goval list"
  | DbOr string "goval list"
  | DbOrder string
  | DbOffset int64
  | DbLimit int64

type_synonym db = "db_call list"

type_synonym clause_order = "clauses \<Rightarrow> clauses"

definition public_calls :: "clause_order \<Rightarrow> 'a GormPublic_scheme \<Rightarrow> db" where
  "public_calls iter p =
     map (\<lambda>(k, v). DbWhere k v) (iter (Where p)) @ map (\<lambda>(k, v). DbOr k v) (iter (Or p))
     @ map DbOrder (Order p)"

definition MakeCondition :: "gotext \<Rightarrow> clause_order \<Rightarrow> goval \<Rightarrow> string \<Rightarrow> db \<Rightarrow> db option" where
  "MakeCondition T iter q driver db =
     (case ResolveSearchQuery T driver q (SCondition empty_condition) of
        Some (SCondition c) \<Rightarrow>
          Some (db @ concat (map (\<lambda>j. DbJoins (JoinOn j) # public_calls iter j) (Joins c))
                @ public_calls iter c)
      | _ \<Rightarrow> None)"

definition Paginate :: "int64 \<Rightarrow> int64 \<Rightarrow> db \<Rightarrow> db" where
  "Paginate pageSize pageIndex db =
     (let offset = (pageIndex - 1) * pageSize;
          offset = (if sint offset < 0 then 0 else offset)
      in db @ [DbOffset offset, DbLimit pageSize])"

definition SortBy :: "string \<Rightarrow> bool \<Rightarrow> db \<Rightarrow> db" where
  "SortBy sortBy descending db = db @ [DbOrder (if descending then sortBy @ '' DESC'' else sortBy)]"

text \<open>\<open>GetSortBy\<close> of this package and of \<open>utils/sort.go\<close> have the same body; the first field that
  matches ends the loop.\<close>

fun sort_loop :: "gofield list \<Rightarrow> string \<Rightarrow> string" where
  "sort_loop [] fieldName = []"
| "sort_loop (f # fs) fieldName =
     (case tag_lookup f FromQueryTag of
        None \<Rightarrow> sort_loop fs fieldName
      | Some tag \<Rightarrow>
          if tag = ''-'' then sort_loop fs fieldName
          else (let t = utils_makeTag tag in
            if tag_get f ''json'' = fieldName then Column t else sort_loop fs fieldName))"

fun search_sort_loop :: "gofield list \<Rightarrow> string \<Rightarrow> string" where
  "search_sort_loop [] fieldName = []"
| "search_sort_loop (f # fs) fieldName =
     (case tag_lookup f FromQueryTag of
        None \<Rightarrow> search_sort_loop fs fieldName
      | Some tag \<Rightarrow>
          if tag = ''-'' then search_sort_loop fs fieldName
          else (let t = makeTag tag in
            if tag_get f ''json'' = fieldName then Column t else search_sort_loop fs fieldName))"

definition utils_GetSortBy :: "goval \<Rightarrow> string \<Rightarrow> string option" where
  "utils_GetSortBy obj fieldName =
     (case obj of VStruct _ fs \<Rightarrow> Some (sort_loop fs fieldName) | _ \<Rightarrow> None)"

definition GetSortBy :: "goval \<Rightarrow> string \<Rightarrow> string option" where
  "GetSortBy obj fieldName =
     (case obj of VStruct _ fs \<Rightarrow> Some (search_sort_loop fs fieldName) | _ \<Rightarrow> None)"

lemma sort_loops: "sort_loop fs fieldName = search_sort_loop fs fieldName"
  by (induction fs) (simp_all only: sort_loop.simps search_sort_loop.simps utils_makeTag_same)

theorem GetSortBy_same: "utils_GetSortBy obj fieldName = GetSortBy obj fieldName"
  unfolding utils_GetSortBy_def GetSortBy_def sort_loops by (rule refl)

section \<open>Data permission\<close>

definition PermissionKey :: string where "PermissionKey = ''dataPermission''"

record DataPermission =
  DataScope :: string
  UserId :: goval
  DeptId :: goval
  RoleId :: goval
  DataFilter :: string

definition PermissionData :: "string \<Rightarrow> DataPermission \<Rightarrow> db \<Rightarrow> db" where
  "PermissionData tableName p db =
     (if DataScope p = ''2'' then
        db @ [DbWhere (tableName @ ''.create_by in '' @ ''('' @ DataFilter p @ '')'') []]
      else if DataScope p = ''3'' then
        db @ [DbWhere (tableName @ ''.create_by in '' @
          ''(SELECT user_id from admin_user where dept_id = ? )'') [DeptId p]]
      else if DataScope p = ''4'' then
        db @ [DbWhere (tableName @ ''.create_by in '' @
          ''(SELECT user_id from admin_user '' @ ''where admin_user.dept_id in '' @
          ''(with RECURSIVE temp_child as '' @ ''(select * from admin_dept where id = ?  union all '' @
          ''select c.* from admin_dept as c,temp_child t where c.parent_id=t.id) '' @
          ''select id from temp_child)'') [DeptId p]]
      else if DataScope p = ''5'' then
        db @ [DbWhere (tableName @ ''.create_by = ?'') [UserId p]]
      else db)"

text \<open>The value of the request context, when it is a \<open>*DataPermission\<close>; otherwise a fresh one.\<close>

definition no_permission :: DataPermission where
  "no_permission = \<lparr>DataScope = [], UserId = VNil, DeptId = VNil, RoleId = VNil, DataFilter = []\<rparr>"

definition getPermissionFromContext :: "(string \<rightharpoonup> goval + DataPermission) \<Rightarrow> DataPermission" where
  "getPermissionFromContext c =
     (case c PermissionKey of Some (Inr p) \<Rightarrow> p | _ \<Rightarrow> no_permission)"

definition GetPermissionFromContext :: "(string \<rightharpoonup> goval + DataPermission) \<Rightarrow> DataPermission" where
  "GetPermissionFromContext c = getPermissionFromContext c"

definition permission_error_text :: string where
  "permission_error_text = encode [33719, 21462, 29992, 25143, 25968, 25454, 20986, 38169]"

text \<open>The query for a permission, which no code calls: \<open>scan\<close> runs a statement, given by its table, its columns, its
  joins and its conditions, and fills the struct or fails.\<close>

definition newDataPermission ::
  "(string \<Rightarrow> string list \<Rightarrow> string list \<Rightarrow> clauses \<Rightarrow> DataPermission \<Rightarrow> string + DataPermission) \<Rightarrow> goval
   \<Rightarrow> string + DataPermission" where
  "newDataPermission scan userId =
     (case scan ''sys_user'' [''sys_user.user_id'', ''sys_role.role_id'', ''sys_user.dept_id'', ''sys_role.data_scope'']
          [''left join sys_role on sys_role.role_id = sys_user.role_id'']
          [(''sys_user.user_id = ?'', [userId])] no_permission of
        Inl err \<Rightarrow> Inl (permission_error_text @ '' msg:'' @ err)
      | Inr p \<Rightarrow> Inr p)"

section \<open>Data source names\<close>

definition mysqlDsn ::
  "string \<Rightarrow> int64 \<Rightarrow> string \<Rightarrow> string \<Rightarrow> string \<Rightarrow> string \<Rightarrow> string \<Rightarrow> string" where
  "mysqlDsn host port user password db schema config =
     (let config = (if length config < 1 then ''charset=utf8&parseTime=True&loc=Local&timeout=1000ms'' else config)
      in user @ '':'' @ password @ ''@tcp('' @ host @ '':'' @ itoa (sint port) @ '')/'' @ db @ ''?'' @ config)"

definition pgsqlDsn ::
  "string \<Rightarrow> int64 \<Rightarrow> string \<Rightarrow> string \<Rightarrow> string \<Rightarrow> string \<Rightarrow> string \<Rightarrow> string" where
  "pgsqlDsn host port user password db schema config =
     (let config = (if length config < 1 then ''sslmode=disable TimeZone=Asia/Shanghai'' else config);
          schema = (if length schema < 1 then ''public'' else schema)
      in ''host='' @ host @ '' user='' @ user @ '' password='' @ password @ '' dbname='' @ [char_of (39 :: nat)]
         @ db @ [char_of (39 :: nat)] @ '' search_path='' @ schema @ '' port='' @ itoa (sint port) @ '' '' @ config)"

definition GetDsn ::
  "string \<Rightarrow> string \<Rightarrow> int64 \<Rightarrow> string \<Rightarrow> string \<Rightarrow> string \<Rightarrow> string \<Rightarrow> string \<Rightarrow> string" where
  "GetDsn driver host port user password db schema config =
     (if driver = ''mysql'' then mysqlDsn host port user password db schema config
      else if driver = ''postgres'' then pgsqlDsn host port user password db schema config
      else mysqlDsn host port user password db schema config)"

section \<open>The interface of a condition sink\<close>

text \<open>What the translation relies on: a condition replaces the one with the same text and leaves the
  rest, orders are appended.\<close>

locale condition_sink =
  fixes set_where :: "string \<Rightarrow> goval list \<Rightarrow> 's \<Rightarrow> 's"
    and set_order :: "string \<Rightarrow> 's \<Rightarrow> 's"
    and wheres :: "'s \<Rightarrow> clauses"
    and orders :: "'s \<Rightarrow> string list"
  assumes wheres_where: "map_of (wheres (set_where k v s)) = (map_of (wheres s))(k \<mapsto> v)"
    and distinct_where: "distinct (map fst (wheres s)) \<Longrightarrow> distinct (map fst (wheres (set_where k v s)))"
    and orders_where: "orders (set_where k v s) = orders s"
    and wheres_order: "wheres (set_order o' s) = wheres s"
    and orders_order: "orders (set_order o' s) = orders s @ [o']"
begin

definition apply_request :: "request \<Rightarrow> 's \<Rightarrow> 's" where
  "apply_request r s = (case r of AskWhere k v \<Rightarrow> set_where k v s | AskOrder o' \<Rightarrow> set_order o' s | _ \<Rightarrow> s)"

lemma fold_requests:
  "map_of (wheres (fold apply_request rs s))
     = map_of (wheres s) ++ map_of (rev (concat (map (\<lambda>r. case r of AskWhere k v \<Rightarrow> [(k, v)] | _ \<Rightarrow> []) rs)))
   \<and> orders (fold apply_request rs s)
     = orders s @ concat (map (\<lambda>r. case r of AskOrder o' \<Rightarrow> [o'] | _ \<Rightarrow> []) rs)"
proof (induction rs arbitrary: s)
  case (Cons r rs)
  have "map_of (wheres (apply_request r s))
      = map_of (wheres s) ++ map_of (case r of AskWhere k v \<Rightarrow> [(k, v)] | _ \<Rightarrow> [])"
    by (cases r) (simp_all only: apply_request_def request.case wheres_where wheres_order map_of.simps
        map_add_empty map_add_upd fst_conv snd_conv)
  moreover have "orders (apply_request r s) = orders s @ (case r of AskOrder o' \<Rightarrow> [o'] | _ \<Rightarrow> [])"
    by (cases r) (simp_all add: apply_request_def orders_where orders_order)
  moreover have "rev (case r of AskWhere k v \<Rightarrow> [(k, v)] | _ \<Rightarrow> []) = (case r of AskWhere k v \<Rightarrow> [(k, v)] | _ \<Rightarrow> [])"
    by (cases r) simp_all
  ultimately show ?case
    using Cons [of "apply_request r s"] by simp
qed simp

lemma fold_distinct:
  "distinct (map fst (wheres s)) \<Longrightarrow> distinct (map fst (wheres (fold apply_request rs s)))"
  by (induction rs arbitrary: s)
     (auto simp: apply_request_def distinct_where wheres_order split: request.splits)

end

lemma SetWhere_simps [simp]:
  "Where (SetWhere k v e) = AList.update k v (Where e)" "Order (SetWhere k v e) = Order e"
  "Or (SetWhere k v e) = Or e" "Where (SetOrder k' e) = Where e" "Order (SetOrder k' e) = Order e @ [k']"
  "Or (SetOrder k' e) = Or e"
  by (simp_all add: SetWhere_def SetOrder_def)

interpretation cond: condition_sink
  "SetWhere :: string \<Rightarrow> goval list \<Rightarrow> GormCondition \<Rightarrow> GormCondition" SetOrder Where Order
  by unfold_locales (simp_all add: update_conv' distinct_update)

interpretation jn: condition_sink
  "SetWhere :: string \<Rightarrow> goval list \<Rightarrow> GormJoin \<Rightarrow> GormJoin" SetOrder Where Order
  by unfold_locales (simp_all add: update_conv' distinct_update)

section \<open>Flat queries\<close>

text \<open>A struct whose fields are all tagged and exported, none of them a join.\<close>

definition flat_field :: "gofield \<Rightarrow> bool" where
  "flat_field f \<longleftrightarrow> exported f \<and> (\<exists>tag. tag_lookup f FromQueryTag = Some tag
     \<and> Type (makeTag tag) \<notin> {''left'', ''inner''})"

definition request_of :: "gotext \<Rightarrow> string \<Rightarrow> gofield \<Rightarrow> request" where
  "request_of T driver f =
     (case tag_lookup f FromQueryTag of
        None \<Rightarrow> AskNothing
      | Some tag \<Rightarrow>
          if tag = ''-'' \<or> is_zero (field_value f) then AskNothing
          else (case field_request T driver (makeTag tag) (field_value f) of Some r \<Rightarrow> r | None \<Rightarrow> AskNothing))"

lemma field_request_flat:
  "Type t \<notin> {''left'', ''inner''} \<Longrightarrow> \<exists>r. field_request T driver t v = Some r \<and> (\<forall>s. r \<noteq> AskJoin s)"
  by (simp add: field_request_def Let_def)

lemma sink_requests:
  "(\<forall>s. r \<noteq> AskJoin s) \<Longrightarrow>
   (case r of AskNothing \<Rightarrow> Some (SCondition c) | AskWhere k vs \<Rightarrow> sink_where k vs (SCondition c)
      | AskOrder k \<Rightarrow> sink_order k (SCondition c) | AskJoin s \<Rightarrow> None)
   = Some (SCondition (cond.apply_request r c))"
  by (cases r) (simp_all add: cond.apply_request_def)

lemma resolve_flat:
  "list_all flat_field fs \<Longrightarrow>
   resolve_fields T driver fs (SCondition c)
     = Some (SCondition (fold cond.apply_request (map (request_of T driver) fs) c))"
proof (induction fs arbitrary: c)
  case (Cons f fs)
  obtain n tags v where f: "f = GoField n tags v" by (cases f)
  from Cons.prems obtain tag where t: "tag_lookup f FromQueryTag = Some tag" "exported f"
    "Type (makeTag tag) \<notin> {''left'', ''inner''}" by (auto simp: flat_field_def)
  then obtain r where r: "field_request T driver (makeTag tag) v = Some r" "\<forall>s. r \<noteq> AskJoin s"
    using field_request_flat by blast
  show ?case
  proof (cases "tag = ''-'' \<or> is_zero v")
    case True
    with Cons t f show ?thesis by (auto simp: request_of_def cond.apply_request_def)
  next
    case False
    have "request_of T driver f = r"
      using False t f r by (simp add: request_of_def)
    then show ?thesis
      using Cons False t f r by (cases r) (simp_all add: cond.apply_request_def)
  qed
qed simp

text \<open>The placeholders of a condition.\<close>

definition marks :: "string \<Rightarrow> nat" where
  "marks s = length (filter (\<lambda>c. c = CHR ''?'') s)"

lemma marks_append [simp]: "marks (a @ b) = marks a + marks b"
  by (simp add: marks_def)

lemma field_request_marks:
  assumes "marks (Table t) = 0" "marks (Column t) = 0"
    and "field_request T driver t v = Some (AskWhere k vs)"
  shows "marks k = length vs"
proof -
  have "marks (formatColumn driver (Table t) (Column t)) = 0"
    using assms(1,2) by (auto simp: formatColumn_def dq_def bq_def marks_def go_eval)
  with assms(3) show ?thesis
    by (auto simp: field_request_def Let_def like_word_def marks_def split: if_splits option.splits)
qed

lemma resolve_flat_conditions:
  assumes "list_all flat_field fs"
    and "\<forall>f \<in> set fs. \<forall>tag. tag_lookup f FromQueryTag = Some tag \<longrightarrow>
           marks (Table (makeTag tag)) = 0 \<and> marks (Column (makeTag tag)) = 0"
  shows "\<exists>c. ResolveSearchQuery T driver (VStruct ty fs) (SCondition empty_condition) = Some (SCondition c)
    \<and> map_of (Where c) = map_of (rev (concat (map (\<lambda>f. case request_of T driver f of
          AskWhere k v \<Rightarrow> [(k, v)] | _ \<Rightarrow> []) fs)))
    \<and> distinct (map fst (Where c))
    \<and> Order c = concat (map (\<lambda>f. case request_of T driver f of AskOrder k \<Rightarrow> [k] | _ \<Rightarrow> []) fs)
    \<and> Joins c = [] \<and> Or c = []
    \<and> (\<forall>k v. map_of (Where c) k = Some v \<longrightarrow> marks k = length v)"
proof -
  let ?rs = "map (request_of T driver) fs"
  let ?c = "fold cond.apply_request ?rs empty_condition"
  have j: "Joins (fold cond.apply_request rs c) = Joins c" "Or (fold cond.apply_request rs c) = Or c" for rs c
    by (induction rs arbitrary: c)
       (auto simp: cond.apply_request_def SetWhere_def SetOrder_def split: request.splits)
  have w: "map_of (Where ?c) = map_of (rev (concat (map (\<lambda>f. case request_of T driver f of
          AskWhere k v \<Rightarrow> [(k, v)] | _ \<Rightarrow> []) fs)))"
    and o': "Order ?c = concat (map (\<lambda>f. case request_of T driver f of AskOrder k \<Rightarrow> [k] | _ \<Rightarrow> []) fs)"
    using cond.fold_requests [of ?rs empty_condition]
    by (simp_all add: empty_condition_def o_def)
  have m: "marks k = length v" if "map_of (Where ?c) k = Some v" for k v
  proof -
    from that obtain f where f: "f \<in> set fs" "request_of T driver f = AskWhere k v"
      unfolding w by (auto dest!: map_of_SomeD split: request.splits)
    then obtain tag where "tag_lookup f FromQueryTag = Some tag"
      "field_request T driver (makeTag tag) (field_value f) = Some (AskWhere k v)"
      by (auto simp: request_of_def split: option.splits if_splits)
    with assms(2) f(1) field_request_marks show ?thesis by blast
  qed
  have "ResolveSearchQuery T driver (VStruct ty fs) (SCondition empty_condition) = Some (SCondition ?c)"
    using assms(1) by (simp add: ResolveSearchQuery_def resolve_flat)
  moreover have "distinct (map fst (Where ?c))"
    using cond.fold_distinct [of empty_condition ?rs] by (simp add: empty_condition_def)
  moreover have "Joins ?c = []" "Or ?c = []" by (simp_all add: j) (simp_all add: empty_condition_def)
  ultimately show ?thesis using w o' m by blast
qed

section \<open>Properties\<close>

text \<open>C6. A flat search struct becomes its conditions: the resulting map holds, for every condition
  text, the arguments of the last non-zero field with that text; the orders come in field order; no
  join is added; and every condition has as many placeholders as arguments.\<close>

theorem ResolveSearchQuery_flat:
  assumes "list_all flat_field fs"
    and "\<forall>f \<in> set fs. \<forall>tag. tag_lookup f FromQueryTag = Some tag \<longrightarrow>
           marks (Table (makeTag tag)) = 0 \<and> marks (Column (makeTag tag)) = 0"
  shows "\<exists>c. ResolveSearchQuery T driver (VStruct ty fs) (SCondition empty_condition) = Some (SCondition c)
    \<and> map_of (Where c) = map_of (rev (concat (map (\<lambda>f. case request_of T driver f of
          AskWhere k v \<Rightarrow> [(k, v)] | _ \<Rightarrow> []) fs)))
    \<and> distinct (map fst (Where c))
    \<and> Order c = concat (map (\<lambda>f. case request_of T driver f of AskOrder k \<Rightarrow> [k] | _ \<Rightarrow> []) fs)
    \<and> Joins c = []
    \<and> (\<forall>k v. map_of (Where c) k = Some v \<longrightarrow> marks k = length v)"
  using resolve_flat_conditions [OF assms] by blast

definition name_tag :: string where
  "name_tag = ''type:exact;column:name;table:users''"

lemma name_tag_made:
  "makeTag name_tag = \<lparr>Type = ''exact'', Column = ''name'', Table = ''users'', On = [], Join = []\<rparr>"
  by (simp add: makeTag_def name_tag_def apply_tag_part_def empty_tag_def Let_def)

definition name_field :: "string \<Rightarrow> gofield" where
  "name_field s = GoField ''Name'' [(''search'', name_tag)] (VString s)"

lemma name_field_lookup: "tag_lookup (name_field s) FromQueryTag = Some name_tag"
  by (simp add: name_field_def tag_lookup_def FromQueryTag_def)

theorem ResolveSearchQuery_flat_witness:
  "\<exists>c. ResolveSearchQuery ascii_tables ''mysql'' (VStruct ''q'' [name_field ''ann'', name_field []])
         (SCondition empty_condition) = Some (SCondition c)
     \<and> map_of (Where c) (bq @ ''users'' @ bq @ ''.'' @ bq @ ''name'' @ bq @ '' = ?'') = Some [VString ''ann'']"
proof -
  have flat: "list_all flat_field [name_field ''ann'', name_field []]"
    by (simp add: flat_field_def name_field_lookup name_tag_made)
       (simp add: exported_def name_field_def is_up_def byte_in_def)
  have marks: "\<forall>f \<in> set [name_field ''ann'', name_field []]. \<forall>tag. tag_lookup f FromQueryTag = Some tag \<longrightarrow>
           marks (Table (makeTag tag)) = 0 \<and> marks (Column (makeTag tag)) = 0"
    by (simp add: name_field_lookup name_tag_made marks_def)
  have "request_of ascii_tables ''mysql'' (name_field ''ann'')
      = AskWhere (bq @ ''users'' @ bq @ ''.'' @ bq @ ''name'' @ bq @ '' = ?'') [VString ''ann'']"
    "request_of ascii_tables ''mysql'' (name_field []) = AskNothing"
    by (simp_all add: request_of_def name_field_lookup name_tag_made)
       (simp_all add: name_field_def field_request_def formatColumn_def Postgres_driver_def name_tag_def)
  with ResolveSearchQuery_flat [OF flat marks, of ascii_tables "''mysql''" "''q''"]
  show ?thesis by auto
qed

text \<open>A join inside a joined struct is not supported: \<open>SetJoinOn\<close> of a join returns a nil
  condition, and the first condition or order of the inner struct panics.\<close>

theorem nested_join_panics:
  assumes "tag_lookup (GoField n tags v) FromQueryTag = Some tag" "exported (GoField n tags v)"
    and "Type (makeTag tag) \<in> {''left'', ''inner''}" "2 \<le> length (On (makeTag tag))"
    and "\<not> is_zero v" "tag \<noteq> ''-''"
    and "\<exists>ty gs. v = VStruct ty gs \<and> gs \<noteq> [] \<and> flat_field (hd gs)
          \<and> (\<exists>k vs. request_of T driver (hd gs) \<in> {AskWhere k vs, AskOrder k})"
  shows "resolve_fields T driver (GoField n tags v # fs) (SJoin j) = None
    \<and> (\<exists>j'. SetJoinOn (Type (makeTag tag)) sql (SCondition c) = Some (SJoin j'))"
proof -
  obtain ty g gs k vs where v: "v = VStruct ty (g # gs)" "flat_field g"
    "request_of T driver g \<in> {AskWhere k vs, AskOrder k}"
    using assms(7) by (metis list.collapse)
  obtain gn gt gv where g: "g = GoField gn gt gv" by (cases g)
  from v(2) obtain tg where tg: "tag_lookup g FromQueryTag = Some tg" "exported g"
    "Type (makeTag tg) \<notin> {''left'', ''inner''}" by (auto simp: flat_field_def)
  have nz: "\<not> (tg = ''-'' \<or> is_zero gv)"
    using v(3) tg(1) g by (auto simp: request_of_def)
  then have "field_request T driver (makeTag tg) gv = Some (request_of T driver g)"
    using field_request_flat [OF tg(3), of T driver gv] tg(1) g by (auto simp: request_of_def)
  then have nil: "resolve_value T driver v SNil = None"
    using v nz tg g by auto
  have "\<exists>sql. field_request T driver (makeTag tag) v = Some (AskJoin sql)"
    using assms(3,4) by (auto simp: field_request_def formatJoinSQL_def formatInnerJoins_def join_sql_def Let_def)
  then obtain sql where "field_request T driver (makeTag tag) v = Some (AskJoin sql)" ..
  then show ?thesis
    using assms(1,2,5,6) nil by simp
qed

definition join_tag :: string where
  "join_tag = ''type:left;table:users;on:id:dept_id;join:dept''"

lemma join_tag_made:
  "makeTag join_tag = \<lparr>Type = ''left'', Column = [], Table = ''users'', On = [''id'', ''dept_id''], Join = ''dept''\<rparr>"
  by (simp add: makeTag_def join_tag_def apply_tag_part_def empty_tag_def Let_def)

theorem nested_join_panics_witness:
  "resolve_fields ascii_tables ''mysql''
     [GoField ''Dept'' [(''search'', join_tag)] (VStruct ''d'' [name_field ''ann''])] (SJoin (empty_join [] [])) = None"
proof -
  have r: "request_of ascii_tables ''mysql'' (name_field ''ann'')
      = AskWhere (bq @ ''users'' @ bq @ ''.'' @ bq @ ''name'' @ bq @ '' = ?'') [VString ''ann'']"
    by (simp add: request_of_def name_field_lookup name_tag_made)
       (simp add: name_field_def field_request_def formatColumn_def Postgres_driver_def name_tag_def)
  have "flat_field (name_field ''ann'')"
    by (simp add: flat_field_def name_field_lookup name_tag_made)
       (simp add: exported_def name_field_def is_up_def byte_in_def)
  with r have ex: "\<exists>ty gs. VStruct ''d'' [name_field ''ann''] = VStruct ty gs \<and> gs \<noteq> [] \<and> flat_field (hd gs)
          \<and> (\<exists>k vs. request_of ascii_tables ''mysql'' (hd gs) \<in> {AskWhere k vs, AskOrder k})"
    by auto
  show ?thesis
    using nested_join_panics [OF _ _ _ _ _ _ ex, of "''Dept''" "[(''search'', join_tag)]" join_tag "[]"
        "empty_join [] []" "[]" empty_condition]
    by (simp add: tag_lookup_def FromQueryTag_def exported_def is_up_def byte_in_def join_tag_made name_field_def)
       (simp add: join_tag_def)
qed

text \<open>The rows a statement with an offset and a limit selects.\<close>

definition page_of :: "db \<Rightarrow> 'a list \<Rightarrow> 'a list" where
  "page_of db rows = (case db of [DbOffset off, DbLimit n] \<Rightarrow> take (nat (sint n)) (drop (nat (sint off)) rows) | _ \<Rightarrow> rows)"

lemma Paginate_window:
  assumes "0 < sint sz" "1 \<le> sint index" "(sint index - 1) * sint sz < 2 ^ 63"
  shows "page_of (Paginate sz index []) rows
       = take (nat (sint sz)) (drop (nat (sint index - 1) * nat (sint sz)) rows)"
proof -
  have one: "sint (1 :: int64) = 1" by simp
  have d: "sint (index - 1) = sint index - 1"
    using assms(2) sint_range64(2) [of index] by (subst sint_sub64) (simp_all add: one)
  have nn: "0 \<le> (sint index - 1) * sint sz"
    using assms(1,2) by simp
  then have "sint ((index - 1) * sz) = (sint index - 1) * sint sz"
    using assms(3) by (subst sint_mult64) (simp_all add: d)
  then show ?thesis
    using nn assms(1,2) by (simp add: Paginate_def page_of_def Let_def nat_mult_distrib not_less [symmetric])
qed

text \<open>The pages of a request partition the rows: with a positive page size, and as long as the
  offset fits 64 bits, the first \<open>k\<close> pages one after the other are the first \<open>k\<close> times page size
  rows, none lost and none twice.\<close>

theorem Paginate_pages:
  assumes "0 < sint sz" "int k * sint sz < 2 ^ 63"
  shows "concat (map (\<lambda>i. page_of (Paginate sz (word_of_int (int (Suc i))) []) rows) [0..<k])
       = take (k * nat (sint sz)) rows"
  using assms(2)
proof (induction k)
  case (Suc k)
  have k63: "int (Suc k) < 2 ^ 63"
    using Suc.prems assms(1) by (smt (verit) mult_less_cancel_left1 of_nat_0_le_iff mult_le_cancel_left1)
  then have s: "sint (word_of_int (int (Suc k)) :: int64) = int (Suc k)"
    by (intro sint_of_int64) simp_all
  have le: "int k * sint sz \<le> int (Suc k) * sint sz"
    using assms(1) by (intro mult_right_mono) simp_all
  have lt: "int k * sint sz < 2 ^ 63"
    using le Suc.prems by (rule le_less_trans)
  have "page_of (Paginate sz (word_of_int (int (Suc k))) []) rows
      = take (nat (sint sz)) (drop (nat (int (Suc k) - 1) * nat (sint sz)) rows)"
    using Paginate_window [of sz "word_of_int (int (Suc k))" rows, unfolded s] assms(1) lt by simp
  then have "page_of (Paginate sz (word_of_int (int (Suc k))) []) rows
      = take (nat (sint sz)) (drop (k * nat (sint sz)) rows)"
    by simp
  moreover have "concat (map (\<lambda>i. page_of (Paginate sz (word_of_int (int (Suc i))) []) rows) [0..<k])
       = take (k * nat (sint sz)) rows"
    using lt by (rule Suc.IH)
  moreover have "take (Suc k * nat (sint sz)) rows
      = take (k * nat (sint sz)) rows @ take (nat (sint sz)) (drop (k * nat (sint sz)) rows)"
    unfolding mult_Suc add.commute [of "nat (sint sz)"] by (rule take_add)
  ultimately show ?case by simp
qed simp

theorem Paginate_pages_witness:
  "page_of (Paginate 2 1 []) [''a'', ''b'', ''c''] @ page_of (Paginate 2 2 []) [''a'', ''b'', ''c''] = [''a'', ''b'', ''c'']"
  using Paginate_pages [of 2 2 "[''a'', ''b'', ''c'']"] by (simp add: upt_rec)

text \<open>How many parentheses a text leaves open.\<close>

definition depth :: "string \<Rightarrow> int" where
  "depth s = int (length (filter (\<lambda>c. c = CHR ''('') s)) - int (length (filter (\<lambda>c. c = CHR '')'') s))"

lemma depth_append: "depth (a @ b) = depth a + depth b"
  by (simp add: depth_def)

lemma depth_simps:
  "depth [] = 0"
  "depth (c # s) = (if c = CHR ''('' then 1 else 0) - (if c = CHR '')'' then 1 else 0) + depth s"
  by (simp_all add: depth_def)

lemma marks_simps: "marks [] = 0" "marks (c # s) = (if c = CHR ''?'' then 1 else 0) + marks s"
  by (simp_all add: marks_def)

text \<open>Every data scope produces a condition whose parentheses match, except the scope of a
  department with its children, whose statement has one parenthesis too few to close.\<close>

theorem PermissionData_parentheses:
  assumes "depth tableName = 0" "depth (DataFilter p) = 0"
  shows "\<forall>k v. DbWhere k v \<in> set (PermissionData tableName p []) \<longrightarrow>
     depth k = (if DataScope p = ''4'' then 1 else 0)
     \<and> (DataScope p \<noteq> ''2'' \<longrightarrow> marks k = marks tableName + length v)"
  using assms
  by (simp add: PermissionData_def depth_append depth_simps marks_simps)

theorem PermissionData_parentheses_witness:
  "\<exists>k v. PermissionData ''t'' (no_permission\<lparr>DataScope := ''4''\<rparr>) [] = [DbWhere k v] \<and> depth k = 1"
proof -
  obtain k v where c: "PermissionData ''t'' (no_permission\<lparr>DataScope := ''4''\<rparr>) [] = [DbWhere k v]"
    by (simp add: PermissionData_def)
  have "depth k = (if DataScope (no_permission\<lparr>DataScope := ''4''\<rparr>) = ''4'' then 1 else 0)"
    using PermissionData_parentheses [of "''t''" "no_permission\<lparr>DataScope := ''4''\<rparr>", rule_format, of k v] c
    by (simp add: no_permission_def depth_simps del: DataPermission.update_convs)
  then have "depth k = 1" by simp
  with c show ?thesis by blast
qed

end
