(* ===== verification/GormGen.thy ===== *)
theory GormGen
  imports Modelx Configx Errx "HOL-Library.Multiset"
begin

text \<open>
  The package \<open>gormx/gen\<close>: the description of databases, tables and columns that the code
  generator works on (\<open>db.go\<close>, \<open>table.go\<close>, \<open>cloumn.go\<close>), and the three services that read them
  from a database (\<open>mysql.go\<close>, \<open>pg_gen.go\<close>, \<open>sqlite.go\<close>, \<open>type.go\<close>). The rows a statement
  returns are the parameter \<open>Q\<close>, one function per statement of the source. Pointers between
  tables, columns and databases are addresses. The sorting of \<open>sort.Slice\<close> is the parameter
  \<open>sorter\<close>.
\<close>

section \<open>Data\<close>

type_synonym addr = nat

definition modelPath :: string where "modelPath = ''model''"
definition autoPath :: string where "autoPath = ''autocode_template/''"
definition apiPath :: string where "apiPath = ''api''"
definition apiDescPath :: string where "apiDescPath = ''api-desc''"
definition apiLogicPath :: string where "apiLogicPath = ''api-logic''"
definition handlerPath :: string where "handlerPath = ''handler''"
definition rpcPath :: string where "rpcPath = ''rpc''"
definition TempDownPath :: string where "TempDownPath = ''TempDown''"
definition rpcLogicPath :: string where "rpcLogicPath = ''rpc-logic''"
definition commonPath :: string where "commonPath = ''common''"
definition internalPath :: string where "internalPath = ''internal''"
definition svcPath :: string where "svcPath = ''svc''"
definition configPath :: string where "configPath = ''config''"
definition etcPath :: string where "etcPath = ''etc''"
definition logicPath :: string where "logicPath = ''logic''"
definition apiResponsePath :: string where "apiResponsePath = ''replay''"
definition webPath :: string where "webPath = ''web''"
definition indexPri :: string where "indexPri = ''PRIMARY''"

record CacheKey =
  ck_Key :: string
  ck_Value :: string
  ck_Field :: string
  ck_FieldJson :: string
  ck_DataType :: string

record Database =
  db_Id :: string
  db_Sort :: int64
  db_Name :: string
  db_Driver :: string
  db_Host :: string
  db_Port :: int64
  db_Username :: string
  db_Password :: string
  db_Dbname :: string
  db_Schema :: string
  db_Config :: string
  db_Remark :: string
  db_CreateBy :: string
  db_UpdateBy :: string
  db_ModelTime :: ModelTime
  db_AppName :: string
  db_TablePrefix :: string
  db_Package :: string
  db_Service :: string
  db_FileName :: string
  db_ParentPackage :: string
  db_Label :: string
  db_Mode :: string
  db_ApiHost :: string
  db_ApiPort :: int64
  db_RpcHost :: string
  db_RpcPort :: int64
  db_Author :: string
  db_Email :: string
  db_Dir :: string
  db_RedisHost :: string
  db_RedisPass :: string
  db_RedisKey :: string
  db_RedisType :: string
  db_EtcdHost :: string
  db_AccessSecret :: string
  db_IsFlow :: bool
  db_IsImport :: bool
  db_IsAuth :: bool
  db_IsDataScope :: bool
  db_HasTimer :: bool
  db_HasCacheKey :: bool
  db_NeedValid :: bool
  db_Postgres :: bool
  db_PkIsChar :: bool
  db_HasCode :: bool
  db_HasCache :: bool
  db_Tables :: "addr list"

record Table =
  tb_Id :: string
  tb_DatabaseId :: string
  tb_Name :: string
  tb_TableComment :: string
  tb_CreateBy :: string
  tb_UpdateBy :: string
  tb_Remark :: string
  tb_ModelTime :: ModelTime
  tb_AppName :: string
  tb_Db :: string
  tb_Table :: string
  tb_TableUrl :: string
  tb_Package :: string
  tb_ParentPackage :: string
  tb_Service :: string
  tb_Dir :: string
  tb_Author :: string
  tb_Email :: string
  tb_HasTimer :: bool
  tb_HasCacheKey :: bool
  tb_NeedValid :: bool
  tb_Postgres :: bool
  tb_IsCurd :: bool
  tb_IsDataScope :: bool
  tb_IsAuth :: bool
  tb_IsImport :: bool
  tb_IsFlow :: bool
  tb_PkIsChar :: bool
  tb_Columns :: "addr list"
  tb_Database :: "addr option"
  tb_CacheIndexKeys :: "CacheKey list"
  tb_CacheKeys :: "CacheKey list"

record DbColumn =
  dc_Id :: string
  dc_TableId :: string
  dc_Name :: string
  dc_GormName :: string
  dc_DbType :: string
  dc_DataType :: string
  dc_DataTypeLong :: string
  dc_DataTypeApi :: string
  dc_DataTypeProto :: string
  dc_Extra :: string
  dc_ColumnComment :: string
  dc_ColumnDefault :: goval
  dc_IsNullAble :: string
  dc_OrdinalPosition :: int64
  dc_FieldJson :: string
  dc_Tablename :: string
  dc_FieldName :: string
  dc_DictType :: string
  dc_ErrorText :: string
  dc_IsPage :: bool
  dc_IsControl :: bool
  dc_IsModelTime :: bool
  dc_IsNull :: bool
  dc_Clearable :: bool
  dc_Require :: bool
  dc_IsPk :: bool
  dc_IsList :: bool
  dc_Increment :: bool
  dc_IsEdit :: bool
  dc_IsSort :: bool
  dc_HtmlType :: string
  dc_FkTableId :: string
  dc_FkTable :: string
  dc_FkTableClass :: string
  dc_FkTablePackage :: string
  dc_FkLabelId :: string
  dc_FkLabelName :: string
  dc_Remark :: string
  dc_Sort :: int64
  dc_Table :: "addr option"
  dc_CreateBy :: string
  dc_UpdateBy :: string
  dc_ModelTime :: ModelTime
  dc_FormType :: string
  dc_FormOptions :: string
  dc_FormOptionLabel :: string
  dc_FormOptionValue :: string
  dc_FormMultiple :: bool
  dc_FormDisable :: bool
  dc_FormReadonly :: bool
  dc_FormClearable :: bool
  dc_FormRange :: bool
  dc_FormSize :: int64
  dc_FormColor :: string
  dc_FormTextColor :: string
  dc_FormSrc :: string
  dc_FormMin :: int64
  dc_FormMax :: int64
  dc_FormClass :: string

record DbIndex =
  IndexName :: string
  NonUnique :: int64
  SeqInIndex :: int64

record Column =
  IsPk :: bool
  Indexs :: int64
  DbCol :: DbColumn
  Index :: "DbIndex option"

record ColumnData =
  cd_Db :: string
  cd_Table :: string
  cd_Columns :: "Column list"

definition zero_model_time :: "time \<Rightarrow> ModelTime" where
  "zero_model_time z = \<lparr>CreatedAt = z, UpdatedAt = z, DeletedAt = None\<rparr>"

text \<open>The zero values of the composite literals; \<open>z\<close> is the zero \<open>time.Time\<close>.\<close>

definition zero_column :: "time \<Rightarrow> DbColumn" where
  "zero_column z =
     \<lparr>dc_Id = [], dc_TableId = [], dc_Name = [], dc_GormName = [], dc_DbType = [],
       dc_DataType = [], dc_DataTypeLong = [], dc_DataTypeApi = [], dc_DataTypeProto = [],
       dc_Extra = [], dc_ColumnComment = [], dc_ColumnDefault = VNil, dc_IsNullAble = [],
       dc_OrdinalPosition = 0, dc_FieldJson = [], dc_Tablename = [], dc_FieldName = [],
       dc_DictType = [], dc_ErrorText = [], dc_IsPage = False, dc_IsControl = False,
       dc_IsModelTime = False, dc_IsNull = False, dc_Clearable = False, dc_Require = False,
       dc_IsPk = False, dc_IsList = False, dc_Increment = False, dc_IsEdit = False,
       dc_IsSort = False, dc_HtmlType = [], dc_FkTableId = [], dc_FkTable = [],
       dc_FkTableClass = [], dc_FkTablePackage = [], dc_FkLabelId = [], dc_FkLabelName = [],
       dc_Remark = [], dc_Sort = 0, dc_Table = None, dc_CreateBy = [], dc_UpdateBy = [],
       dc_ModelTime = zero_model_time z, dc_FormType = [], dc_FormOptions = [],
       dc_FormOptionLabel = [], dc_FormOptionValue = [], dc_FormMultiple = False,
       dc_FormDisable = False, dc_FormReadonly = False, dc_FormClearable = False,
       dc_FormRange = False, dc_FormSize = 0, dc_FormColor = [], dc_FormTextColor = [],
       dc_FormSrc = [], dc_FormMin = 0, dc_FormMax = 0, dc_FormClass = []\<rparr>"

definition zero_table :: "time \<Rightarrow> Table" where
  "zero_table z =
     \<lparr>tb_Id = [], tb_DatabaseId = [], tb_Name = [], tb_TableComment = [], tb_CreateBy
       = [], tb_UpdateBy = [], tb_Remark = [], tb_ModelTime = zero_model_time z, tb_AppName
       = [], tb_Db = [], tb_Table = [], tb_TableUrl = [], tb_Package = [], tb_ParentPackage
       = [], tb_Service = [], tb_Dir = [], tb_Author = [], tb_Email = [], tb_HasTimer =
       False, tb_HasCacheKey = False, tb_NeedValid = False, tb_Postgres = False, tb_IsCurd =
       False, tb_IsDataScope = False, tb_IsAuth = False, tb_IsImport = False, tb_IsFlow =
       False, tb_PkIsChar = False, tb_Columns = [], tb_Database = None, tb_CacheIndexKeys =
       [], tb_CacheKeys = []\<rparr>"

record tb =
  TableName :: string
  tb_comment :: string

record MysqlColumn =
  mq_Name :: string
  mq_DataType :: string
  mq_DataTypeProto :: string
  mq_DataTypeLong :: string
  mq_Extra :: string
  mq_ColumnComment :: string
  mq_ColumnDefault :: "string option"
  mq_IsNullAble :: string
  mq_IsNull :: bool
  mq_OrdinalPosition :: int64
  mq_FieldJson :: string
  mq_FieldName :: string
  mq_Clearable :: bool
  mq_DictType :: string
  mq_Require :: bool
  mq_ErrorText :: string

record PostgresColumn =
  pc_Num :: "32 word"
  pc_Field :: string
  pc_Type :: string
  pc_DataTypeLong :: int64
  pc_NotNull :: bool
  pc_ColumnComment :: string
  pc_ColumnDefault :: string
  pc_IdentityIncrement :: "32 word"
  pc_IsPk :: bool
  pc_Extra :: string

record PostgreIndex =
  pi_IndexName :: "string option"
  pi_IndexId :: "32 word option"
  pi_IsUnique :: "bool option"
  pi_IsPrimary :: "bool option"
  pi_ColumnName :: "string option"
  pi_IndexSort :: "32 word option"

record SqliteColumn =
  sc_Cid :: int64
  sc_Name :: string
  sc_Type :: string
  sc_NotNull :: int64
  sc_DfltValue :: "string option"
  sc_PK :: int64

record SqliteIndex =
  si_Name :: string
  si_Unique :: int64

record SqliteIndexColumn =
  sx_Seqno :: int64
  sx_Cid :: int64
  sx_Name :: string

text \<open>A failed statement: gorm's \<open>ErrRecordNotFound\<close> or another error.\<close>

datatype db_error = RecordNotFound | QueryFailed string

record queries =
  q_pg_databases :: "db_error + Database list"
  q_pg_tables :: "db_error option \<times> tb list"
  q_pg_columns :: "string \<Rightarrow> db_error + PostgresColumn list"
  q_pg_indexes :: "string \<Rightarrow> string \<Rightarrow> db_error + PostgreIndex list"
  q_my_databases :: "db_error + Database list"
  q_my_tables :: "string \<Rightarrow> db_error option \<times> tb list"
  q_my_columns :: "string \<Rightarrow> string \<Rightarrow> db_error + MysqlColumn list"
  q_my_indexes :: "string \<Rightarrow> string \<Rightarrow> string \<Rightarrow> db_error + DbIndex list"
  q_sq_tables :: "db_error + string list"
  q_sq_columns :: "string \<Rightarrow> db_error + SqliteColumn list"
  q_sq_indexes :: "string \<Rightarrow> db_error + SqliteIndex list"
  q_sq_index_columns :: "string \<Rightarrow> SqliteIndexColumn list"

definition table_of :: "time \<Rightarrow> tb \<Rightarrow> Table" where
  "table_of z v = (zero_table z)\<lparr>tb_TableComment := tb_comment v, tb_Table := TableName v\<rparr>"

section \<open>PostgreSQL\<close>

definition p2m :: "string \<rightharpoonup> string" where
  "p2m = map_of [(''int8'', ''bigint''), (''numeric'', ''bigint''), (''float8'', ''double''),
     (''float4'', ''float''), (''int2'', ''smallint''), (''int4'', ''integer''), (''timestamptz'', ''timestamp'')]"

definition convertPostgreSqlTypeIntoMysqlType :: "gotext \<Rightarrow> string \<Rightarrow> string" where
  "convertPostgreSqlTypeIntoMysqlType T s = (case p2m (to_lower T s) of Some r \<Rightarrow> r | None \<Rightarrow> s)"

definition pg_GetDB :: "queries \<Rightarrow> db_error + Database list" where
  "pg_GetDB Q = q_pg_databases Q"

definition pg_GetTables :: "time \<Rightarrow> queries \<Rightarrow> Table list \<times> db_error option" where
  "pg_GetTables z Q = (let (err, tables) = q_pg_tables Q in (map (table_of z) tables, err))"

definition pg_FindIndex :: "queries \<Rightarrow> string \<Rightarrow> string \<Rightarrow> db_error + PostgreIndex list" where
  "pg_FindIndex Q schema table = q_pg_indexes Q schema table"

text \<open>The fields of the nullable SQL types are zero when the column is null.\<close>

definition null_string :: "string option \<Rightarrow> string" where
  "null_string s = (case s of Some x \<Rightarrow> x | None \<Rightarrow> [])"

definition null_bool :: "bool option \<Rightarrow> bool" where
  "null_bool b = (b = Some True)"

definition null_int :: "32 word option \<Rightarrow> int64" where
  "null_int i = (case i of Some x \<Rightarrow> scast x | None \<Rightarrow> 0)"

definition primary_index :: "PostgreIndex \<Rightarrow> DbIndex" where
  "primary_index e = \<lparr>IndexName = indexPri, NonUnique = 0, SeqInIndex = null_int (pi_IndexSort e)\<rparr>"

definition plain_index :: "PostgreIndex \<Rightarrow> DbIndex" where
  "plain_index e = \<lparr>IndexName = null_string (pi_IndexName e),
     NonUnique = (if \<not> null_bool (pi_IsUnique e) then 1 else 0), SeqInIndex = null_int (pi_IndexSort e)\<rparr>"

text \<open>The loop of \<open>getIndex\<close>: the indexes per column and the columns seen.\<close>

fun index_loop ::
  "PostgreIndex list \<Rightarrow> (string \<rightharpoonup> DbIndex list) \<Rightarrow> string set \<Rightarrow> (string \<rightharpoonup> DbIndex list)" where
  "index_loop [] index indexMap = index"
| "index_loop (e # es) index indexMap =
     (let c = null_string (pi_ColumnName e) in
      if null_bool (pi_IsPrimary e) then index_loop es (index(c \<mapsto> [primary_index e])) (insert c indexMap)
      else if c \<in> indexMap then index_loop es index indexMap
      else index_loop es
             (index(c \<mapsto> (case index c of Some l \<Rightarrow> l | None \<Rightarrow> []) @ [plain_index e])) (insert c indexMap))"

definition getIndex :: "queries \<Rightarrow> string \<Rightarrow> string \<Rightarrow> db_error + (string \<rightharpoonup> DbIndex list)" where
  "getIndex Q schema table =
     (case pg_FindIndex Q schema table of
        Inl e \<Rightarrow> Inl e
      | Inr indexes \<Rightarrow> Inr (index_loop indexes Map.empty {}))"

definition pg_extra :: "string \<Rightarrow> PostgresColumn \<Rightarrow> string" where
  "pg_extra table e =
     (let extra = (if pc_IdentityIncrement e = 1 then ''auto_increment'' else [])
      in if contains (pc_ColumnDefault e) (table @ ''_'' @ pc_Field e @ ''_seq'') then ''auto_increment'' else extra)"

definition pg_dbcolumn :: "gotext \<Rightarrow> time \<Rightarrow> string \<Rightarrow> PostgresColumn \<Rightarrow> DbColumn" where
  "pg_dbcolumn T z table e = (zero_column z)\<lparr>dc_Name := pc_Field e,
     dc_DataType := convertPostgreSqlTypeIntoMysqlType T (pc_Type e), dc_Extra := pg_extra table e,
     dc_ColumnComment := pc_ColumnComment e,
     dc_ColumnDefault := (if 0 < length (pc_ColumnDefault e) then VString (pc_ColumnDefault e) else VNil),
     dc_IsNullAble := (if pc_NotNull e then ''NO'' else ''YES''),
     dc_DataTypeLong := itoa (sint (pc_DataTypeLong e)), dc_OrdinalPosition := scast (pc_Num e)\<rparr>"

definition pg_columns_of ::
  "gotext \<Rightarrow> time \<Rightarrow> string \<Rightarrow> (string \<rightharpoonup> DbIndex list) \<Rightarrow> PostgresColumn \<Rightarrow> Column list" where
  "pg_columns_of T z table index e =
     (case index (pc_Field e) of
        Some (i # is) \<Rightarrow>
          map (\<lambda>i. \<lparr>IsPk = pc_IsPk e, Indexs = 0, DbCol = pg_dbcolumn T z table e, Index = Some i\<rparr>) (i # is)
      | _ \<Rightarrow> [\<lparr>IsPk = pc_IsPk e, Indexs = 0, DbCol = (pg_dbcolumn T z table e)\<lparr>dc_IsPk := pc_IsPk e\<rparr>,
                Index = None\<rparr>])"

definition getColumns ::
  "gotext \<Rightarrow> time \<Rightarrow> queries \<Rightarrow> string \<Rightarrow> string \<Rightarrow> PostgresColumn list \<Rightarrow> db_error + Column list" where
  "getColumns T z Q schema table cols =
     (case getIndex Q schema table of
        Inl e \<Rightarrow> Inl e
      | Inr index \<Rightarrow> Inr (fold (\<lambda>e lst. lst @ pg_columns_of T z table index e) cols []))"

definition pg_GetColumn :: "gotext \<Rightarrow> time \<Rightarrow> queries \<Rightarrow> string \<Rightarrow> string \<Rightarrow> db_error + ColumnData" where
  "pg_GetColumn T z Q db table =
     (case q_pg_columns Q table of
        Inl e \<Rightarrow> Inl e
      | Inr reply \<Rightarrow>
          (case getColumns T z Q ''public'' table reply of
             Inl e \<Rightarrow> Inl e
           | Inr lst \<Rightarrow> Inr \<lparr>cd_Db = db, cd_Table = table, cd_Columns = lst\<rparr>))"

section \<open>MySQL\<close>

definition my_GetDB :: "queries \<Rightarrow> db_error + Database list" where
  "my_GetDB Q = q_my_databases Q"

definition my_GetTables :: "time \<Rightarrow> queries \<Rightarrow> string \<Rightarrow> Table list \<times> db_error option" where
  "my_GetTables z Q db = (let (err, tables) = q_my_tables Q db in (map (table_of z) tables, err))"

definition my_FindIndex :: "queries \<Rightarrow> string \<Rightarrow> string \<Rightarrow> string \<Rightarrow> db_error + DbIndex list" where
  "my_FindIndex Q db table column = q_my_indexes Q db table column"

text \<open>The default is handed on as the \<open>sql.NullString\<close> itself when its text is not empty.\<close>

definition null_string_value :: "string option \<Rightarrow> goval" where
  "null_string_value s = VStruct ''sql.NullString''
     [GoField ''String'' [] (VString (null_string s)), GoField ''Valid'' [] (VOther ''bool''
        (if s = None then ''false'' else ''true'') (s = None))]"

definition my_dbcolumn :: "time \<Rightarrow> MysqlColumn \<Rightarrow> DbColumn" where
  "my_dbcolumn z item = (zero_column z)\<lparr>dc_Name := mq_Name item, dc_DataType := mq_DataType item,
     dc_Extra := mq_Extra item, dc_ColumnComment := mq_ColumnComment item,
     dc_ColumnDefault := (if 0 < length (null_string (mq_ColumnDefault item))
        then null_string_value (mq_ColumnDefault item) else VNil),
     dc_IsNullAble := mq_IsNullAble item, dc_OrdinalPosition := mq_OrdinalPosition item\<rparr>"

definition with_indexes :: "DbColumn \<Rightarrow> DbIndex list \<Rightarrow> Column list" where
  "with_indexes dbc index =
     (if 0 < length index
      then map (\<lambda>i. \<lparr>IsPk = False, Indexs = 0, DbCol = dbc, Index = Some i\<rparr>) index
      else [\<lparr>IsPk = False, Indexs = 0, DbCol = dbc, Index = None\<rparr>])"

fun my_column_loop ::
  "time \<Rightarrow> queries \<Rightarrow> string \<Rightarrow> string \<Rightarrow> MysqlColumn list \<Rightarrow> Column list \<Rightarrow> db_error + Column list" where
  "my_column_loop z Q db table [] lst = Inr lst"
| "my_column_loop z Q db table (item # items) lst =
     (case my_FindIndex Q db table (mq_Name item) of
        Inl err \<Rightarrow> if err \<noteq> RecordNotFound then Inl err else my_column_loop z Q db table items lst
      | Inr index \<Rightarrow> my_column_loop z Q db table items (lst @ with_indexes (my_dbcolumn z item) index))"

definition ordinal :: "Column \<Rightarrow> int" where
  "ordinal c = sint (dc_OrdinalPosition (DbCol c))"

definition my_GetColumn ::
  "(Column list \<Rightarrow> Column list) \<Rightarrow> time \<Rightarrow> queries \<Rightarrow> string \<Rightarrow> string \<Rightarrow> db_error + ColumnData" where
  "my_GetColumn sorter z Q db table =
     (case q_my_columns Q db table of
        Inl e \<Rightarrow> Inl e
      | Inr reply \<Rightarrow>
          (case my_column_loop z Q db table reply [] of
             Inl e \<Rightarrow> Inl e
           | Inr lst \<Rightarrow> Inr \<lparr>cd_Db = db, cd_Table = table, cd_Columns = sorter lst\<rparr>))"

section \<open>SQLite\<close>

definition ifThenInt :: "bool \<Rightarrow> int64 \<Rightarrow> int64 \<Rightarrow> int64" where
  "ifThenInt cond a b = (if cond then a else b)"

definition sq_GetDB :: "db_error + Database list" where
  "sq_GetDB = Inr []"

definition sq_GetTables :: "time \<Rightarrow> queries \<Rightarrow> db_error + Table list" where
  "sq_GetTables z Q =
     (case q_sq_tables Q of Inl e \<Rightarrow> Inl e
      | Inr tables \<Rightarrow> Inr (map (\<lambda>t. (zero_table z)\<lparr>tb_Table := t\<rparr>) tables))"

definition sq_FindIndex :: "queries \<Rightarrow> string \<Rightarrow> string \<Rightarrow> db_error + DbIndex list" where
  "sq_FindIndex Q table column =
     (case q_sq_indexes Q table of
        Inl e \<Rightarrow> Inl e
      | Inr indexes \<Rightarrow> Inr (concat (map (\<lambda>idx.
          concat (map (\<lambda>col. if sx_Name col = column
              then [\<lparr>IndexName = si_Name idx, NonUnique = ifThenInt (si_Unique idx = 0) 1 0, SeqInIndex = sx_Seqno col\<rparr>]
              else []) (q_sq_index_columns Q (si_Name idx)))) indexes)))"

definition sq_dbcolumn :: "time \<Rightarrow> SqliteColumn \<Rightarrow> DbColumn" where
  "sq_dbcolumn z item = (zero_column z)\<lparr>dc_Name := sc_Name item, dc_DataType := sc_Type item,
     dc_ColumnDefault := VString (null_string (sc_DfltValue item)),
     dc_IsNullAble := (if sc_NotNull item = 0 then ''YES'' else ''NO''), dc_OrdinalPosition := sc_Cid item\<rparr>"

text \<open>A column whose indexes cannot be read is left out.\<close>

definition sq_columns :: "time \<Rightarrow> queries \<Rightarrow> string \<Rightarrow> SqliteColumn list \<Rightarrow> Column list" where
  "sq_columns z Q table cols =
     concat (map (\<lambda>item. case sq_FindIndex Q table (sc_Name item) of
        Inl _ \<Rightarrow> [] | Inr index \<Rightarrow> with_indexes (sq_dbcolumn z item) index) cols)"

definition sq_GetColumn ::
  "(Column list \<Rightarrow> Column list) \<Rightarrow> time \<Rightarrow> queries \<Rightarrow> string \<Rightarrow> string \<Rightarrow> db_error + ColumnData" where
  "sq_GetColumn sorter z Q db table =
     (case q_sq_columns Q table of
        Inl e \<Rightarrow> Inl e
      | Inr cols \<Rightarrow> Inr \<lparr>cd_Db = db, cd_Table = table, cd_Columns = sorter (sq_columns z Q table cols)\<rparr>)"

section \<open>Services\<close>

datatype service = SvcMysql | SvcPostgres | SvcSqlite

text \<open>The method \<open>GetColumn\<close> of the service behind the interface.\<close>

definition svc_GetColumn ::
  "service \<Rightarrow> gotext \<Rightarrow> (Column list \<Rightarrow> Column list) \<Rightarrow> time \<Rightarrow> queries \<Rightarrow> string \<Rightarrow> string \<Rightarrow> db_error + ColumnData" where
  "svc_GetColumn svc T sorter z Q db table =
     (case svc of SvcMysql \<Rightarrow> my_GetColumn sorter z Q db table
      | SvcPostgres \<Rightarrow> pg_GetColumn T z Q db table
      | SvcSqlite \<Rightarrow> sq_GetColumn sorter z Q db table)"

record 'tx AutoCodeService =
  acd_DB :: service
  acd_tx :: 'tx
  mode :: string
  overwrite :: bool
  acd_Database :: "Database option"
  oneMode :: bool

text \<open>The service for an open connection goes by the name of its dialect.\<close>

definition service_of_dialect :: "string \<Rightarrow> service" where
  "service_of_dialect name =
     (if name = MySQL then SvcMysql else if name = Postgres then SvcPostgres
      else if name = Sqlite then SvcSqlite else SvcMysql)"

definition NewAutoCodeServiceByDB :: "('tx \<Rightarrow> string) \<Rightarrow> 'tx \<Rightarrow> 'tx AutoCodeService" where
  "NewAutoCodeServiceByDB name tx =
     \<lparr>acd_DB = service_of_dialect (name tx), acd_tx = tx, mode = [], overwrite = False,
      acd_Database = None, oneMode = False\<rparr>"

definition db_conf :: "Database \<Rightarrow> DbConf" where
  "db_conf db = \<lparr>Driver = db_Driver db, Host = db_Host db, Port = db_Port db, Dbname = db_Dbname db,
     Username = db_Username db, Password = db_Password db, TimeZone = [], SslMode = [],
     Config = db_Config db, MaxIdleConns = 0, MaxOpenConns = 0, LogMode = [], LogColorful = False,
     conf_SlowThreshold = 0, Schema = [], TablePrefix = db_TablePrefix db\<rparr>"

definition service_of_driver :: "string \<Rightarrow> service" where
  "service_of_driver d =
     (if d = MySQL then SvcMysql else if d = Sqlite then SvcPostgres else SvcMysql)"

text \<open>The error is the \<open>CodeError\<close> of the code \<open>DbError\<close>, wrapped with the cause.\<close>

definition NewAutoCodeService ::
  "gormlib \<Rightarrow> Database \<Rightarrow> bool list \<Rightarrow> (CodeError \<times> conn_error) + gormdb AutoCodeService" where
  "NewAutoCodeService G db one =
     (case GetConnect G (db_conf db) of
        Inl err \<Rightarrow> Inl (NewErrCode DbError, err)
      | Inr tx \<Rightarrow> Inr \<lparr>acd_DB = service_of_driver (db_Driver db), acd_tx = tx, mode = db_Mode db,
          overwrite = True, acd_Database = Some db, oneMode = (one \<noteq> [] \<and> hd one)\<rparr>)"

text \<open>\<open>SearchKey\<close> of \<open>gormx/search.go\<close>: the condition on a keyword. \<open>show_data\<close> is the text the verb
  \<open>%v\<close> gives for the column data, \<open>schema_name\<close> the naming strategy of gorm.\<close>

definition SearchKey ::
  "gotext \<Rightarrow> (Column list \<Rightarrow> Column list) \<Rightarrow> time \<Rightarrow> (string \<Rightarrow> string) \<Rightarrow> (ColumnData \<Rightarrow> string)
   \<Rightarrow> string \<Rightarrow> queries \<Rightarrow> string \<Rightarrow> string \<Rightarrow> string" where
  "SearchKey T sorter z schema_name show_data dialect Q table key =
     (let app = NewAutoCodeServiceByDB (\<lambda>_. dialect) (); database = schema_name table in
      case svc_GetColumn (acd_DB app) T sorter z Q database table of
        Inl _ \<Rightarrow> []
      | Inr field \<Rightarrow>
          if dialect = MySQL then
            ''concat('' @ show_data field @ '') like '' @ [char_of (39 :: nat)] @ ''%'' @ key @ ''%'' @ [char_of (39 :: nat)]
          else if dialect = Postgres then
            ''CAST('' @ [char_of (34 :: nat)] @ table @ [char_of (34 :: nat)] @ '' AS text) ~ ''
              @ [char_of (39 :: nat)] @ key @ [char_of (39 :: nat)]
          else [])"

section \<open>Lemmas\<close>

text \<open>The index a column ends with: the last primary entry, or else the first entry of the column.\<close>

definition of_column :: "string \<Rightarrow> PostgreIndex \<Rightarrow> bool" where
  "of_column c e \<longleftrightarrow> null_string (pi_ColumnName e) = c"

text \<open>The last primary entry of a column.\<close>

definition last_primary :: "PostgreIndex list \<Rightarrow> string \<Rightarrow> PostgreIndex option" where
  "last_primary es c = find (\<lambda>e. of_column c e \<and> null_bool (pi_IsPrimary e)) (rev es)"

lemma find_snoc: "find P (xs @ [y]) = (case find P xs of None \<Rightarrow> if P y then Some y else None | Some x \<Rightarrow> Some x)"
  by (induction xs) auto

lemma last_primary_simps [simp]:
  "last_primary [] c = None"
  "last_primary (e # es) c = (case last_primary es c of
     None \<Rightarrow> if of_column c e \<and> null_bool (pi_IsPrimary e) then Some e else None | Some x \<Rightarrow> Some x)"
  by (simp_all add: last_primary_def find_snoc)

definition column_index :: "PostgreIndex list \<Rightarrow> string \<Rightarrow> DbIndex option" where
  "column_index es c =
     (case last_primary es c of
        None \<Rightarrow> map_option plain_index (find (of_column c) es)
      | Some e \<Rightarrow> Some (primary_index e))"

lemma index_loop_spec:
  "dom index = seen \<Longrightarrow>
   index_loop es index seen c =
     (case last_primary es c of
        None \<Rightarrow> if c \<in> seen then index c else map_option (\<lambda>e. [plain_index e]) (find (of_column c) es)
      | Some e \<Rightarrow> Some [primary_index e])"
proof (induction es arbitrary: index seen)
  case Nil
  then show ?case by (auto simp: domIff)
next
  case (Cons e es)
  let ?d = "null_string (pi_ColumnName e)"
  consider "null_bool (pi_IsPrimary e)" | "\<not> null_bool (pi_IsPrimary e)" "?d \<in> seen"
    | "\<not> null_bool (pi_IsPrimary e)" "?d \<notin> seen" by blast
  then show ?case
  proof cases
    case 1
    define index' where "index' = index(?d \<mapsto> [primary_index e])"
    have "dom index' = insert ?d seen" using Cons.prems by (simp add: index'_def)
    note IH = Cons.IH [OF this]
    have "index_loop (e # es) index seen c = index_loop es index' (insert ?d seen) c"
      using 1 by (simp add: index'_def Let_def)
    then show ?thesis unfolding IH using 1
      by (cases "last_primary es c") (simp_all add: of_column_def index'_def)
  next
    case 2
    then have "index_loop (e # es) index seen c = index_loop es index seen c" by (simp add: Let_def)
    then show ?thesis unfolding Cons.IH [OF Cons.prems] using 2
      by (cases "last_primary es c") (auto simp: of_column_def)
  next
    case 3
    define index' where "index' = index(?d \<mapsto> [plain_index e])"
    have "dom index' = insert ?d seen" using Cons.prems by (simp add: index'_def)
    note IH = Cons.IH [OF this]
    have none: "index ?d = None" using Cons.prems 3 by auto
    have "index_loop (e # es) index seen c = index_loop es index' (insert ?d seen) c"
      using 3 none by (simp add: index'_def Let_def)
    then show ?thesis unfolding IH using 3
      by (cases "last_primary es c") (simp_all add: of_column_def index'_def)
  qed
qed

lemma index_loop_column:
  "index_loop es Map.empty {} c = map_option (\<lambda>i. [i]) (column_index es c)"
  by (subst index_loop_spec) (simp_all add: column_index_def option.map_comp o_def split: option.split)

lemma fold_append_concat: "fold (\<lambda>x acc. acc @ f x) xs acc = acc @ concat (map f xs)"
  by (induction xs arbitrary: acc) simp_all

lemma getColumns_map:
  assumes "pg_FindIndex Q schema table = Inr es"
  shows "getColumns T z Q schema table cols = Inr (map (\<lambda>e.
     \<lparr>IsPk = pc_IsPk e, Indexs = 0,
      DbCol = (if column_index es (pc_Field e) = None then (pg_dbcolumn T z table e)\<lparr>dc_IsPk := pc_IsPk e\<rparr>
               else pg_dbcolumn T z table e),
      Index = column_index es (pc_Field e)\<rparr>) cols)"
proof -
  have one: "pg_columns_of T z table (index_loop es Map.empty {}) e = [
     \<lparr>IsPk = pc_IsPk e, Indexs = 0,
      DbCol = (if column_index es (pc_Field e) = None then (pg_dbcolumn T z table e)\<lparr>dc_IsPk := pc_IsPk e\<rparr>
               else pg_dbcolumn T z table e),
      Index = column_index es (pc_Field e)\<rparr>]" for e
    by (cases "column_index es (pc_Field e)") (simp_all add: pg_columns_of_def index_loop_column)
  have "concat (map (\<lambda>e. [f e]) cols) = map f cols" for f :: "PostgresColumn \<Rightarrow> Column"
    by (induction cols) simp_all
  with assms show ?thesis
    by (simp add: getColumns_def getIndex_def fold_append_concat one)
qed

text \<open>The columns of MySQL and SQLite come out ordered, whatever the database returned.\<close>

definition sorts_columns :: "(Column list \<Rightarrow> Column list) \<Rightarrow> bool" where
  "sorts_columns sorter \<longleftrightarrow> (\<forall>lst. mset (sorter lst) = mset lst \<and> sorted (map ordinal (sorter lst)))"

lemma my_GetColumn_sorted:
  "sorts_columns sorter \<Longrightarrow> my_GetColumn sorter z Q db table = Inr d \<Longrightarrow> sorted (map ordinal (cd_Columns d))"
  by (auto simp: my_GetColumn_def sorts_columns_def split: sum.splits)

lemma sq_GetColumn_sorted:
  "sorts_columns sorter \<Longrightarrow> sq_GetColumn sorter z Q db table = Inr d \<Longrightarrow> sorted (map ordinal (cd_Columns d))"
  by (auto simp: sq_GetColumn_def sorts_columns_def split: sum.splits)

lemma zero_not_pk [simp]: "dc_IsPk (zero_column z) = False" "dc_Name (zero_column z) = []"
  by (simp_all add: zero_column_def)

section \<open>Properties\<close>

text \<open>C12. \<open>getIndex\<close> gives every column at most one index: its last primary entry under the name
  \<open>PRIMARY\<close> if it has one, whatever came before, and otherwise its first entry.\<close>

theorem getIndex_one_per_column:
  assumes "pg_FindIndex Q schema table = Inr es"
  shows "\<exists>index. getIndex Q schema table = Inr index \<and> (\<forall>c.
     index c = (case find (\<lambda>e. of_column c e \<and> null_bool (pi_IsPrimary e)) (rev es) of
        Some e \<Rightarrow> Some [primary_index e]
      | None \<Rightarrow> map_option (\<lambda>e. [plain_index e]) (find (of_column c) es)))"
proof -
  have "getIndex Q schema table = Inr (index_loop es Map.empty {})"
    using assms by (simp add: getIndex_def)
  then show ?thesis
    by (simp add: index_loop_column column_index_def last_primary_def option.map_comp o_def split: option.split)
qed

definition id_primary :: PostgreIndex where
  "id_primary = \<lparr>pi_IndexName = Some ''users_pkey'', pi_IndexId = Some 1, pi_IsUnique = Some True,
     pi_IsPrimary = Some True, pi_ColumnName = Some ''id'', pi_IndexSort = Some 1\<rparr>"

definition id_plain :: PostgreIndex where
  "id_plain = id_primary\<lparr>pi_IndexName := Some ''users_id'', pi_IsPrimary := Some False\<rparr>"

definition one_table :: queries where
  "one_table = \<lparr>q_pg_databases = Inr [], q_pg_tables = (None, []), q_pg_columns = (\<lambda>_. Inr []),
     q_pg_indexes = (\<lambda>_ _. Inr [id_plain, id_primary]), q_my_databases = Inr [], q_my_tables = (\<lambda>_. (None, [])),
     q_my_columns = (\<lambda>_ _. Inr []), q_my_indexes = (\<lambda>_ _ _. Inr []), q_sq_tables = Inr [],
     q_sq_columns = (\<lambda>_. Inr []), q_sq_indexes = (\<lambda>_. Inr []), q_sq_index_columns = (\<lambda>_. [])\<rparr>"

theorem getIndex_one_per_column_witness:
  "\<exists>index. getIndex one_table ''public'' ''users'' = Inr index \<and> index ''id'' = Some [primary_index id_primary]"
proof -
  have f: "pg_FindIndex one_table ''public'' ''users'' = Inr [id_plain, id_primary]"
    by (simp add: pg_FindIndex_def one_table_def)
  have last: "find (\<lambda>e. of_column ''id'' e \<and> null_bool (pi_IsPrimary e)) (rev [id_plain, id_primary]) = Some id_primary"
    by (simp add: of_column_def id_primary_def id_plain_def null_bool_def null_string_def)
  obtain index where i: "getIndex one_table ''public'' ''users'' = Inr index"
    "\<forall>c. index c = (case find (\<lambda>e. of_column c e \<and> null_bool (pi_IsPrimary e)) (rev [id_plain, id_primary]) of
        Some e \<Rightarrow> Some [primary_index e]
      | None \<Rightarrow> map_option (\<lambda>e. [plain_index e]) (find (of_column c) [id_plain, id_primary]))"
    using getIndex_one_per_column [OF f] by (elim exE conjE)
  have "index ''id'' = Some [primary_index id_primary]"
    unfolding i(2) [rule_format, of "''id''"] last by (rule option.case(2))
  with i(1) show ?thesis by (intro exI conjI)
qed

text \<open>C8. \<open>getColumns\<close> returns one column per row, in the order of the rows, with the primary flag of
  the row; but the flag inside the embedded column record is set only for columns without an index,
  so that a primary key column, which has its primary index, is recorded there as no key.\<close>

theorem getColumns_one_per_row:
  assumes "pg_FindIndex Q schema table = Inr es"
  shows "\<exists>lst. getColumns T z Q schema table cols = Inr lst
    \<and> map (dc_Name \<circ> DbCol) lst = map pc_Field cols \<and> map IsPk lst = map pc_IsPk cols
    \<and> (\<forall>c \<in> set lst. dc_IsPk (DbCol c) \<longleftrightarrow> IsPk c \<and> Index c = None)"
  using getColumns_map [OF assms, of T z cols]
  by (auto simp: pg_dbcolumn_def)

definition id_column :: PostgresColumn where
  "id_column = \<lparr>pc_Num = 1, pc_Field = ''id'', pc_Type = ''int8'', pc_DataTypeLong = 8, pc_NotNull = True,
     pc_ColumnComment = [], pc_ColumnDefault = [], pc_IdentityIncrement = 0, pc_IsPk = True, pc_Extra = []\<rparr>"

theorem getColumns_one_per_row_witness:
  "\<exists>c. getColumns ascii_tables 0 one_table ''public'' ''users'' [id_column] = Inr [c]
     \<and> IsPk c \<and> (dc_IsPk (DbCol c) \<longleftrightarrow> Index c = None)"
proof -
  have f: "pg_FindIndex one_table ''public'' ''users'' = Inr [id_plain, id_primary]"
    by (simp add: pg_FindIndex_def one_table_def)
  from getColumns_one_per_row [OF f, of ascii_tables 0 "[id_column]"]
  obtain lst where lst: "getColumns ascii_tables 0 one_table ''public'' ''users'' [id_column] = Inr lst"
    "map IsPk lst = [pc_IsPk id_column]" "\<forall>c \<in> set lst. dc_IsPk (DbCol c) \<longleftrightarrow> IsPk c \<and> Index c = None" by auto
  from lst(2) obtain c where "lst = [c]" "IsPk c" by (cases lst) (auto simp: id_column_def)
  with lst show ?thesis by auto
qed

text \<open>The generator for a stored data source picks the service that fits the dialect of the
  connection only for MySQL: a PostgreSQL source is read with the statements of MySQL and a SQLite
  source with those of PostgreSQL, while the generator for an open connection picks by dialect.\<close>

theorem NewAutoCodeService_mismatch:
  assumes "NewAutoCodeService G db one = Inr s"
  shows "db_Driver db \<in> {MySQL, Postgres, Sqlite}
    \<and> acd_DB (NewAutoCodeServiceByDB (\<lambda>_. db_Driver db) tx) = service_of_dialect (db_Driver db)
    \<and> (acd_DB s = service_of_dialect (db_Driver db) \<longleftrightarrow> db_Driver db = MySQL)"
proof -
  obtain conn where c: "GetConnect G (db_conf db) = Inr conn"
    and s: "acd_DB s = service_of_driver (db_Driver db)"
    using assms by (auto simp: NewAutoCodeService_def split: sum.splits)
  have "db_Driver db \<in> {MySQL, Postgres, Sqlite}"
    using GetConnect_driver [OF c] by (simp add: db_conf_def AllDBTypes_def)
  then show ?thesis
    by (auto simp: s service_of_driver_def service_of_dialect_def NewAutoCodeServiceByDB_def drivers_distinct
        drivers_distinct [symmetric])
qed

definition pg_source :: "Database \<Rightarrow> Database" where
  "pg_source db = db\<lparr>db_Driver := Postgres, db_Dbname := ''app''\<rparr>"

theorem NewAutoCodeService_mismatch_witness:
  "\<forall>db. \<exists>s. NewAutoCodeService always_up (pg_source db) [] = Inr s \<and> acd_DB s \<noteq> SvcPostgres"
proof
  fix db
  have "pg_Dbname (pgsql_of (db_conf (pg_source db))) \<noteq> []"
    by (simp add: pgsql_of_def db_conf_def pg_source_def)
  from always_up_connects(2) [OF this] obtain conn where "GetConnect always_up (db_conf (pg_source db)) = Inr conn"
    by (auto simp: GetConnect_def db_conf_def pg_source_def)
  then obtain s where s: "NewAutoCodeService always_up (pg_source db) [] = Inr s"
    by (auto simp: NewAutoCodeService_def)
  from NewAutoCodeService_mismatch [OF this, of "()"] show "\<exists>s. NewAutoCodeService always_up (pg_source db) [] = Inr s \<and> acd_DB s \<noteq> SvcPostgres"
    using s by (auto simp: pg_source_def service_of_dialect_def)
qed

end
