(* ===== verification/CachedConn.thy ===== *)
theory CachedConn
  imports GoPrelude Complex_Main
begin

text \<open>
  The cached connection of \<open>gormx/cachedgorm.go\<close>: reads go through a cache, writes remove the keys
  they touch. The cache of go-zero is the parameter \<open>C\<close>; the state \<open>'w\<close> is the world behind both the
  cache server and the database, and a function that receives a \<open>*gorm.DB\<close> acts on it. The
  pointer \<open>v\<close> that a query fills is its result. \<open>cache_law\<close> states what the cache documents.
  The tracer of OpenTelemetry is the parameter \<open>T\<close>; the spans it has started are part of the world too.
  Contexts carry no other data here, and calls run one after the other.
\<close>

section \<open>The cache\<close>

text \<open>\<open>ErrNotFound\<close> stands for the errors that \<open>errors.Is\<close> identifies with it.\<close>

datatype cache_error = ErrNotFound | CacheError string

type_synonym 'w action = "'w \<Rightarrow> cache_error option \<times> 'w"
type_synonym ('w, 'v) query = "'w \<Rightarrow> (cache_error + 'v) \<times> 'w"

text \<open>The interface \<open>cache.Cache\<close>. The function given to \<open>TakeWithExpireCtx\<close> also writes to a variable of
  its caller, which is threaded through the call.\<close>

record ('w, 'v) cachelib =
  c_del :: "string list \<Rightarrow> 'w action"
  c_get :: "string \<Rightarrow> ('w, 'v) query"
  c_set :: "string \<Rightarrow> 'v \<Rightarrow> 'w action"
  c_set_expire :: "string \<Rightarrow> 'v \<Rightarrow> int64 \<Rightarrow> 'w action"
  c_take :: "string \<Rightarrow> ('w, 'v) query \<Rightarrow> ('w, 'v) query"
  c_take_expire ::
    "string \<Rightarrow> (int64 \<Rightarrow> ('w \<times> 'v option, 'v) query) \<Rightarrow> ('w \<times> 'v option, 'v) query"

section \<open>Spans\<close>

datatype span_status = SpanOk | SpanError string

text \<open>The tracer: a started span is known by its number.\<close>

record 'w tracer =
  t_start :: "string \<Rightarrow> 'w \<Rightarrow> nat \<times> 'w"
  t_attribute :: "nat \<Rightarrow> string \<times> string \<Rightarrow> 'w \<Rightarrow> 'w"
  t_status :: "nat \<Rightarrow> span_status \<Rightarrow> 'w \<Rightarrow> 'w"
  t_record :: "nat \<Rightarrow> cache_error \<Rightarrow> 'w \<Rightarrow> 'w"
  t_end :: "nat \<Rightarrow> 'w \<Rightarrow> 'w"

definition spanName :: string where "spanName = ''sql''"
definition sqlAttributeKey :: string where "sqlAttributeKey = ''sql.method''"

definition startSpan :: "'w tracer \<Rightarrow> string \<Rightarrow> 'w \<Rightarrow> nat \<times> 'w" where
  "startSpan T method w =
     (case t_start T spanName w of (sp, w) \<Rightarrow> (sp, t_attribute T sp (sqlAttributeKey, method) w))"

fun error_text :: "cache_error \<Rightarrow> string" where
  "error_text ErrNotFound = ''record not found''"
| "error_text (CacheError e) = e"

text \<open>The deferred \<open>End\<close> comes last.\<close>

definition endSpan :: "'w tracer \<Rightarrow> nat \<Rightarrow> cache_error option \<Rightarrow> 'w \<Rightarrow> 'w" where
  "endSpan T sp err w =
     t_end T sp
       (case err of
          None \<Rightarrow> t_status T sp SpanOk w
        | Some ErrNotFound \<Rightarrow> t_status T sp SpanOk w
        | Some e \<Rightarrow> t_record T sp e (t_status T sp (SpanError (error_text e)) w))"

text \<open>The frame of the traced methods: the span is started first and ended by a deferred call with the error that
  the method returns.\<close>

definition traced_action :: "'w tracer \<Rightarrow> string \<Rightarrow> 'w action \<Rightarrow> 'w action" where
  "traced_action T method body w =
     (case startSpan T method w of (sp, w) \<Rightarrow>
       (case body w of (err, w) \<Rightarrow> (err, endSpan T sp err w)))"

definition traced_query :: "'w tracer \<Rightarrow> string \<Rightarrow> ('w, 'v) query \<Rightarrow> ('w, 'v) query" where
  "traced_query T method body w =
     (case startSpan T method w of (sp, w) \<Rightarrow>
       (case body w of (r, w) \<Rightarrow> (r, endSpan T sp (case r of Inl err \<Rightarrow> Some err | Inr _ \<Rightarrow> None) w)))"

section \<open>The connection\<close>

text \<open>\<open>CachedConn\<close> and its constructors. The constructors of go-zero's caches and of its random variation of times
  are arguments; both caches get the same single flight and statistics, and \<open>ErrNotFound\<close>.\<close>

record ('d, 'c) cached_conn =
  conn_db :: 'd
  conn_cache :: 'c
  unstableExpiryTime :: "int64 \<Rightarrow> int64"

definition expiryDeviation :: rat where "expiryDeviation = 5 / 100"

definition NewConnWithCache :: "(rat \<Rightarrow> int64 \<Rightarrow> int64) \<Rightarrow> 'd \<Rightarrow> 'c \<Rightarrow> ('d, 'c) cached_conn" where
  "NewConnWithCache newUnstable db c =
     \<lparr>conn_db = db, conn_cache = c, unstableExpiryTime = newUnstable expiryDeviation\<rparr>"

definition NewConn ::
  "('conf \<Rightarrow> cache_error \<Rightarrow> 'opt list \<Rightarrow> 'c) \<Rightarrow> (rat \<Rightarrow> int64 \<Rightarrow> int64) \<Rightarrow> 'd \<Rightarrow> 'conf \<Rightarrow> 'opt list
   \<Rightarrow> ('d, 'c) cached_conn" where
  "NewConn newCache newUnstable db c opts = NewConnWithCache newUnstable db (newCache c ErrNotFound opts)"

definition NewNodeConn ::
  "('redis \<Rightarrow> cache_error \<Rightarrow> 'opt list \<Rightarrow> 'c) \<Rightarrow> (rat \<Rightarrow> int64 \<Rightarrow> int64) \<Rightarrow> 'd \<Rightarrow> 'redis \<Rightarrow> 'opt list
   \<Rightarrow> ('d, 'c) cached_conn" where
  "NewNodeConn newNode newUnstable db rds opts = NewConnWithCache newUnstable db (newNode rds ErrNotFound opts)"

definition aroundDuration :: "('d, 'c) cached_conn \<Rightarrow> int64 \<Rightarrow> int64" where
  "aroundDuration cc duration = unstableExpiryTime cc duration"

text \<open>The operations work on the cache \<open>C\<close> of the connection.\<close>

definition cacheSafeGapBetweenIndexAndPrimary :: int64 where
  "cacheSafeGapBetweenIndexAndPrimary = 5 * 1000000000"

definition DelCacheCtx :: "('w, 'v) cachelib \<Rightarrow> string list \<Rightarrow> 'w action" where
  "DelCacheCtx C keys w = c_del C keys w"

definition DelCache :: "('w, 'v) cachelib \<Rightarrow> string list \<Rightarrow> 'w action" where
  "DelCache C keys w = c_del C keys w"

definition GetCacheCtx :: "('w, 'v) cachelib \<Rightarrow> string \<Rightarrow> ('w, 'v) query" where
  "GetCacheCtx C key w = c_get C key w"

definition GetCache :: "('w, 'v) cachelib \<Rightarrow> string \<Rightarrow> ('w, 'v) query" where
  "GetCache C key w = c_get C key w"

definition SetCacheCtx :: "('w, 'v) cachelib \<Rightarrow> string \<Rightarrow> 'v \<Rightarrow> 'w action" where
  "SetCacheCtx C key val w = c_set C key val w"

definition SetCache :: "('w, 'v) cachelib \<Rightarrow> string \<Rightarrow> 'v \<Rightarrow> 'w action" where
  "SetCache C key v w = c_set C key v w"

definition SetCacheWithExpireCtx :: "('w, 'v) cachelib \<Rightarrow> string \<Rightarrow> 'v \<Rightarrow> int64 \<Rightarrow> 'w action" where
  "SetCacheWithExpireCtx C key val expire w = c_set_expire C key val expire w"

definition ExecCtx :: "('w, 'v) cachelib \<Rightarrow> 'w action \<Rightarrow> string list \<Rightarrow> 'w action" where
  "ExecCtx C execCtx keys w =
     (case execCtx w of
        (Some err, w) \<Rightarrow> (Some err, w)
      | (None, w) \<Rightarrow>
          (case DelCacheCtx C keys w of
             (Some err, w) \<Rightarrow> (Some err, w)
           | (None, w) \<Rightarrow> (None, w)))"

definition Exec :: "('w, 'v) cachelib \<Rightarrow> 'w action \<Rightarrow> string list \<Rightarrow> 'w action" where
  "Exec C exec keys w = ExecCtx C exec keys w"

definition ExecNoCacheCtx :: "'w tracer \<Rightarrow> 'w action \<Rightarrow> 'w action" where
  "ExecNoCacheCtx T execCtx = traced_action T ''ExecNoCache'' execCtx"

definition ExecNoCache :: "'w tracer \<Rightarrow> 'w action \<Rightarrow> 'w action" where
  "ExecNoCache T exec = ExecNoCacheCtx T exec"

text \<open>The type \<open>Conn\<close> without a cache has the same two methods.\<close>

definition Conn_ExecNoCacheCtx :: "'w tracer \<Rightarrow> 'w action \<Rightarrow> 'w action" where
  "Conn_ExecNoCacheCtx T execCtx = traced_action T ''ExecNoCache'' execCtx"

definition Conn_ExecNoCache :: "'w tracer \<Rightarrow> 'w action \<Rightarrow> 'w action" where
  "Conn_ExecNoCache T exec = Conn_ExecNoCacheCtx T exec"

text \<open>\<open>indexQuery\<close> returns the row and its primary key. The variable \<open>found\<close> holds the row when the query
  ran: the code has a flag and the row that \<open>v\<close> points to.\<close>

definition index_body ::
  "('w, 'v) cachelib \<Rightarrow> ('v \<Rightarrow> string) \<Rightarrow> ('w, 'v \<times> 'v) query \<Rightarrow> int64 \<Rightarrow> ('w \<times> 'v option, 'v) query" where
  "index_body C keyer indexQuery expire s =
     (case s of (w, found) \<Rightarrow>
      case indexQuery w of
        (Inl err, w) \<Rightarrow> (Inl err, w, found)
      | (Inr (row, primaryKey), w) \<Rightarrow>
          (case c_set_expire C (keyer primaryKey) row (expire + cacheSafeGapBetweenIndexAndPrimary) w of
             (Some err, w) \<Rightarrow> (Inl err, w, Some row)
           | (None, w) \<Rightarrow> (Inr primaryKey, w, Some row)))"

definition QueryRowIndexCtx ::
  "'w tracer \<Rightarrow> ('w, 'v) cachelib \<Rightarrow> string \<Rightarrow> ('v \<Rightarrow> string) \<Rightarrow> ('w, 'v \<times> 'v) query \<Rightarrow> ('v \<Rightarrow> ('w, 'v) query)
   \<Rightarrow> ('w, 'v) query" where
  "QueryRowIndexCtx T C key keyer indexQuery primaryQuery =
     traced_query T ''QueryRowIndex'' (\<lambda>w.
       case c_take_expire C key (index_body C keyer indexQuery) (w, None) of
         (Inl err, w, _) \<Rightarrow> (Inl err, w)
       | (Inr _, w, Some row) \<Rightarrow> (Inr row, w)
       | (Inr primaryKey, w, None) \<Rightarrow> c_take C (keyer primaryKey) (primaryQuery primaryKey) w)"

definition QueryRowIndex ::
  "'w tracer \<Rightarrow> ('w, 'v) cachelib \<Rightarrow> string \<Rightarrow> ('v \<Rightarrow> string) \<Rightarrow> ('w, 'v \<times> 'v) query \<Rightarrow> ('v \<Rightarrow> ('w, 'v) query)
   \<Rightarrow> ('w, 'v) query" where
  "QueryRowIndex T C key keyer indexQuery primaryQuery =
     QueryRowIndexCtx T C key keyer indexQuery primaryQuery"

definition QueryCtx :: "'w tracer \<Rightarrow> ('w, 'v) cachelib \<Rightarrow> string \<Rightarrow> ('w, 'v) query \<Rightarrow> ('w, 'v) query" where
  "QueryCtx T C key query = traced_query T ''Query'' (\<lambda>w. c_take C key query w)"

definition QueryNoCacheCtx :: "'w tracer \<Rightarrow> ('w, 'v) query \<Rightarrow> ('w, 'v) query" where
  "QueryNoCacheCtx T query = traced_query T ''QueryNoCache'' query"

text \<open>\<open>around\<close> is \<open>aroundDuration\<close> of the connection.\<close>

definition QueryWithExpireCtx ::
  "'w tracer \<Rightarrow> ('w, 'v) cachelib \<Rightarrow> (int64 \<Rightarrow> int64) \<Rightarrow> string \<Rightarrow> int64 \<Rightarrow> ('w, 'v) query \<Rightarrow> ('w, 'v) query" where
  "QueryWithExpireCtx T C around key expire query =
     traced_query T ''QueryWithExpire'' (\<lambda>w.
       case c_take C key query w of
         (Inl err, w) \<Rightarrow> (Inl err, w)
       | (Inr v, w) \<Rightarrow>
           (case c_set_expire C key v (around expire) w of
              (Some err, w) \<Rightarrow> (Inl err, w)
            | (None, w) \<Rightarrow> (Inr v, w)))"

definition QueryWithCallbackExpireCtx ::
  "'w tracer \<Rightarrow> ('w, 'v) cachelib \<Rightarrow> string \<Rightarrow> ('w, 'v) query \<Rightarrow> ('v \<Rightarrow> int64) option \<Rightarrow> ('w, 'v) query" where
  "QueryWithCallbackExpireCtx T C key query callback =
     traced_query T ''QueryWithCallbackExpire'' (\<lambda>w.
       case c_take C key query w of
         (Inl err, w) \<Rightarrow> (Inl err, w)
       | (Inr v, w) \<Rightarrow>
           (case callback of
              None \<Rightarrow> QueryCtx T C key query w
            | Some f \<Rightarrow>
                (case c_set_expire C key v (f v) w of
                   (Some err, w) \<Rightarrow> (Inl err, w)
                 | (None, w) \<Rightarrow> (Inr v, w))))"

text \<open>\<open>transaction\<close> is the method of gorm that runs a function and commits or rolls back.\<close>

definition TransactCtx :: "('w action \<Rightarrow> 'w action) \<Rightarrow> 'w action \<Rightarrow> 'w action" where
  "TransactCtx transaction fn w = transaction fn w"

definition Transact :: "('w action \<Rightarrow> 'w action) \<Rightarrow> 'w action \<Rightarrow> 'w action" where
  "Transact transaction fn w = TransactCtx transaction fn w"

section \<open>The law of the cache\<close>

text \<open>\<open>look\<close> is what the cache holds, \<open>data\<close> the content of the database. An entry may disappear at any
  time, since entries expire. \<open>Take\<close> answers from the cache, or runs the query and keeps its
  value, or fails; the query does not run when the cache answers.\<close>

definition take_law ::
  "('s \<Rightarrow> string \<rightharpoonup> 'v) \<Rightarrow> ('s \<Rightarrow> 'd) \<Rightarrow> string \<Rightarrow> ('s, 'v) query \<Rightarrow> 's \<Rightarrow> (cache_error + 'v) \<times> 's \<Rightarrow> bool" where
  "take_law look data k q s out \<longleftrightarrow> (case out of (r, s') \<Rightarrow>
     (data s' = data s \<and> look s' \<subseteq>\<^sub>m look s \<and> (\<forall>v. r = Inr v \<longrightarrow> look s k = Some v))
   \<or> (\<exists>s1 qr s2. data s1 = data s \<and> look s1 \<subseteq>\<^sub>m look s \<and> q s1 = (qr, s2) \<and> data s' = data s2 \<and>
        (case qr of
           Inl e \<Rightarrow> r = Inl e \<and> look s' \<subseteq>\<^sub>m look s2
         | Inr v \<Rightarrow> (r = Inr v \<or> isl r) \<and> look s' \<subseteq>\<^sub>m (look s2)(k \<mapsto> v))))"

definition cache_law :: "('w \<Rightarrow> string \<rightharpoonup> 'v) \<Rightarrow> ('w \<Rightarrow> 'd) \<Rightarrow> ('w, 'v) cachelib \<Rightarrow> bool" where
  "cache_law look data C \<longleftrightarrow>
     (\<forall>ks w e w'. c_del C ks w = (e, w') \<longrightarrow>
        data w' = data w \<and> look w' \<subseteq>\<^sub>m look w \<and> (e = None \<longrightarrow> (\<forall>k \<in> set ks. look w' k = None)))
   \<and> (\<forall>k w r w'. c_get C k w = (r, w') \<longrightarrow>
        data w' = data w \<and> look w' \<subseteq>\<^sub>m look w \<and> (\<forall>v. r = Inr v \<longrightarrow> look w k = Some v))
   \<and> (\<forall>k v w e w'. c_set C k v w = (e, w') \<longrightarrow> data w' = data w \<and> look w' \<subseteq>\<^sub>m (look w)(k \<mapsto> v))
   \<and> (\<forall>k v d w e w'. c_set_expire C k v d w = (e, w') \<longrightarrow> data w' = data w \<and> look w' \<subseteq>\<^sub>m (look w)(k \<mapsto> v))
   \<and> (\<forall>k q w. take_law look data k q w (c_take C k q w))
   \<and> (\<forall>k q s. \<exists>expire. take_law (look \<circ> fst) (map_prod data id) k (q expire) s (c_take_expire C k q s))"

text \<open>The tracer touches neither the cache nor the database.\<close>

definition keeps_data :: "('w \<Rightarrow> string \<rightharpoonup> 'v) \<Rightarrow> ('w \<Rightarrow> 'd) \<Rightarrow> ('w \<Rightarrow> 'w) \<Rightarrow> bool" where
  "keeps_data look data f \<longleftrightarrow> (\<forall>w. data (f w) = data w \<and> look (f w) = look w)"

definition tracer_law :: "('w \<Rightarrow> string \<rightharpoonup> 'v) \<Rightarrow> ('w \<Rightarrow> 'd) \<Rightarrow> 'w tracer \<Rightarrow> bool" where
  "tracer_law look data T \<longleftrightarrow>
     (\<forall>n. keeps_data look data (snd \<circ> t_start T n)) \<and> (\<forall>i a. keeps_data look data (t_attribute T i a))
   \<and> (\<forall>i st. keeps_data look data (t_status T i st)) \<and> (\<forall>i e. keeps_data look data (t_record T i e))
   \<and> (\<forall>i. keeps_data look data (t_end T i))"

text \<open>\<open>stored d\<close> is the value the database \<open>d\<close> has for a key. A state is coherent when the cache agrees
  with it. A query reads a key when it changes nothing and returns the stored value.\<close>

definition coherent :: "('w \<Rightarrow> string \<rightharpoonup> 'v) \<Rightarrow> ('w \<Rightarrow> 'd) \<Rightarrow> ('d \<Rightarrow> string \<rightharpoonup> 'v) \<Rightarrow> 'w \<Rightarrow> bool" where
  "coherent look data stored w \<longleftrightarrow> look w \<subseteq>\<^sub>m stored (data w)"

definition reads_key ::
  "('w \<Rightarrow> string \<rightharpoonup> 'v) \<Rightarrow> ('w \<Rightarrow> 'd) \<Rightarrow> ('d \<Rightarrow> string \<rightharpoonup> 'v) \<Rightarrow> string \<Rightarrow> ('w, 'v) query \<Rightarrow> bool" where
  "reads_key look data stored k q \<longleftrightarrow> (\<forall>w r w'. q w = (r, w') \<longrightarrow>
     data w' = data w \<and> look w' \<subseteq>\<^sub>m look w \<and> (\<forall>v. r = Inr v \<longrightarrow> stored (data w) k = Some v))"

section \<open>Lemmas\<close>

lemma map_le_upd_stored: "m \<subseteq>\<^sub>m st(k \<mapsto> v) \<Longrightarrow> st \<subseteq>\<^sub>m g \<Longrightarrow> g k = Some v \<Longrightarrow> m \<subseteq>\<^sub>m g"
  unfolding map_le_def dom_def by (metis (mono_tags, lifting) fun_upd_apply mem_Collect_eq)

lemma coherent_le: "coherent look data stored w \<Longrightarrow> data w' = data w \<Longrightarrow> look w' \<subseteq>\<^sub>m look w
    \<Longrightarrow> coherent look data stored w'"
  unfolding coherent_def by (metis map_le_trans)

lemma coherent_put:
  "coherent look data stored w \<Longrightarrow> data w' = data w \<Longrightarrow> look w' \<subseteq>\<^sub>m (look w)(k \<mapsto> v)
    \<Longrightarrow> stored (data w) k = Some v \<Longrightarrow> coherent look data stored w'"
  unfolding coherent_def by (metis map_le_upd_stored)

lemma coherent_look: "coherent look data stored w \<Longrightarrow> look w k = Some v \<Longrightarrow> stored (data w) k = Some v"
  by (auto simp: coherent_def map_le_def dom_def)

text \<open>The projections of the law.\<close>

lemma cache_del:
  assumes "cache_law look data C" "c_del C ks w = (e, w')"
  shows "data w' = data w" "look w' \<subseteq>\<^sub>m look w" "e = None \<Longrightarrow> k \<in> set ks \<Longrightarrow> look w' k = None"
  using assms unfolding cache_law_def by simp_all

lemma cache_get:
  assumes "cache_law look data C" "c_get C k w = (r, w')"
  shows "data w' = data w" "look w' \<subseteq>\<^sub>m look w" "r = Inr v \<Longrightarrow> look w k = Some v"
  using assms unfolding cache_law_def by simp_all

lemma cache_set_expire:
  assumes "cache_law look data C" "c_set_expire C k v d w = (e, w')"
  shows "data w' = data w" "look w' \<subseteq>\<^sub>m (look w)(k \<mapsto> v)"
  using assms unfolding cache_law_def by simp_all

lemma cache_take:
  "cache_law look data C \<Longrightarrow> take_law look data k q w (c_take C k q w)"
  by (simp add: cache_law_def)

lemma cache_take_expire:
  "cache_law look data C \<Longrightarrow>
   \<exists>expire. take_law (look \<circ> fst) (map_prod data id) k (qe expire) s (c_take_expire C k qe s)"
  by (cases s) (simp add: cache_law_def)

definition fresh ::
  "('w \<Rightarrow> string \<rightharpoonup> 'v) \<Rightarrow> ('w \<Rightarrow> 'd) \<Rightarrow> ('d \<Rightarrow> string \<rightharpoonup> 'v) \<Rightarrow> 'w \<Rightarrow> string \<Rightarrow> (cache_error + 'v) \<times> 'w \<Rightarrow> bool" where
  "fresh look data stored w k out \<longleftrightarrow> data (snd out) = data w \<and> coherent look data stored (snd out)
     \<and> (\<forall>v. fst out = Inr v \<longrightarrow> stored (data w) k = Some v)"

lemma fresh_error: "data w' = data w \<Longrightarrow> coherent look data stored w' \<Longrightarrow> fresh look data stored w k (Inl e, w')"
  by (simp add: fresh_def)

lemma fresh_trans: "fresh look data stored w1 k out \<Longrightarrow> data w1 = data w \<Longrightarrow> fresh look data stored w k out"
  by (simp add: fresh_def)

lemma startSpan_keeps:
  assumes "tracer_law look data T" "startSpan T m w = (i, w1)"
  shows "data w1 = data w" "look w1 = look w"
  using assms by (auto simp: tracer_law_def keeps_data_def startSpan_def split: prod.splits) (metis snd_conv)+

lemma endSpan_keeps:
  assumes "tracer_law look data T"
  shows "data (endSpan T i err w) = data w" "look (endSpan T i err w) = look w"
  using assms by (auto simp: tracer_law_def keeps_data_def endSpan_def split: option.split cache_error.split)

lemma endSpan_coherent: "tracer_law look data T \<Longrightarrow> coherent look data stored (endSpan T i err w) = coherent look data stored w"
  by (simp add: coherent_def endSpan_keeps)

text \<open>A span around a query changes nothing of what it returns and leaves behind.\<close>

lemma traced_fresh:
  assumes T: "tracer_law look data T" and c: "coherent look data stored w"
    and body: "\<And>w1. data w1 = data w \<Longrightarrow> coherent look data stored w1 \<Longrightarrow> fresh look data stored w1 k (body w1)"
  shows "fresh look data stored w k (traced_query T m body w)"
proof -
  obtain i w1 where s: "startSpan T m w = (i, w1)" by (cases "startSpan T m w")
  note k = startSpan_keeps[OF T s]
  obtain r w2 where b: "body w1 = (r, w2)" by (cases "body w1")
  have "coherent look data stored w1" using c k by (simp add: coherent_def)
  from body[OF k(1) this] show ?thesis
    using k endSpan_keeps[OF T] endSpan_coherent[OF T] by (simp add: traced_query_def s b fresh_def)
qed

lemma take_fresh:
  assumes "take_law look data k q w (r, w')" "coherent look data stored w" "reads_key look data stored k q"
  shows "fresh look data stored w k (r, w')"
proof -
  consider (hit) "data w' = data w" "look w' \<subseteq>\<^sub>m look w" "\<forall>v. r = Inr v \<longrightarrow> look w k = Some v"
    | (run) w1 qr w2 where "data w1 = data w" "look w1 \<subseteq>\<^sub>m look w" "q w1 = (qr, w2)" "data w' = data w2"
        "case qr of Inl e \<Rightarrow> r = Inl e \<and> look w' \<subseteq>\<^sub>m look w2
         | Inr v \<Rightarrow> (r = Inr v \<or> isl r) \<and> look w' \<subseteq>\<^sub>m (look w2)(k \<mapsto> v)"
    using assms(1) unfolding take_law_def by blast
  then show ?thesis
  proof cases
    case hit
    then show ?thesis
      using coherent_le [OF assms(2) hit(1,2)] coherent_look [OF assms(2)] by (auto simp: fresh_def)
  next
    case run
    have q: "data w2 = data w1" "look w2 \<subseteq>\<^sub>m look w1" "\<forall>v. qr = Inr v \<longrightarrow> stored (data w1) k = Some v"
      using assms(3) run(3) unfolding reads_key_def by blast+
    have c2: "coherent look data stored w2"
      using coherent_le [OF coherent_le [OF assms(2) run(1,2)] q(1,2)] .
    show ?thesis
    proof (cases qr)
      case (Inl e)
      then show ?thesis
        using run q coherent_le [OF c2, of w'] by (auto simp: fresh_def)
    next
      case (Inr v)
      then have "coherent look data stored w'"
        using run q by (intro coherent_put [OF c2, of w' k v]) auto
      then show ?thesis using run q Inr by (auto simp: fresh_def)
    qed
  qed
qed

lemma set_expire_fresh:
  assumes "cache_law look data C" "c_set_expire C k v d w = (e, w')" "coherent look data stored w"
    "stored (data w) k = Some v"
  shows "data w' = data w \<and> coherent look data stored w'"
  using cache_set_expire [OF assms(1,2)] coherent_put [OF assms(3) _ _ assms(4)] by blast

text \<open>The body of an index query returns the primary key of a row, remembers the row, and may leave it
  in the cache.\<close>

definition reads_index ::
  "('w \<Rightarrow> string \<rightharpoonup> 'v) \<Rightarrow> ('w \<Rightarrow> 'd) \<Rightarrow> ('d \<Rightarrow> string \<rightharpoonup> 'v) \<Rightarrow> string \<Rightarrow> ('v \<Rightarrow> string)
   \<Rightarrow> ('w, 'v \<times> 'v) query \<Rightarrow> bool" where
  "reads_index look data stored key keyer q \<longleftrightarrow> (\<forall>w r w'. q w = (r, w') \<longrightarrow>
     data w' = data w \<and> look w' \<subseteq>\<^sub>m look w \<and>
     (\<forall>row pk. r = Inr (row, pk) \<longrightarrow> stored (data w) key = Some pk \<and> stored (data w) (keyer pk) = Some row))"

lemma index_body_fresh:
  assumes C: "cache_law look data C" and iq: "reads_index look data stored key keyer iq"
    and run: "index_body C keyer iq expire (w, l) = (r, w', l')" and c: "coherent look data stored w"
  shows "data w' = data w \<and> coherent look data stored w' \<and>
    (\<forall>pk. r = Inr pk \<longrightarrow> stored (data w) key = Some pk \<and>
      (\<exists>row. l' = Some row \<and> stored (data w) (keyer pk) = Some row))"
proof -
  obtain qr w1 where q: "iq w = (qr, w1)" by (cases "iq w")
  with iq have w1: "data w1 = data w" "look w1 \<subseteq>\<^sub>m look w"
    and row: "\<And>row pk. qr = Inr (row, pk) \<Longrightarrow>
      stored (data w) key = Some pk \<and> stored (data w) (keyer pk) = Some row"
    unfolding reads_index_def by blast+
  have c1: "coherent look data stored w1" by (rule coherent_le [OF c w1])
  show ?thesis
  proof (cases qr)
    case (Inl e)
    with run q c1 w1 show ?thesis by (auto simp: index_body_def)
  next
    case (Inr p)
    obtain rw pk where p: "p = (rw, pk)" by (cases p)
    obtain e w2 where s: "c_set_expire C (keyer pk) rw (expire + cacheSafeGapBetweenIndexAndPrimary) w1 = (e, w2)"
      by (cases "c_set_expire C (keyer pk) rw (expire + cacheSafeGapBetweenIndexAndPrimary) w1")
    have st: "stored (data w) key = Some pk" "stored (data w) (keyer pk) = Some rw"
      using row Inr p by blast+
    have w2: "data w2 = data w1" "coherent look data stored w2"
      using set_expire_fresh [OF C s c1] st w1 by simp_all
    have "w' = w2 \<and> (\<forall>x. r = Inr x \<longrightarrow> x = pk \<and> l' = Some rw)"
      using run q s Inr p by (cases e) (auto simp: index_body_def)
    then show ?thesis using st w2 w1 by auto
  qed
qed

lemma take_index:
  assumes C: "cache_law look data C" and iq: "reads_index look data stored key keyer iq"
    and c: "coherent look data stored w"
    and out: "c_take_expire C key (index_body C keyer iq) (w, None) = (r, w', l)"
  shows "data w' = data w \<and> coherent look data stored w' \<and>
    (\<forall>pk. r = Inr pk \<longrightarrow> stored (data w) key = Some pk \<and>
      (\<forall>row. l = Some row \<longrightarrow> stored (data w) (keyer pk) = Some row))"
proof -
  obtain expire where law: "take_law (look \<circ> fst) (map_prod data id) key (index_body C keyer iq expire) (w, None) (r, w', l)"
    using cache_take_expire [OF C, of key "index_body C keyer iq" "(w, None)"] out by auto
  then consider (hit) "data w' = data w" "l = None" "look w' \<subseteq>\<^sub>m look w" "\<forall>v. r = Inr v \<longrightarrow> look w key = Some v"
    | (run) w1 qr w2 where "data w1 = data w" "look w1 \<subseteq>\<^sub>m look w"
        "index_body C keyer iq expire (w1, None) = (qr, w2, l)" "data w' = data w2"
        "case qr of Inl e \<Rightarrow> r = Inl e \<and> (look \<circ> fst) (w', l) \<subseteq>\<^sub>m (look \<circ> fst) (w2, l)
         | Inr v \<Rightarrow> (r = Inr v \<or> isl r) \<and> (look \<circ> fst) (w', l) \<subseteq>\<^sub>m ((look \<circ> fst) (w2, l))(key \<mapsto> v)"
    unfolding take_law_def by auto
  then show ?thesis
  proof cases
    case hit
    then show ?thesis
      using coherent_le [OF c hit(1,3)] coherent_look [OF c] by auto
  next
    case run
    note b = index_body_fresh [OF C iq run(3) coherent_le [OF c run(1,2)]]
    show ?thesis
    proof (cases qr)
      case (Inl e)
      with run b coherent_le [of look data stored w2 w'] show ?thesis by auto
    next
      case (Inr pk)
      with run b have "coherent look data stored w'"
        by (intro coherent_put [of look data stored w2 w' key pk]) auto
      with run b Inr show ?thesis by auto
    qed
  qed
qed

lemma exec_coherent:
  assumes "cache_law look data C" "coherent look data stored w"
    and "execCtx w = (e, w1)" "look w1 \<subseteq>\<^sub>m look w" "e \<noteq> None \<Longrightarrow> data w1 = data w"
    and "\<And>k. k \<notin> set keys \<Longrightarrow> stored (data w1) k = stored (data w) k"
    and "ExecCtx C execCtx keys w = (r, w')"
  shows "(r = None \<longrightarrow> coherent look data stored w' \<and> data w' = data w1 \<and> e = None)
    \<and> (e \<noteq> None \<longrightarrow> r = e \<and> coherent look data stored w' \<and> data w' = data w)
    \<and> (r \<noteq> None \<and> e = None \<longrightarrow> data w' = data w1)"
proof (cases e)
  case (Some err)
  with assms(3,7) have "r = e" "w' = w1" by (simp_all add: ExecCtx_def)
  with Some assms(5) coherent_le [OF assms(2) _ assms(4)] show ?thesis by simp
next
  case None
  with assms(3,7) have d: "c_del C keys w1 = (r, w')"
    by (auto simp: ExecCtx_def DelCacheCtx_def split: prod.splits option.splits)
  note del = cache_del [OF assms(1) d]
  have "coherent look data stored w'" if "r = None"
    unfolding coherent_def map_le_def
  proof
    fix k assume k: "k \<in> dom (look w')"
    then have out: "k \<notin> set keys" using del(3) [OF that] by auto
    have "look w' \<subseteq>\<^sub>m look w" using del(2) assms(4) by (rule map_le_trans)
    then have "look w' k = look w k" using k by (auto simp: map_le_def)
    moreover from this k have "k \<in> dom (look w)" by (simp add: dom_def)
    ultimately have "look w' k = stored (data w) k"
      using assms(2) by (simp add: coherent_def map_le_def)
    with assms(6) [OF out] del(1) show "look w' k = stored (data w') k" by simp
  qed
  with None del(1) show ?thesis by simp
qed

lemma take_query_fresh:
  "cache_law look data C \<Longrightarrow> coherent look data stored w \<Longrightarrow> reads_key look data stored key query
    \<Longrightarrow> fresh look data stored w key (c_take C key query w)"
  using take_fresh cache_take by (metis prod.collapse)

lemma query_fresh:
  assumes "cache_law look data C" "tracer_law look data T" "coherent look data stored w" "reads_key look data stored key query"
  shows "fresh look data stored w key (QueryCtx T C key query w)"
  unfolding QueryCtx_def by (rule traced_fresh [OF assms(2,3)]) (rule take_query_fresh [OF assms(1) _ assms(4)])

text \<open>A cache and a tracer in memory, for the witnesses: \<open>m_down\<close> makes the deletions fail.\<close>

record conn_span =
  sp_name :: string
  sp_attributes :: "(string \<times> string) list"
  sp_status :: "span_status option"
  sp_errors :: "cache_error list"
  sp_ends :: nat

record mem =
  m_db :: "string \<rightharpoonup> string"
  m_cache :: "string \<rightharpoonup> string"
  m_down :: bool
  m_spans :: "conn_span list"

definition on_span :: "nat \<Rightarrow> (conn_span \<Rightarrow> conn_span) \<Rightarrow> mem \<Rightarrow> mem" where
  "on_span i f w = w\<lparr>m_spans := (m_spans w)[i := f (m_spans w ! i)]\<rparr>"

definition mem_tracer :: "mem tracer" where
  "mem_tracer = \<lparr>
     t_start = (\<lambda>n w. (length (m_spans w), w\<lparr>m_spans := m_spans w @
        [\<lparr>sp_name = n, sp_attributes = [], sp_status = None, sp_errors = [], sp_ends = 0\<rparr>]\<rparr>)),
     t_attribute = (\<lambda>i a. on_span i (\<lambda>s. s\<lparr>sp_attributes := sp_attributes s @ [a]\<rparr>)),
     t_status = (\<lambda>i st. on_span i (\<lambda>s. s\<lparr>sp_status := Some st\<rparr>)),
     t_record = (\<lambda>i e. on_span i (\<lambda>s. s\<lparr>sp_errors := sp_errors s @ [e]\<rparr>)),
     t_end = (\<lambda>i. on_span i (\<lambda>s. s\<lparr>sp_ends := sp_ends s + 1\<rparr>))\<rparr>"

text \<open>A traced query leaves the spans before it alone and gets one span, which is ended once with the status of the
  result: a missing row is no error.\<close>

lemma traced_query_span:
  assumes "\<And>w r w'. body w = (r, w') \<Longrightarrow> length (m_spans w) \<le> length (m_spans w') \<and> take (length (m_spans w)) (m_spans w') = m_spans w"
    and "traced_query mem_tracer m body w = (r, w')"
  shows "take (length (m_spans w)) (m_spans w') = m_spans w \<and> length (m_spans w) < length (m_spans w')
    \<and> m_spans w' ! length (m_spans w) = \<lparr>sp_name = spanName, sp_attributes = [(sqlAttributeKey, m)],
         sp_status = Some (case r of Inl (CacheError e) \<Rightarrow> SpanError e | _ \<Rightarrow> SpanOk),
         sp_errors = (case r of Inl (CacheError e) \<Rightarrow> [CacheError e] | _ \<Rightarrow> []), sp_ends = 1\<rparr>"
proof -
  let ?new = "\<lparr>sp_name = spanName, sp_attributes = [(sqlAttributeKey, m)], sp_status = None, sp_errors = [], sp_ends = 0\<rparr>"
  obtain w2 where b: "body (w\<lparr>m_spans := m_spans w @ [?new]\<rparr>) = (r, w2)"
    and w': "w' = endSpan mem_tracer (length (m_spans w)) (case r of Inl e \<Rightarrow> Some e | Inr _ \<Rightarrow> None) w2"
    using assms(2) by (auto simp: traced_query_def startSpan_def mem_tracer_def on_span_def split: prod.splits)
  have t: "take (length (m_spans w) + 1) (m_spans w2) = m_spans w @ [?new]" "length (m_spans w) + 1 \<le> length (m_spans w2)"
    using assms(1)[OF b] by simp_all
  then have at: "m_spans w2 ! length (m_spans w) = ?new"
    using nth_take[of "length (m_spans w)" "length (m_spans w) + 1" "m_spans w2"] by simp
  have "take (length (m_spans w)) (take (length (m_spans w) + 1) (m_spans w2)) = m_spans w" unfolding t(1) by simp
  then have "take (length (m_spans w)) (m_spans w2) = m_spans w" by simp
  then show ?thesis using t(2) at unfolding w'
    by (simp add: endSpan_def mem_tracer_def on_span_def split: sum.split cache_error.split)
qed

lemma mem_tracer_law: "tracer_law m_cache m_db mem_tracer"
  by (simp add: tracer_law_def keeps_data_def mem_tracer_def on_span_def)

definition mem_take ::
  "('s \<Rightarrow> mem) \<Rightarrow> ((mem \<Rightarrow> mem) \<Rightarrow> 's \<Rightarrow> 's) \<Rightarrow> string \<Rightarrow> ('s, string) query \<Rightarrow> ('s, string) query" where
  "mem_take get upd k q s =
     (case m_cache (get s) k of
        Some v \<Rightarrow> (Inr v, s)
      | None \<Rightarrow>
          (case q s of
             (Inl e, s) \<Rightarrow> (Inl e, s)
           | (Inr v, s) \<Rightarrow> (Inr v, upd (\<lambda>m. m\<lparr>m_cache := (m_cache m)(k \<mapsto> v)\<rparr>) s)))"

definition mem_cachelib :: "(mem, string) cachelib" where
  "mem_cachelib = \<lparr>
     c_del = (\<lambda>ks w. if m_down w then (Some (CacheError ''down''), w)
                      else (None, w\<lparr>m_cache := m_cache w |` (- set ks)\<rparr>)),
     c_get = (\<lambda>k w. (case m_cache w k of Some v \<Rightarrow> Inr v | None \<Rightarrow> Inl ErrNotFound, w)),
     c_set = (\<lambda>k v w. (None, w\<lparr>m_cache := (m_cache w)(k \<mapsto> v)\<rparr>)),
     c_set_expire = (\<lambda>k v d w. (None, w\<lparr>m_cache := (m_cache w)(k \<mapsto> v)\<rparr>)),
     c_take = mem_take id id,
     c_take_expire = (\<lambda>k q. mem_take fst (\<lambda>f. map_prod f id) k (q 60))\<rparr>"

lemma mem_take_law:
  assumes "\<And>s. look s = m_cache (get s)" "\<And>f s. look (upd f s) = m_cache (f (get s))"
    "\<And>f s. (\<And>m. m_db (f m) = m_db m) \<Longrightarrow> data (upd f s) = data s"
  shows "take_law look data k q s (mem_take get upd k q s)"
proof (cases "m_cache (get s) k")
  case None
  obtain qr s2 where q: "q s = (qr, s2)" by (cases "q s")
  with None assms show ?thesis
    by (cases qr) (auto simp: take_law_def mem_take_def intro!: exI [of _ s])
next
  case (Some v)
  with assms(1) show ?thesis by (simp add: take_law_def mem_take_def)
qed

lemma mem_law: "cache_law m_cache m_db mem_cachelib"
  unfolding cache_law_def
proof (intro conjI allI)
  show "take_law m_cache m_db k q w (c_take mem_cachelib k q w)" for k q w
    unfolding mem_cachelib_def cachelib.select_convs by (rule mem_take_law) simp_all
  show "\<exists>expire. take_law (m_cache \<circ> fst) (map_prod m_db id) k (q expire) s (c_take_expire mem_cachelib k q s)" for k q s
    unfolding mem_cachelib_def cachelib.select_convs by (rule exI [of _ 60], rule mem_take_law) auto
qed (auto simp: mem_cachelib_def map_le_def dom_def restrict_map_def split: if_splits option.splits)

section \<open>Properties\<close>

text \<open>C15. While the cache agrees with the database, a query through the cache returns what the
  database holds, changes nothing in it, and leaves the cache in agreement: for the plain query, for
  the one with an expiry, and for the one with a callback, whether the callback is nil or not.\<close>

theorem cached_queries_fresh:
  assumes "cache_law look data C" "tracer_law look data T" "coherent look data stored w"
    "reads_key look data stored key query"
  shows "fresh look data stored w key (QueryCtx T C key query w)
    \<and> fresh look data stored w key (QueryWithExpireCtx T C around key expire query w)
    \<and> fresh look data stored w key (QueryWithCallbackExpireCtx T C key query callback w)"
proof -
  note take = take_query_fresh [OF assms(1) _ assms(4)] and query = query_fresh [OF assms(1,2) _ assms(4)]
  have step: "fresh look data stored w key (case c_take C key query w of (Inl err, w) \<Rightarrow> (Inl err, w) | (Inr v, w) \<Rightarrow> rest v w)"
    if "coherent look data stored w" "\<And>v w1. data w1 = data w \<Longrightarrow> coherent look data stored w1
          \<Longrightarrow> stored (data w1) key = Some v \<Longrightarrow> fresh look data stored w1 key (rest v w1)" for w rest
    using take [OF that(1)] that(2) fresh_trans
    by (cases "c_take C key query w") (auto simp: fresh_def split: sum.split)
  have set: "fresh look data stored w key
      (case c_set_expire C key v d w of (Some err, w) \<Rightarrow> (Inl err, w) | (None, w) \<Rightarrow> (Inr v, w))"
    if "coherent look data stored w" "stored (data w) key = Some v" for v d w
    using set_expire_fresh [OF assms(1) _ that, of d] that
    by (auto simp: fresh_def split: prod.splits option.splits)
  have "fresh look data stored w key (QueryWithExpireCtx T C around key expire query w)"
    unfolding QueryWithExpireCtx_def by (intro traced_fresh [OF assms(2,3)] step set)
  moreover have "fresh look data stored w key (QueryWithCallbackExpireCtx T C key query callback w)"
    unfolding QueryWithCallbackExpireCtx_def
    by (intro traced_fresh [OF assms(2,3)] step) (simp_all add: query set split: option.split)
  ultimately show ?thesis using query [OF assms(3)] by blast
qed

definition memory :: "bool \<Rightarrow> mem" where
  "memory down = \<lparr>m_db = [''user:1'' \<mapsto> ''ann'', ''user:name:ann'' \<mapsto> ''1''], m_cache = [''user:1'' \<mapsto> ''ann''], m_down = down, m_spans = []\<rparr>"

definition db_read :: "string \<Rightarrow> (mem, string) query" where
  "db_read k w = (case m_db w k of Some v \<Rightarrow> Inr v | None \<Rightarrow> Inl ErrNotFound, w)"

lemma db_read_reads: "reads_key m_cache m_db id k (db_read k)"
  by (auto simp: reads_key_def db_read_def split: option.splits)

lemma memory_coherent: "coherent m_cache m_db id (memory down)"
  by (simp add: coherent_def memory_def map_le_def)

theorem cached_queries_fresh_witness:
  "fst (QueryWithExpireCtx mem_tracer mem_cachelib id ''user:1'' 9 (db_read ''user:1'') (memory False)) = Inr ''ann''
   \<and> fresh m_cache m_db id (memory False) ''user:1''
       (QueryWithExpireCtx mem_tracer mem_cachelib id ''user:1'' 9 (db_read ''user:1'') (memory False))"
  using cached_queries_fresh [OF mem_law mem_tracer_law memory_coherent db_read_reads, of False "''user:1''" id 9 None]
  by (simp add: QueryWithExpireCtx_def traced_query_def startSpan_def mem_tracer_def on_span_def mem_cachelib_def
        mem_take_def memory_def)

text \<open>C16. A query by a unique index returns the row whose primary key the index gives, from the
  database or from either cache entry, and leaves the cache in agreement with the database; the
  database is not changed.\<close>

theorem QueryRowIndex_fresh:
  assumes "cache_law look data C" "tracer_law look data T" "coherent look data stored w"
    and "reads_index look data stored key keyer indexQuery"
    and "\<And>pk. reads_key look data stored (keyer pk) (primaryQuery pk)"
    and "QueryRowIndexCtx T C key keyer indexQuery primaryQuery w = (r, w')"
  shows "data w' = data w \<and> coherent look data stored w' \<and>
    (\<forall>row. r = Inr row \<longrightarrow> (\<exists>pk. stored (data w) key = Some pk \<and> stored (data w) (keyer pk) = Some row))"
proof -
  obtain i w0 where s: "startSpan T ''QueryRowIndex'' w = (i, w0)" by (cases "startSpan T ''QueryRowIndex'' w")
  note k = startSpan_keeps [OF assms(2) s]
  have c0: "coherent look data stored w0" using assms(3) k by (simp add: coherent_def)
  obtain tr w1 l where t: "c_take_expire C key (index_body C keyer indexQuery) (w0, None) = (tr, w1, l)"
    by (cases "c_take_expire C key (index_body C keyer indexQuery) (w0, None)")
  note ix = take_index [OF assms(1,4) c0 t]
  define out where "out = (case (tr, w1, l) of (Inl err, w, _) \<Rightarrow> (Inl err, w) | (Inr _, w, Some row) \<Rightarrow> (Inr row, w)
      | (Inr primaryKey, w, None) \<Rightarrow> c_take C (keyer primaryKey) (primaryQuery primaryKey) w)"
  have r: "r = fst out" and w': "w' = endSpan T i (case r of Inl err \<Rightarrow> Some err | Inr _ \<Rightarrow> None) (snd out)"
    using assms(6) unfolding QueryRowIndexCtx_def traced_query_def s out_def by (auto simp: t split: prod.splits)
  have "data (snd out) = data w \<and> coherent look data stored (snd out) \<and>
    (\<forall>row. r = Inr row \<longrightarrow> (\<exists>pk. stored (data w) key = Some pk \<and> stored (data w) (keyer pk) = Some row))"
  proof (cases tr)
    case (Inl e)
    then show ?thesis using r ix k by (auto simp: out_def)
  next
    case (Inr pk)
    show ?thesis
    proof (cases l)
      case None
      then have "out = c_take C (keyer pk) (primaryQuery pk) w1" by (simp add: out_def Inr)
      with cache_take [OF assms(1)] have "take_law look data (keyer pk) (primaryQuery pk) w1 (fst out, snd out)" by simp
      from take_fresh [OF this _ assms(5)] ix Inr r k show ?thesis by (auto simp: fresh_def)
    next
      case (Some row)
      then show ?thesis using r ix k Inr by (auto simp: out_def)
    qed
  qed
  then show ?thesis using endSpan_keeps [OF assms(2)] endSpan_coherent [OF assms(2)] by (simp add: w')
qed

definition by_name :: "(mem, string \<times> string) query" where
  "by_name w = (case m_db w ''user:name:ann'' of
      Some pk \<Rightarrow> (case m_db w (''user:'' @ pk) of Some row \<Rightarrow> Inr (row, pk) | None \<Rightarrow> Inl ErrNotFound)
    | None \<Rightarrow> Inl ErrNotFound, w)"

theorem QueryRowIndex_fresh_witness:
  "\<exists>w'. QueryRowIndexCtx mem_tracer mem_cachelib ''user:name:ann'' (\<lambda>pk. ''user:'' @ pk) by_name
          (\<lambda>pk. db_read (''user:'' @ pk)) (memory False) = (Inr ''ann'', w')
     \<and> m_db w' = m_db (memory False) \<and> m_cache w' \<subseteq>\<^sub>m m_db w'"
proof -
  have iq: "reads_index m_cache m_db id ''user:name:ann'' (\<lambda>pk. ''user:'' @ pk) by_name"
    by (auto simp: reads_index_def by_name_def split: option.splits)
  obtain w' where w': "QueryRowIndexCtx mem_tracer mem_cachelib ''user:name:ann'' (\<lambda>pk. ''user:'' @ pk) by_name
          (\<lambda>pk. db_read (''user:'' @ pk)) (memory False) = (Inr ''ann'', w')"
    by (simp add: QueryRowIndexCtx_def traced_query_def startSpan_def mem_tracer_def on_span_def mem_cachelib_def
        mem_take_def index_body_def by_name_def memory_def)
  from QueryRowIndex_fresh [OF mem_law mem_tracer_law memory_coherent iq db_read_reads w'] w' show ?thesis
    by (auto simp: coherent_def)
qed

text \<open>C17. A write that names every key whose stored value it changes keeps the cache in agreement with
  the database when it returns without error. When the statement itself fails, its error is returned and
  the cache is not touched. When only the deletion fails, the error of the deletion is returned although the
  statement has been carried out, and the old entries may stay.\<close>

theorem ExecCtx_coherent:
  assumes "cache_law look data C" "coherent look data stored w"
    and "execCtx w = (e, w1)" "look w1 \<subseteq>\<^sub>m look w" "e \<noteq> None \<Longrightarrow> data w1 = data w"
    and "\<And>k. k \<notin> set keys \<Longrightarrow> stored (data w1) k = stored (data w) k"
    and "ExecCtx C execCtx keys w = (r, w')"
  shows "(r = None \<longrightarrow> coherent look data stored w' \<and> data w' = data w1 \<and> e = None)
    \<and> (e \<noteq> None \<longrightarrow> r = e \<and> coherent look data stored w' \<and> data w' = data w)
    \<and> (r \<noteq> None \<and> e = None \<longrightarrow> data w' = data w1)"
  using exec_coherent [OF assms] .

definition rename_user :: "string \<Rightarrow> mem action" where
  "rename_user v w = (None, w\<lparr>m_db := (m_db w)(''user:1'' \<mapsto> v)\<rparr>)"

theorem ExecCtx_coherent_witness:
  "(\<exists>w'. ExecCtx mem_cachelib (rename_user ''bob'') [''user:1''] (memory False) = (None, w')
        \<and> coherent m_cache m_db id w' \<and> m_db w' ''user:1'' = Some ''bob'')
   \<and> (\<exists>e w'. ExecCtx mem_cachelib (rename_user ''bob'') [''user:1''] (memory True) = (Some e, w')
        \<and> m_db w' ''user:1'' = Some ''bob'' \<and> fst (GetCacheCtx mem_cachelib ''user:1'' w') = Inr ''ann'')"
proof
  obtain w' where w': "ExecCtx mem_cachelib (rename_user ''bob'') [''user:1''] (memory False) = (None, w')"
    by (simp add: ExecCtx_def DelCacheCtx_def mem_cachelib_def rename_user_def memory_def)
  have "coherent m_cache m_db id w' \<and> m_db w' = m_db (snd (rename_user ''bob'' (memory False)))"
    using ExecCtx_coherent [OF mem_law memory_coherent _ _ _ _ w', of None "snd (rename_user ''bob'' (memory False))"]
    by (simp add: rename_user_def memory_def)
  with w' show "\<exists>w'. ExecCtx mem_cachelib (rename_user ''bob'') [''user:1''] (memory False) = (None, w')
        \<and> coherent m_cache m_db id w' \<and> m_db w' ''user:1'' = Some ''bob''"
    by (auto simp: rename_user_def)
next
  show "\<exists>e w'. ExecCtx mem_cachelib (rename_user ''bob'') [''user:1''] (memory True) = (Some e, w')
        \<and> m_db w' ''user:1'' = Some ''bob'' \<and> fst (GetCacheCtx mem_cachelib ''user:1'' w') = Inr ''ann''"
    by (simp add: ExecCtx_def DelCacheCtx_def GetCacheCtx_def mem_cachelib_def rename_user_def memory_def)
qed

end
