(* ===== verification/Batchx.thy ===== *)
theory Batchx
  imports Stringx CachedConn
begin

text \<open>
  The package \<open>gormx/batchx\<close> (\<open>batchx.go\<close>): a write on a list of rows removes the cache keys of all
  of them. The interface \<open>BatchExecModel\<close> is the locale \<open>batch_exec_model\<close>; a cached connection
  provides it. The iteration order of the key map is the argument \<open>iter\<close>.
\<close>

section \<open>The functions\<close>

definition UniqueKeys :: "(string list \<Rightarrow> string list) \<Rightarrow> string list \<Rightarrow> string list" where
  "UniqueKeys iter keys = iter (key_set keys)"

definition getCacheKeysByMultiData ::
  "(string list \<Rightarrow> string list) \<Rightarrow> ('m \<Rightarrow> string list) \<Rightarrow> 'm list \<Rightarrow> string list" where
  "getCacheKeysByMultiData iter model_keys data =
     (if length data = 0 then []
      else UniqueKeys iter (fold (\<lambda>v keys. keys @ model_keys v) data []))"

definition BatchExecCtx ::
  "(string list \<Rightarrow> string list) \<Rightarrow> ('m \<Rightarrow> string list) \<Rightarrow> ('w action \<Rightarrow> string list \<Rightarrow> 'w action)
   \<Rightarrow> 'm list \<Rightarrow> 'w action \<Rightarrow> 'w action" where
  "BatchExecCtx iter model_keys exec_ctx olds exec w =
     (if length olds = 0 then (None, w)
      else (let cacheKeys = getCacheKeysByMultiData iter model_keys olds
            in exec_ctx (\<lambda>conn. exec conn) cacheKeys w))"

section \<open>The interface of a model\<close>

text \<open>What \<open>BatchExecCtx\<close> relies on: \<open>ExecCtx\<close> runs the statement, and the keys are removed once it
  succeeded; \<open>remove\<close> is that removal.\<close>

locale batch_exec_model =
  fixes exec_ctx :: "'w action \<Rightarrow> string list \<Rightarrow> 'w action"
    and remove :: "string list \<Rightarrow> 'w action"
  assumes exec_fail: "f w = (Some e, w1) \<Longrightarrow> exec_ctx f ks w = (Some e, w1)"
    and exec_ok: "f w = (None, w1) \<Longrightarrow> exec_ctx f ks w = remove ks w1"
begin

lemma exec_cases: "exec_ctx f ks w = (case f w of (Some e, w1) \<Rightarrow> (Some e, w1) | (None, w1) \<Rightarrow> remove ks w1)"
  using exec_fail exec_ok by (auto split: prod.splits option.splits)

lemma batch_exec:
  "olds \<noteq> [] \<Longrightarrow> BatchExecCtx iter keys exec_ctx olds f w
     = (case f w of (Some e, w1) \<Rightarrow> (Some e, w1)
        | (None, w1) \<Rightarrow> remove (getCacheKeysByMultiData iter keys olds) w1)"
  by (simp add: BatchExecCtx_def Let_def exec_cases)

end

interpretation cached: batch_exec_model "ExecCtx C" "DelCacheCtx C" for C
  by unfold_locales (auto simp: ExecCtx_def split: prod.splits option.splits)

section \<open>Lemmas\<close>

lemma set_batch_keys:
  "map_range iter \<Longrightarrow> set (getCacheKeysByMultiData iter keys data) = (\<Union>v \<in> set data. set (keys v))"
  "map_range iter \<Longrightarrow> distinct (getCacheKeysByMultiData iter keys data)"
  using key_set_props by (auto simp: getCacheKeysByMultiData_def UniqueKeys_def map_range_def fold_append)

lemma batch_coherent:
  assumes "map_range iter" "cache_law look data C" "coherent look data stored w"
    and "exec w = (e, w1)" "look w1 \<subseteq>\<^sub>m look w" "e \<noteq> None \<Longrightarrow> data w1 = data w"
    and "\<And>k. (\<forall>v \<in> set olds. k \<notin> set (keys v)) \<Longrightarrow> stored (data w1) k = stored (data w) k"
    and "BatchExecCtx iter keys (ExecCtx C) olds exec w = (r, w')"
  shows "if olds = [] then r = None \<and> w' = w
    else (r = None \<longrightarrow> coherent look data stored w' \<and> data w' = data w1
           \<and> c_del C (getCacheKeysByMultiData iter keys olds) w1 = (None, w'))
       \<and> (e \<noteq> None \<longrightarrow> r = e \<and> coherent look data stored w')
       \<and> set (getCacheKeysByMultiData iter keys olds) = (\<Union>v \<in> set olds. set (keys v))
       \<and> distinct (getCacheKeysByMultiData iter keys olds)"
proof (cases "olds = []")
  case True
  with assms(8) show ?thesis by (simp add: BatchExecCtx_def)
next
  case False
  let ?ks = "getCacheKeysByMultiData iter keys olds"
  note ks = set_batch_keys [OF assms(1), of keys olds]
  have run: "ExecCtx C exec ?ks w = (r, w')"
    using assms(8) False by (simp add: BatchExecCtx_def)
  have "stored (data w1) k = stored (data w) k" if "k \<notin> set ?ks" for k
    using that by (intro assms(7)) (simp add: ks)
  note c = exec_coherent [OF assms(2-6) this run]
  have del: "c_del C ?ks w1 = (None, w')" if "r = None"
  proof -
    from c that assms(4) have "exec w = (None, w1)" by simp
    with cached.batch_exec [OF False, of iter keys C exec w] assms(8)
    have "c_del C ?ks w1 = (r, w')" by (simp add: DelCacheCtx_def)
    with that show ?thesis by simp
  qed
  have "r = None \<longrightarrow> coherent look data stored w' \<and> data w' = data w1 \<and> c_del C ?ks w1 = (None, w')"
    using c del by (intro impI conjI) simp_all
  moreover have "e \<noteq> None \<longrightarrow> r = e \<and> coherent look data stored w'"
    using c by (intro impI conjI) simp_all
  ultimately show ?thesis
    using ks False by simp
qed

section \<open>Properties\<close>

text \<open>A batch write on a list of rows removes exactly the cache keys of these rows, each once, after
  the statement succeeded; so a statement that changes only what is stored under these keys leaves
  the cache in agreement with the database. With an empty list the statement is not run.\<close>

theorem BatchExecCtx_coherent:
  assumes "map_range iter" "cache_law look data C" "coherent look data stored w"
    and "exec w = (e, w1)" "look w1 \<subseteq>\<^sub>m look w" "e \<noteq> None \<Longrightarrow> data w1 = data w"
    and "\<And>k. (\<forall>v \<in> set olds. k \<notin> set (keys v)) \<Longrightarrow> stored (data w1) k = stored (data w) k"
    and "BatchExecCtx iter keys (ExecCtx C) olds exec w = (r, w')"
  shows "if olds = [] then r = None \<and> w' = w
    else (r = None \<longrightarrow> coherent look data stored w' \<and> data w' = data w1
           \<and> c_del C (getCacheKeysByMultiData iter keys olds) w1 = (None, w'))
       \<and> (e \<noteq> None \<longrightarrow> r = e \<and> coherent look data stored w')
       \<and> set (getCacheKeysByMultiData iter keys olds) = (\<Union>v \<in> set olds. set (keys v))
       \<and> distinct (getCacheKeysByMultiData iter keys olds)"
  using batch_coherent [OF assms] .

definition rename_all :: "string \<Rightarrow> mem action" where
  "rename_all v w = (None, w\<lparr>m_db := (m_db w)(''user:1'' \<mapsto> v, ''user:2'' \<mapsto> v)\<rparr>)"

theorem BatchExecCtx_coherent_witness:
  "\<exists>w'. BatchExecCtx rev (\<lambda>i. [''user:'' @ i]) (ExecCtx mem_cachelib) [''1'', ''2''] (rename_all ''bob'') (memory False)
       = (None, w') \<and> coherent m_cache m_db id w' \<and> m_db w' ''user:1'' = Some ''bob''"
proof -
  obtain w' where w': "BatchExecCtx rev (\<lambda>i. [''user:'' @ i]) (ExecCtx mem_cachelib) [''1'', ''2'']
      (rename_all ''bob'') (memory False) = (None, w')"
    by (simp add: BatchExecCtx_def ExecCtx_def DelCacheCtx_def mem_cachelib_def rename_all_def memory_def Let_def)
  let ?w = "snd (rename_all ''bob'' (memory False))"
  have run: "rename_all ''bob'' (memory False) = (None, ?w)" by (simp add: rename_all_def)
  have le: "m_cache ?w \<subseteq>\<^sub>m m_cache (memory False)" by (simp add: rename_all_def)
  have only: "id (m_db ?w) k = id (m_db (memory False)) k"
    if "\<forall>v \<in> set [''1'', ''2'']. k \<notin> set [''user:'' @ v]" for k
    using that by (simp add: rename_all_def)
  have none: "m_db ?w = m_db (memory False)" if "(None :: cache_error option) \<noteq> None"
    using that by simp
  have "coherent m_cache m_db id w'" "m_db w' = m_db ?w"
    using BatchExecCtx_coherent [where stored = id and keys = "\<lambda>i. [''user:'' @ i]",
        OF map_range_rev mem_law memory_coherent run le none only w'] by simp_all
  with w' show ?thesis by (simp add: rename_all_def)
qed

end
