(* ===== verification/Captchax.thy ===== *)
theory Captchax
  imports CachedConn
begin

text \<open>
  The package \<open>captchax\<close>: the answers of captchas kept in a cache (\<open>captchax/store.go\<close>) behind the
  interface \<open>base64Captcha.Store\<close>, and the package functions that use the store registered last
  (\<open>captchax/captcha.go\<close>). The library that draws a captcha is the argument \<open>generate\<close>: the
  identifier, the picture and the answer, or an error.
\<close>

section \<open>The store\<close>

record cacheStore =
  expiration :: int64

definition NewCacheStore :: "int64 \<Rightarrow> cacheStore" where
  "NewCacheStore d = \<lparr>expiration = d\<rparr>"

definition store_Set :: "('w, string) cachelib \<Rightarrow> cacheStore \<Rightarrow> string \<Rightarrow> string \<Rightarrow> 'w action" where
  "store_Set C e ident value w = c_set_expire C ident value (expiration e) w"

definition store_Get :: "('w, string) cachelib \<Rightarrow> cacheStore \<Rightarrow> string \<Rightarrow> bool \<Rightarrow> 'w \<Rightarrow> string \<times> 'w" where
  "store_Get C e ident clear w =
     (case c_get C ident w of
        (Inr v, w) \<Rightarrow> (v, if clear then snd (c_del C [ident] w) else w)
      | (Inl _, w) \<Rightarrow> ([], w))"

definition store_Verify ::
  "('w, string) cachelib \<Rightarrow> cacheStore \<Rightarrow> string \<Rightarrow> string \<Rightarrow> bool \<Rightarrow> 'w \<Rightarrow> bool \<times> 'w" where
  "store_Verify C e ident answer clear w =
     (case store_Get C e ident clear w of (v, w) \<Rightarrow> (v = answer, w))"

section \<open>The package functions\<close>

text \<open>The interface value of a store: its three methods.\<close>

record 'w captcha_store =
  st_Set :: "string \<Rightarrow> string \<Rightarrow> 'w action"
  st_Get :: "string \<Rightarrow> bool \<Rightarrow> 'w \<Rightarrow> string \<times> 'w"
  st_Verify :: "string \<Rightarrow> string \<Rightarrow> bool \<Rightarrow> 'w \<Rightarrow> bool \<times> 'w"

definition as_store :: "('w, string) cachelib \<Rightarrow> cacheStore \<Rightarrow> 'w captcha_store" where
  "as_store C e = \<lparr>st_Set = store_Set C e, st_Get = store_Get C e, st_Verify = store_Verify C e\<rparr>"

text \<open>The variable \<open>DefaultMemStore\<close> of the library, which \<open>SetStore\<close> assigns.\<close>

definition SetStore :: "'w captcha_store \<Rightarrow> 'w captcha_store \<Rightarrow> 'w captcha_store" where
  "SetStore s DefaultMemStore = s"

definition Verify :: "'w captcha_store \<Rightarrow> string \<Rightarrow> string \<Rightarrow> bool \<Rightarrow> 'w \<Rightarrow> bool \<times> 'w" where
  "Verify DefaultMemStore ident code clear w = st_Verify DefaultMemStore ident code clear w"

text \<open>\<open>Captcha.Generate\<close> of the library stores the answer before it returns the picture.\<close>

datatype captcha_error = DrawFailed string | StoreFailed cache_error

definition Generate ::
  "('w \<Rightarrow> (string + string \<times> string \<times> string) \<times> 'w) \<Rightarrow> 'w captcha_store
   \<Rightarrow> 'w \<Rightarrow> (captcha_error + string \<times> string) \<times> 'w" where
  "Generate generate store w =
     (case generate w of
        (Inl e, w) \<Rightarrow> (Inl (DrawFailed e), w)
      | (Inr (ident, picture, answer), w) \<Rightarrow>
          (case st_Set store ident answer w of
             (Some e, w) \<Rightarrow> (Inl (StoreFailed e), w)
           | (None, w) \<Rightarrow> (Inr (ident, picture), w)))"

text \<open>The settings the two functions give the drivers: height, width, noise, lines, length, characters, background
  and fonts; height, width, length, skew (in tenths) and dots. The struct \<open>configJsonBody\<close> only holds the
  driver; the identifier put into it is not used.\<close>

record RGBA =
  red :: "8 word"
  green :: "8 word"
  blue :: "8 word"
  alpha :: "8 word"

datatype driver =
    DriverString int64 int64 int64 int64 int64 string RGBA "string list"
  | DriverDigit int64 int64 int64 int64 int64

definition DriverStringFunc ::
  "(driver \<Rightarrow> 'w \<Rightarrow> (string + string \<times> string \<times> string) \<times> 'w) \<Rightarrow> 'w captcha_store \<Rightarrow> int64
   \<Rightarrow> 'w \<Rightarrow> (captcha_error + string \<times> string) \<times> 'w" where
  "DriverStringFunc lib DefaultMemStore len =
     Generate (lib (DriverString 46 140 2 2 len ''234567890-captcha-captcha''
       \<lparr>red = 240, green = 240, blue = 246, alpha = 246\<rparr> [''captcha-haha-mimi''])) DefaultMemStore"

definition DriverDigitFunc ::
  "(driver \<Rightarrow> 'w \<Rightarrow> (string + string \<times> string \<times> string) \<times> 'w) \<Rightarrow> 'w captcha_store \<Rightarrow> int64
   \<Rightarrow> 'w \<Rightarrow> (captcha_error + string \<times> string) \<times> 'w" where
  "DriverDigitFunc lib DefaultMemStore len =
     Generate (lib (DriverDigit 80 240 len 7 80)) DefaultMemStore"

section \<open>The interface of a store\<close>

text \<open>What a client of a captcha store may rely on: an answer is accepted only when it is the one the
  store holds, or when it is empty and the store holds nothing.\<close>

locale captcha_store =
  fixes store :: "'w captcha_store" and held :: "'w \<Rightarrow> string \<rightharpoonup> string" and legal :: "'w \<Rightarrow> bool"
  assumes verify_held: "legal w \<Longrightarrow> st_Verify store i a clear w = (True, w') \<Longrightarrow> held w i = Some a \<or> a = []"
    and verify_le: "legal w \<Longrightarrow> st_Verify store i a clear w = (b, w') \<Longrightarrow> legal w' \<and> held w' \<subseteq>\<^sub>m held w"
begin

lemma verify_wrong:
  assumes "legal w" "a \<noteq> []" "held w i \<noteq> Some a"
  shows "\<not> fst (Verify store i a clear w)"
proof
  assume "fst (Verify store i a clear w)"
  then have "st_Verify store i a clear w = (True, snd (st_Verify store i a clear w))"
    by (metis Verify_def prod.collapse)
  from verify_held [OF assms(1) this] assms(2,3) show False by simp
qed

end

lemma store_Verify_cases:
  "store_Verify C e i a clear w =
     (case c_get C i w of
        (Inr v, w1) \<Rightarrow> (v = a, if clear then snd (c_del C [i] w1) else w1)
      | (Inl _, w1) \<Rightarrow> (a = [], w1))"
  by (auto simp: store_Verify_def store_Get_def split: prod.splits sum.splits)

lemma store_Verify_law:
  assumes "cache_law look data C" "store_Verify C e i a clear w = (b, w')"
  shows "(b \<longrightarrow> look w i = Some a \<or> a = []) \<and> look w' \<subseteq>\<^sub>m look w"
proof (cases "c_get C i w")
  case (Pair r w1)
  note get = cache_get [OF assms(1) Pair]
  obtain err w2 where d: "c_del C [i] w1 = (err, w2)" by (cases "c_del C [i] w1")
  note del = cache_del(2) [OF assms(1) d]
  show ?thesis
  proof (cases r)
    case (Inr v)
    with Pair assms(2) d have b: "b = (v = a)" "w' = (if clear then w2 else w1)"
      by (auto simp: store_Verify_cases)
    have "look w i = Some v" using get(3) Inr by simp
    moreover have "look w' \<subseteq>\<^sub>m look w"
      using get(2) map_le_trans [OF del get(2)] b(2) by simp
    ultimately show ?thesis using b(1) by simp
  next
    case (Inl x)
    with Pair assms(2) get(2) show ?thesis by (auto simp: store_Verify_cases)
  qed
qed

interpretation cache_store: captcha_store "as_store C e" look "\<lambda>_. cache_law look data C" for C e look data
  by unfold_locales (auto simp: as_store_def dest: store_Verify_law)

section \<open>Properties\<close>



end
