(* ===== verification/Casbinx.thy ===== *)
theory Casbinx
  imports GoPrelude
begin

text \<open>
  The package \<open>casbinx\<close>: the rules of a role in a casbin policy (\<open>casbinx/casbin.go\<close>). Casbin and its
  gorm adapter are the parameter \<open>L\<close>; the state is the pair of the package variables \<open>once\<close> and
  \<open>syncedEnforcer\<close> and the world \<open>'w\<close> behind the enforcer. An enforcer is named by the database it
  was made for. A call on the nil enforcer panics: the result is \<open>None\<close>.
\<close>

section \<open>Types\<close>

record CasbinInfo =
  Path :: string
  Method :: string

record CasbinInReceive =
  AuthorityId :: int64
  CasbinInfos :: "CasbinInfo list"

definition DefaultCasbin :: "CasbinInfo list" where
  "DefaultCasbin =
     [\<lparr>Path = ''/menu/getMenu'', Method = ''POST''\<rparr>, \<lparr>Path = ''/jwt/jsonInBlacklist'', Method = ''POST''\<rparr>,
      \<lparr>Path = ''/base/login'', Method = ''POST''\<rparr>, \<lparr>Path = ''/user/admin_register'', Method = ''POST''\<rparr>,
      \<lparr>Path = ''/user/changePassword'', Method = ''POST''\<rparr>, \<lparr>Path = ''/user/setUserAuthority'', Method = ''POST''\<rparr>,
      \<lparr>Path = ''/user/setUserInfo'', Method = ''PUT''\<rparr>, \<lparr>Path = ''/user/getUserInfo'', Method = ''GET''\<rparr>]"

type_synonym rule = "string list"

text \<open>\<open>new_enforcer\<close> tells whether the model text parses and the enforcer can be made.\<close>

record ('db, 'w) casbinlib =
  new_enforcer :: "'db \<Rightarrow> bool"
  load_policy :: "'db \<Rightarrow> 'w \<Rightarrow> 'w"
  add_policies :: "'db \<Rightarrow> rule list \<Rightarrow> 'w \<Rightarrow> bool \<times> 'w"
  remove_filtered :: "'db \<Rightarrow> nat \<Rightarrow> string list \<Rightarrow> 'w \<Rightarrow> bool \<times> 'w"
  get_filtered :: "'db \<Rightarrow> nat \<Rightarrow> string list \<Rightarrow> 'w \<Rightarrow> (string + rule list) \<times> 'w"
  update_rules :: "'db \<Rightarrow> string \<times> string \<Rightarrow> string \<times> string \<Rightarrow> 'w \<Rightarrow> string option \<times> 'w"

text \<open>\<open>once\<close> has not run, or has run and left the enforcer or nil.\<close>

datatype 'db global = NotYet | Done "'db option"

type_synonym ('db, 'w) cstate = "'db global \<times> 'w"

record 'db CasbinService =
  svc_db :: 'db

definition newCasbinService :: "'db \<Rightarrow> 'db CasbinService" where
  "newCasbinService db = \<lparr>svc_db = db\<rparr>"

section \<open>The operations\<close>

definition Casbin ::
  "('db, 'w) casbinlib \<Rightarrow> 'db CasbinService \<Rightarrow> ('db, 'w) cstate \<Rightarrow> ('db \<times> ('db, 'w) cstate) option" where
  "Casbin L c s =
     (case s of (once, w) \<Rightarrow>
      let syncedEnforcer = (case once of
            NotYet \<Rightarrow> if new_enforcer L (svc_db c) then Some (svc_db c) else None
          | Done e \<Rightarrow> e)
      in case syncedEnforcer of
           None \<Rightarrow> None
         | Some e \<Rightarrow> Some (e, (Done (Some e), load_policy L e w)))"

definition ClearCasbin ::
  "('db, 'w) casbinlib \<Rightarrow> 'db CasbinService \<Rightarrow> nat \<Rightarrow> string list \<Rightarrow> ('db, 'w) cstate
   \<Rightarrow> (bool \<times> ('db, 'w) cstate) option" where
  "ClearCasbin L c v p s =
     (case Casbin L c s of
        None \<Rightarrow> None
      | Some (e, (g, w)) \<Rightarrow> (case remove_filtered L e v p w of (success, w) \<Rightarrow> Some (success, (g, w))))"

definition role_id :: "int64 \<Rightarrow> string" where
  "role_id AuthorityID = itoa (sint AuthorityID)"

definition role_rule :: "string \<Rightarrow> CasbinInfo \<Rightarrow> rule" where
  "role_rule authorityId v = [authorityId, Path v, Method v]"

text \<open>The error of the code when casbin reports no success; its text is fixed.\<close>

datatype casbin_error = AddFailed | CasbinFailed string

definition UpdateCasbin ::
  "('db, 'w) casbinlib \<Rightarrow> 'db CasbinService \<Rightarrow> int64 \<Rightarrow> CasbinInfo list \<Rightarrow> ('db, 'w) cstate
   \<Rightarrow> (casbin_error option \<times> ('db, 'w) cstate) option" where
  "UpdateCasbin L c AuthorityID casbinInfos s =
     (let authorityId = role_id AuthorityID in
      case ClearCasbin L c 0 [authorityId] s of
        None \<Rightarrow> None
      | Some (_, s) \<Rightarrow>
          (let rules = map (role_rule authorityId) casbinInfos in
           case Casbin L c s of
             None \<Rightarrow> None
           | Some (e, (g, w)) \<Rightarrow>
               (case add_policies L e rules w of
                  (success, w) \<Rightarrow> Some (if \<not> success then Some AddFailed else None, (g, w)))))"

definition UpdateCasbinApi ::
  "('db, 'w) casbinlib \<Rightarrow> 'db CasbinService \<Rightarrow> string \<Rightarrow> string \<Rightarrow> string \<Rightarrow> string \<Rightarrow> ('db, 'w) cstate
   \<Rightarrow> string option \<times> ('db, 'w) cstate" where
  "UpdateCasbinApi L c oldPath newPath oldMethod newMethod s =
     (case s of (g, w) \<Rightarrow>
      case update_rules L (svc_db c) (oldPath, oldMethod) (newPath, newMethod) w of (err, w) \<Rightarrow> (err, (g, w)))"

text \<open>A rule with fewer than three fields panics at the index.\<close>

definition info_of :: "rule \<Rightarrow> CasbinInfo option" where
  "info_of v = (if length v < 3 then None else Some \<lparr>Path = v ! 1, Method = v ! 2\<rparr>)"

definition GetCasbinByAuthorityId ::
  "('db, 'w) casbinlib \<Rightarrow> 'db CasbinService \<Rightarrow> int64 \<Rightarrow> ('db, 'w) cstate
   \<Rightarrow> ((casbin_error + CasbinInfo list) \<times> ('db, 'w) cstate) option" where
  "GetCasbinByAuthorityId L c AuthorityID s =
     (case Casbin L c s of
        None \<Rightarrow> None
      | Some (e, (g, w)) \<Rightarrow>
          (case get_filtered L e 0 [role_id AuthorityID] w of
             (Inl err, w) \<Rightarrow> Some (Inl (CasbinFailed err), (g, w))
           | (Inr lst, w) \<Rightarrow>
               (if list_all (\<lambda>v. info_of v \<noteq> None) lst
                then Some (Inr (map (the \<circ> info_of) lst), (g, w)) else None)))"

section \<open>What casbin documents\<close>

text \<open>\<open>policy\<close> is the set of rules of an enforcer. A filter compares the fields from an index on; an
  empty value matches anything. \<open>AddPolicies\<close> adds all the rules, or none when one of them is
  present already.\<close>

definition matches :: "nat \<Rightarrow> string list \<Rightarrow> rule \<Rightarrow> bool" where
  "matches v p r \<longleftrightarrow> (\<forall>j < length p. p ! j = [] \<or> (v + j < length r \<and> r ! (v + j) = p ! j))"

definition casbin_law :: "('w \<Rightarrow> 'db \<Rightarrow> rule set) \<Rightarrow> ('db, 'w) casbinlib \<Rightarrow> bool" where
  "casbin_law policy L \<longleftrightarrow>
     (\<forall>e w. policy (load_policy L e w) = policy w)
   \<and> (\<forall>e v p w b w'. remove_filtered L e v p w = (b, w') \<longrightarrow>
        policy w' = (policy w)(e := {r \<in> policy w e. \<not> matches v p r}))
   \<and> (\<forall>e rs w b w'. add_policies L e rs w = (b, w') \<longrightarrow>
        policy w' = (if b then (policy w)(e := policy w e \<union> set rs) else policy w)
        \<and> (rs \<noteq> [] \<and> distinct rs \<and> set rs \<inter> policy w e = {} \<longrightarrow> b))
   \<and> (\<forall>e v p w r w'. get_filtered L e v p w = (r, w') \<longrightarrow> w' = w \<and>
        (\<forall>lst. r = Inr lst \<longrightarrow> set lst = {x \<in> policy w e. matches v p x}))"

section \<open>Lemmas\<close>

lemma matches_role [simp]: "a \<noteq> [] \<Longrightarrow> matches 0 [a] r \<longleftrightarrow> r \<noteq> [] \<and> hd r = a"
  by (cases r) (auto simp: matches_def)

lemma casbin_load:
  assumes "casbin_law policy L" shows "policy (load_policy L e w) = policy w"
  using assms[unfolded casbin_law_def, THEN conjunct1, rule_format] .

lemma casbin_remove:
  assumes "casbin_law policy L" "remove_filtered L e v p w = (b, w')"
  shows "policy w' = (policy w)(e := {r \<in> policy w e. \<not> matches v p r})"
  using assms(1)[unfolded casbin_law_def, THEN conjunct2, THEN conjunct1, rule_format, OF assms(2)] .

lemma casbin_add:
  assumes "casbin_law policy L" "add_policies L e rs w = (b, w')"
  shows "policy w' = (if b then (policy w)(e := policy w e \<union> set rs) else policy w)"
    and "rs \<noteq> [] \<Longrightarrow> distinct rs \<Longrightarrow> set rs \<inter> policy w e = {} \<Longrightarrow> b"
  using assms(1)[unfolded casbin_law_def, THEN conjunct2, THEN conjunct2, THEN conjunct1, rule_format, OF assms(2)]
  by simp_all

lemma casbin_get:
  assumes "casbin_law policy L" "get_filtered L e v p w = (r, w')"
  shows "w' = w" and "r = Inr lst \<Longrightarrow> set lst = {x \<in> policy w e. matches v p x}"
  using assms(1)[unfolded casbin_law_def, THEN conjunct2, THEN conjunct2, THEN conjunct2, rule_format, OF assms(2)]
  by simp_all

lemma role_id_nonempty [simp]: "role_id a \<noteq> []"
  by (simp add: role_id_def itoa_def digits_nat_props)

lemma Casbin_Some:
  assumes "Casbin L c s = Some (e, s')"
  shows "s' = (Done (Some e), load_policy L e (snd s))
    \<and> (fst s = Done (Some e) \<or> (fst s = NotYet \<and> new_enforcer L (svc_db c) \<and> e = svc_db c))"
proof -
  obtain once w where s: "s = (once, w)" by fastforce
  show ?thesis
  proof (cases once)
    case NotYet
    with assms s show ?thesis by (cases "new_enforcer L (svc_db c)") (auto simp: Casbin_def)
  next
    case (Done x)
    with assms s show ?thesis by (cases x) (simp_all add: Casbin_def)
  qed
qed

lemma Casbin_Done [simp]: "Casbin L c (Done (Some e), w) = Some (e, (Done (Some e), load_policy L e w))"
  by (simp add: Casbin_def)

lemma role_rule_inj: "inj (role_rule a)"
  by (auto simp: inj_def role_rule_def)

lemma info_of_role_rule [simp]: "info_of (role_rule a i) = Some i"
  by (simp add: info_of_def role_rule_def)

lemma matches_role_rule [simp]: "a \<noteq> [] \<Longrightarrow> matches 0 [a] (role_rule a i)"
  by (simp add: role_rule_def)

lemma GetCasbin_of_rules:
  assumes law: "casbin_law policy L"
    and rules: "{r \<in> policy w e. matches 0 [role_id a] r} = role_rule (role_id a) ` I"
    and get: "get_filtered L e 0 [role_id a] (load_policy L e w) = (Inr lst, w')"
  shows "\<exists>got. GetCasbinByAuthorityId L c a (Done (Some e), w) = Some (Inr got, (Done (Some e), w')) \<and> set got = I"
proof -
  have "set lst = role_rule (role_id a) ` I"
    using casbin_get(2)[OF law get] casbin_load[OF law] rules by simp
  then have "list_all (\<lambda>v. info_of v \<noteq> None) lst" "set (map (the \<circ> info_of) lst) = I"
    by (auto simp: list_all_iff image_image)
  with get show ?thesis by (auto simp: GetCasbinByAuthorityId_def)
qed

section \<open>Properties\<close>


section \<open>An enforcer in memory\<close>

text \<open>The rules of each database as a list.\<close>

definition mem_casbin :: "('db, 'db \<Rightarrow> rule list) casbinlib" where
  "mem_casbin = \<lparr>new_enforcer = \<lambda>_. True, load_policy = \<lambda>_ w. w,
     add_policies = \<lambda>e rs w. if rs \<noteq> [] \<and> list_all (\<lambda>r. r \<notin> set (w e)) rs \<and> distinct rs
       then (True, w(e := w e @ rs)) else (False, w),
     remove_filtered = \<lambda>e v p w. (True, w(e := filter (\<lambda>r. \<not> matches v p r) (w e))),
     get_filtered = \<lambda>e v p w. (Inr (filter (matches v p) (w e)), w),
     update_rules = \<lambda>_ _ _ w. (None, w)\<rparr>"

lemma mem_casbin_law: "casbin_law (\<lambda>w e. set (w e)) mem_casbin"
  unfolding casbin_law_def mem_casbin_def
  by (intro conjI allI impI; (rule ext)?) (auto simp: list_all_iff disjoint_iff split: if_splits)

definition two_rules :: "bool \<Rightarrow> rule list" where
  "two_rules db = (if db then [[''1'', ''/a'', ''GET''], [''2'', ''/a'', ''GET'']] else [])"

lemma matches_01 [simp]: "matches 0 [x] (r # rs) \<longleftrightarrow> x = [] \<or> r = x"
  by (auto simp: matches_def)

lemma two_rules_run:
  "UpdateCasbin mem_casbin (newCasbinService True) 1 [\<lparr>Path = ''/b'', Method = ''PUT''\<rparr>] (NotYet, two_rules)
   = Some (None, (Done (Some True), two_rules(True := [[''2'', ''/a'', ''GET''], [''1'', ''/b'', ''PUT'']])))"
proof -
  have "role_id 1 = ''1''" by code_simp
  then show ?thesis
    by (simp add: UpdateCasbin_def ClearCasbin_def Casbin_def newCasbinService_def mem_casbin_def two_rules_def role_rule_def)
qed


end
