(* ===== verification/GoFS.thy ===== *)
theory GoFS
  imports GoPath "HOL-Library.AList" "HOL-Library.List_Lexorder" "HOL-Library.Char_ord"
begin

text \<open>
  The file operations of the package \<open>os\<close> on a Unix system, as far as the code uses them. A file
  system is a tree of files, directories and symbolic links; the state adds the working directory and
  the mode mask of the process. Access is never refused: the process owns what it touches. A path is
  at most 4095 bytes and a name at most 255 bytes long, and a look-up follows at most 40 links. The
  disk is never full. Paths are resolved to physical paths, the lists of names from the root that no
  link takes part in.
\<close>

section \<open>The tree\<close>

type_synonym perm = "9 word"

datatype node = File perm string | Dir perm "(string \<times> node) list" | Link string

fun lookup :: "node \<Rightarrow> string list \<Rightarrow> node option" where
  "lookup n [] = Some n"
| "lookup (Dir m es) (x # p) = (case map_of es x of None \<Rightarrow> None | Some n \<Rightarrow> lookup n p)"
| "lookup n (x # p) = None"

text \<open>Put a node at a path whose parent is a directory, or remove it.\<close>

fun set_at :: "string list \<Rightarrow> node option \<Rightarrow> node \<Rightarrow> node" where
  "set_at [] v n = (case v of None \<Rightarrow> n | Some n' \<Rightarrow> n')"
| "set_at [x] v (Dir m es) =
     Dir m (case v of None \<Rightarrow> AList.delete x es | Some n \<Rightarrow> AList.update x n es)"
| "set_at (x # y # p) v (Dir m es) =
     (case map_of es x of None \<Rightarrow> Dir m es | Some n \<Rightarrow> Dir m (AList.update x (set_at (y # p) v n) es))"
| "set_at (x # p) v n = n"

text \<open>What a look-up shows of a node: for a directory only its mode.\<close>

datatype entry = AFile perm string | ADir perm | ALink string

fun shallow :: "node \<Rightarrow> entry" where
  "shallow (File m c) = AFile m c"
| "shallow (Dir m es) = ADir m"
| "shallow (Link t) = ALink t"

definition look :: "node \<Rightarrow> string list \<Rightarrow> entry option" where
  "look n p = map_option shallow (lookup n p)"

fun is_dir :: "entry \<Rightarrow> bool" where
  "is_dir (ADir m) = True"
| "is_dir e = False"

fun is_link :: "entry \<Rightarrow> bool" where
  "is_link (ALink t) = True"
| "is_link e = False"

fun is_regular :: "entry \<Rightarrow> bool" where
  "is_regular (AFile m c) = True"
| "is_regular e = False"

text \<open>The permission bits; those of a symbolic link are 0777.\<close>

fun mode_of :: "entry \<Rightarrow> perm" where
  "mode_of (AFile m c) = m"
| "mode_of (ADir m) = m"
| "mode_of (ALink t) = 511"

text \<open>Names are distinct and valid in every directory, and a link has a target.\<close>

fun wf_node :: "node \<Rightarrow> bool" where
  "wf_node (File m c) = True"
| "wf_node (Dir m es) = (distinct (map fst es) \<and> list_all (\<lambda>e. valid_name (fst e) \<and> wf_node (snd e)) es)"
| "wf_node (Link t) = (t \<noteq> [])"

section \<open>Looking up and putting\<close>

lemma look_Nil [simp]: "look n [] = Some (shallow n)"
  by (simp add: look_def)

lemma look_Dir [simp]: "look (Dir m es) (x # p) = (case map_of es x of None \<Rightarrow> None | Some n \<Rightarrow> look n p)"
  by (simp add: look_def split: option.split)

lemma look_leaf [simp]: "look (File m c) (x # p) = None" "look (Link t) (x # p) = None"
  by (simp_all add: look_def)

lemma lookup_append: "lookup n (p @ q) = (case lookup n p of None \<Rightarrow> None | Some k \<Rightarrow> lookup k q)"
  by (induction n p rule: lookup.induct) (auto split: option.splits)

lemma look_append: "look n (p @ q) = (case lookup n p of None \<Rightarrow> None | Some k \<Rightarrow> look k q)"
  by (simp add: look_def lookup_append split: option.split)

lemma look_snoc_Some: "look n (p @ [x]) = Some e \<Longrightarrow> \<exists>m. look n p = Some (ADir m)"
proof -
  assume "look n (p @ [x]) = Some e"
  then obtain k where "lookup n p = Some k" "look k [x] = Some e"
    by (auto simp: look_append split: option.splits)
  then show ?thesis by (cases k) (auto simp: look_def)
qed

text \<open>A node put at \<open>p\<close> is seen at the paths below \<open>p\<close> only.\<close>

definition below :: "string list \<Rightarrow> string list \<Rightarrow> bool" where
  "below p q \<longleftrightarrow> take (length p) q = p"

lemma below_Nil [simp]: "below [] q" "below p [] \<longleftrightarrow> p = []"
  by (auto simp: below_def)

lemma below_Cons [simp]: "below (x # p) (y # q) \<longleftrightarrow> x = y \<and> below p q"
  by (auto simp: below_def)

lemma below_iff: "below p q \<longleftrightarrow> (\<exists>r. q = p @ r)"
  by (metis append_eq_conv_conj below_def)

lemma shallow_set_at [simp]: "shallow (set_at (x # p) v n) = shallow n"
  by (cases n; cases p) (auto split: option.splits)

lemma look_set_at:
  assumes "look n (butlast p) = Some (ADir m)" "p \<noteq> []"
  shows "look (set_at p (Some v) n) q = (if below p q then look v (drop (length p) q) else look n q)"
  using assms
proof (induction p "Some v" n arbitrary: q rule: set_at.induct)
  case (2 x m' es)
  show ?case by (cases q) (auto simp: update_conv')
next
  case (3 x y p m' es)
  then obtain k where k: "map_of es x = Some k" by (auto split: option.splits)
  with 3 have IH: "look (set_at (y # p) (Some v) k) q
      = (if below (y # p) q then look v (drop (length (y # p)) q) else look k q)" for q
    by (simp split: if_splits)
  show ?case
  proof (cases q)
    case (Cons z zs)
    with k IH show ?thesis by (cases zs) (auto simp: update_conv')
  qed (use k in simp)
qed (auto split: if_splits)

lemma look_remove_at:
  assumes "look n (butlast p) = Some (ADir m)" "p \<noteq> []"
  shows "look (set_at p None n) q = (if below p q then None else look n q)"
  using assms
proof (induction p "None :: node option" n arbitrary: q rule: set_at.induct)
  case (2 x m' es)
  show ?case by (cases q) (auto simp: delete_conv')
next
  case (3 x y p m' es)
  then obtain k where k: "map_of es x = Some k" by (auto split: option.splits)
  with 3 have IH: "look (set_at (y # p) None k) q = (if below (y # p) q then None else look k q)" for q
    by (simp split: if_splits)
  show ?case
  proof (cases q)
    case (Cons z zs)
    with k IH show ?thesis by (cases zs) (auto simp: update_conv')
  qed (use k in simp)
qed (auto split: if_splits)

lemma wf_update:
  assumes "wf_node (Dir m es)" "valid_name x" "wf_node n"
  shows "wf_node (Dir m (AList.update x n es))"
proof -
  have "fst e \<in> insert x (fst ` set es)" "snd e \<in> insert n (snd ` set es)"
    if "e \<in> set (AList.update x n es)" for e
    using that by (induction es) (auto split: if_splits)
  moreover have "valid_name (fst e)" "wf_node (snd e)" if "e \<in> set es" for e
    using assms(1) that by (auto simp: list_all_iff)
  moreover have "distinct (map fst (AList.update x n es))"
    using assms(1) by (simp add: distinct_update)
  ultimately show ?thesis using assms by (fastforce simp: list_all_iff)
qed

lemma wf_set_at:
  assumes "wf_node n" "list_all valid_name p" "case v of None \<Rightarrow> True | Some k \<Rightarrow> wf_node k"
  shows "wf_node (set_at p v n)"
  using assms
proof (induction p v n rule: set_at.induct)
  case (2 x v m es)
  show ?case
  proof (cases v)
    case None
    have "list_all P (AList.delete x es)" if "list_all P es" for P
      using that by (auto simp: list_all_iff AList.delete_eq)
    with 2 None show ?thesis by (simp add: distinct_delete)
  next
    case (Some k)
    with 2 show ?thesis using wf_update[of m es x k] by simp
  qed
next
  case (3 x y p v m es)
  then show ?case
  proof (cases "map_of es x")
    case (Some k)
    then have "(x, k) \<in> set es" by (rule map_of_SomeD)
    with 3(2) have "wf_node k" by (auto simp: list_all_iff)
    with 3 Some have "wf_node (set_at (y # p) v k)" by simp
    with 3 Some show ?thesis using wf_update[of m es x "set_at (y # p) v k"] by simp
  qed simp
qed (auto split: option.splits)

lemma wf_lookup: "wf_node n \<Longrightarrow> lookup n p = Some k \<Longrightarrow> wf_node k"
proof (induction n p rule: lookup.induct)
  case (2 m es x p)
  then obtain c where "map_of es x = Some c" "lookup c p = Some k" by (auto split: option.splits)
  moreover from this(1) have "(x, c) \<in> set es" by (rule map_of_SomeD)
  ultimately show ?case using 2 by (auto simp: list_all_iff)
qed auto

section \<open>Resolving a path\<close>

datatype errno =
    ENOENT | ENOTDIR | EEXIST | EISDIR | ENOTEMPTY | ELOOP | EINVAL | EBUSY | EACCES | ENAMETOOLONG

definition is_not_exist :: "errno \<Rightarrow> bool" where
  "is_not_exist e \<longleftrightarrow> e = ENOENT"

text \<open>\<open>cur\<close> is the physical path reached, \<open>es\<close> are the elements left. The last element need not exist;
  a link there is followed when \<open>follow\<close> is set.\<close>

function resolve :: "node \<Rightarrow> nat \<Rightarrow> string list \<Rightarrow> string list \<Rightarrow> bool \<Rightarrow> errno + string list" where
  "resolve t links cur [] follow = Inr cur"
| "resolve t links cur (e # es) follow =
     (case look t cur of
        None \<Rightarrow> Inl ENOENT
      | Some d \<Rightarrow>
          if \<not> is_dir d then Inl ENOTDIR
          else if e = [] \<or> e = ''.'' then resolve t links cur es follow
          else if e = ''..'' then resolve t links (butlast cur) es follow
          else if 255 < length e then Inl ENAMETOOLONG
          else (case look t (cur @ [e]) of
                  None \<Rightarrow> if es = [] then Inr (cur @ [e]) else Inl ENOENT
                | Some (ALink target) \<Rightarrow>
                    if es = [] \<and> \<not> follow then Inr (cur @ [e])
                    else if links = 0 then Inl ELOOP
                    else resolve t (links - 1) (if is_rooted target then [] else cur)
                           (split_char (CHR ''/'') target @ es) follow
                | Some _ \<Rightarrow> resolve t links (cur @ [e]) es follow))"
  by pat_completeness auto
termination by (relation "measures [\<lambda>(_, l, _). l, \<lambda>(_, _, _, es, _). length es]") auto

declare resolve.simps(2) [simp del]

record osys =
  tree :: node
  cwd :: "string list"
  umask :: perm

definition locate :: "osys \<Rightarrow> bool \<Rightarrow> string \<Rightarrow> errno + string list" where
  "locate s follow p =
     (if CHR 0x00 \<in> set p then Inl EINVAL
      else if p = [] then Inl ENOENT
      else if 4096 \<le> length p then Inl ENAMETOOLONG
      else resolve (tree s) 40 (if is_rooted p then [] else cwd s) (split_char (CHR ''/'') p) follow)"

definition wf_os :: "osys \<Rightarrow> bool" where
  "wf_os s \<longleftrightarrow> wf_node (tree s) \<and> look (tree s) [] = Some (ADir (mode_of (shallow (tree s))))
     \<and> list_all valid_name (cwd s)"

definition physical :: "node \<Rightarrow> string list \<Rightarrow> bool" where
  "physical t p \<longleftrightarrow> list_all valid_name p \<and> (p = [] \<or> (\<exists>m. look t (butlast p) = Some (ADir m)))"

lemma is_dir_iff: "is_dir d \<longleftrightarrow> (\<exists>m. d = ADir m)"
  by (cases d) auto

lemma physical_butlast:
  assumes "look t cur = Some (ADir m)" "physical t cur"
  shows "physical t (butlast cur)"
proof (cases "cur = []")
  case False
  then obtain m' where m': "look t (butlast cur) = Some (ADir m')"
    using assms by (auto simp: physical_def)
  have "\<exists>m. look t (butlast (butlast cur)) = Some (ADir m)" if "butlast cur \<noteq> []"
    using look_snoc_Some[of t "butlast (butlast cur)" "last (butlast cur)"] that m' by simp
  then show ?thesis using assms(2) by (auto simp: physical_def list_all_iff dest: in_set_butlastD)
qed (use assms in simp)

lemma physical_snoc:
  "physical t cur \<Longrightarrow> look t cur = Some (ADir m) \<Longrightarrow> valid_name e \<Longrightarrow> physical t (cur @ [e])"
  by (simp add: physical_def)

lemma physical_Nil [simp]: "physical t []"
  by (simp add: physical_def)

text \<open>The successful look-ups as a relation.\<close>

definition plain_elem :: "string \<Rightarrow> bool" where
  "plain_elem e \<longleftrightarrow> e \<noteq> [] \<and> e \<noteq> ''.'' \<and> e \<noteq> ''..'' \<and> length e \<le> 255"

inductive resolves :: "node \<Rightarrow> bool \<Rightarrow> nat \<Rightarrow> string list \<Rightarrow> string list \<Rightarrow> string list \<Rightarrow> bool" for t follow where
  res_done: "resolves t follow l cur [] cur"
| res_dot: "look t cur = Some (ADir m) \<Longrightarrow> e = [] \<or> e = ''.'' \<Longrightarrow> resolves t follow l cur es p
    \<Longrightarrow> resolves t follow l cur (e # es) p"
| res_parent: "look t cur = Some (ADir m) \<Longrightarrow> resolves t follow l (butlast cur) es p
    \<Longrightarrow> resolves t follow l cur (''..'' # es) p"
| res_missing: "look t cur = Some (ADir m) \<Longrightarrow> plain_elem e \<Longrightarrow> look t (cur @ [e]) = None
    \<Longrightarrow> resolves t follow l cur [e] (cur @ [e])"
| res_stop: "look t cur = Some (ADir m) \<Longrightarrow> plain_elem e \<Longrightarrow> look t (cur @ [e]) = Some (ALink tg)
    \<Longrightarrow> \<not> follow \<Longrightarrow> resolves t follow l cur [e] (cur @ [e])"
| res_link: "look t cur = Some (ADir m) \<Longrightarrow> plain_elem e \<Longrightarrow> look t (cur @ [e]) = Some (ALink tg)
    \<Longrightarrow> es \<noteq> [] \<or> follow
    \<Longrightarrow> resolves t follow l (if is_rooted tg then [] else cur) (split_char (CHR ''/'') tg @ es) p
    \<Longrightarrow> resolves t follow (Suc l) cur (e # es) p"
| res_node: "look t cur = Some (ADir m) \<Longrightarrow> plain_elem e \<Longrightarrow> look t (cur @ [e]) = Some x \<Longrightarrow> \<not> is_link x
    \<Longrightarrow> resolves t follow l (cur @ [e]) es p \<Longrightarrow> resolves t follow l cur (e # es) p"

lemma resolve_sound: "resolve t l cur es follow = Inr p \<Longrightarrow> resolves t follow l cur es p"
proof (induction t l cur es follow rule: resolve.induct)
  case (2 t l cur e es follow)
  from 2(6) obtain m where d: "look t cur = Some (ADir m)"
    by (auto simp: resolve.simps(2) is_dir_iff split: option.splits if_splits)
  consider (dot) "e = [] \<or> e = ''.''" | (parent) "e = ''..''" | (plain) "plain_elem e"
    using 2(6) by (auto simp: resolve.simps(2) plain_elem_def split: option.splits if_splits)
  then show ?case
  proof cases
    case dot
    then show ?thesis using 2 d by (auto simp: resolve.simps(2) intro: res_dot)
  next
    case parent
    then show ?thesis using 2 d by (auto simp: resolve.simps(2) intro: res_parent)
  next
    case plain
    then have n: "e \<noteq> []" "e \<noteq> ''.''" "e \<noteq> ''..''" "\<not> 255 < length e" by (auto simp: plain_elem_def)
    show ?thesis
    proof (cases "look t (cur @ [e])")
      case None
      then show ?thesis using 2(6) d n plain by (auto simp: resolve.simps(2) split: if_splits intro: res_missing)
    next
      case (Some x)
      show ?thesis
      proof (cases x)
        case (ALink tg)
        show ?thesis
        proof (cases "es = [] \<and> \<not> follow")
          case True
          then show ?thesis using 2(6) d n plain Some ALink by (auto simp: resolve.simps(2) intro: res_stop)
        next
          case False
          then obtain l' where "l = Suc l'" using 2(6) d n Some ALink
            by (cases l) (auto simp: resolve.simps(2))
          then show ?thesis using 2 d n plain Some ALink False
            by (auto simp: resolve.simps(2) intro!: res_link)
        qed
      qed (use 2 d n plain Some in \<open>auto simp: resolve.simps(2) intro!: res_node\<close>)
    qed
  qed
qed (simp add: res_done)

lemma resolve_complete: "resolves t follow l cur es p \<Longrightarrow> resolve t l cur es follow = Inr p"
  by (induction rule: resolves.induct)
    (auto simp: resolve.simps(2) plain_elem_def split: entry.splits)

lemma resolve_iff: "resolve t l cur es follow = Inr p \<longleftrightarrow> resolves t follow l cur es p"
  using resolve_sound resolve_complete by blast

lemma butlast_dir: "look t cur = Some (ADir m) \<Longrightarrow> \<exists>m. look t (butlast cur) = Some (ADir m)"
  using look_snoc_Some[of t "butlast cur" "last cur"] by (cases "cur = []") auto

lemma plain_valid: "plain_elem e \<Longrightarrow> CHR ''/'' \<notin> set e \<Longrightarrow> valid_name e"
  by (simp add: plain_elem_def valid_name_def)

lemma split_char_all: "list_all (\<lambda>e. d \<notin> set e) (split_char d s)"
  using split_char_pieces by (auto simp: list_all_iff)

lemma resolves_physical:
  "resolves t follow l cur es p \<Longrightarrow> physical t cur \<Longrightarrow> list_all (\<lambda>e. CHR ''/'' \<notin> set e) es \<Longrightarrow> physical t p"
  by (induction rule: resolves.induct)
    (simp_all add: physical_butlast physical_snoc plain_valid split_char_all split: if_splits)

lemma root_dir: "look t p = Some (ADir m) \<Longrightarrow> \<exists>m. shallow t = ADir m"
  by (cases t; cases p) auto

lemma resolves_no_link:
  "resolves t follow l cur es p \<Longrightarrow> follow \<Longrightarrow> \<forall>tg. look t cur \<noteq> Some (ALink tg) \<Longrightarrow> \<forall>tg. look t p \<noteq> Some (ALink tg)"
proof (induction rule: resolves.induct)
  case (res_parent cur m l es p)
  then show ?case using butlast_dir by fastforce
next
  case (res_link cur m e tg es l p)
  obtain m' where "shallow t = ADir m'" using root_dir[OF res_link(1)] by blast
  with res_link show ?case by simp
next
  case (res_node cur m e x l es p)
  then show ?case by (cases x) auto
qed auto

section \<open>Growing\<close>

text \<open>Nothing disappears or changes its kind, and nothing new is a link: a path that could be resolved
  still leads to the same place.\<close>

fun same_kind :: "entry \<Rightarrow> entry \<Rightarrow> bool" where
  "same_kind (AFile m c) (AFile m' c') = True"
| "same_kind (ADir m) (ADir m') = True"
| "same_kind (ALink a) (ALink b) = (a = b)"
| "same_kind a b = False"

definition grows :: "node \<Rightarrow> node \<Rightarrow> bool" where
  "grows t t' \<longleftrightarrow> (\<forall>p. case look t p of
      None \<Rightarrow> (\<forall>tg. look t' p \<noteq> Some (ALink tg))
    | Some e \<Rightarrow> (\<exists>e'. look t' p = Some e' \<and> same_kind e e'))"

lemma same_kind_refl [simp]: "same_kind e e"
  by (cases e) auto

lemma grows_refl [simp]: "grows t t"
  by (simp add: grows_def split: option.split)

lemma same_kind_trans: "same_kind a b \<Longrightarrow> same_kind b c \<Longrightarrow> same_kind a c"
  by (cases a; cases b; cases c) auto

lemma same_kind_link: "same_kind a b \<Longrightarrow> is_link a = is_link b"
  by (cases a; cases b) auto

lemma grows_SomeD:
  assumes "grows t t'" "look t p = Some e"
  shows "\<exists>e'. look t' p = Some e' \<and> same_kind e e'"
  using spec[OF assms(1)[unfolded grows_def], of p] assms(2) by simp

lemma grows_NoneD:
  assumes "grows t t'" "look t p = None"
  shows "look t' p \<noteq> Some (ALink tg)"
  using spec[OF assms(1)[unfolded grows_def], of p] assms(2) by simp

lemma grows_DirD:
  assumes "grows t t'" "look t p = Some (ADir m)"
  shows "\<exists>m'. look t' p = Some (ADir m')"
proof -
  obtain e where "look t' p = Some e" "same_kind (ADir m) e" using grows_SomeD[OF assms] by blast
  then show ?thesis by (cases e) auto
qed

lemma grows_trans: "grows a b \<Longrightarrow> grows b c \<Longrightarrow> grows a c"
  unfolding grows_def [of a c]
proof
  fix p assume ab: "grows a b" and bc: "grows b c"
  show "case look a p of None \<Rightarrow> \<forall>tg. look c p \<noteq> Some (ALink tg)
    | Some e \<Rightarrow> \<exists>e'. look c p = Some e' \<and> same_kind e e'"
  proof (cases "look a p")
    case None
    then have nb: "look b p \<noteq> Some (ALink tg)" for tg using grows_NoneD[OF ab] by blast
    show ?thesis
    proof (cases "look b p")
      case (Some e)
      then obtain e' where "look c p = Some e'" "same_kind e e'" using grows_SomeD[OF bc] by blast
      then show ?thesis using None nb Some by (cases e; cases e') auto
    qed (use None grows_NoneD[OF bc] in auto)
  next
    case (Some e)
    then obtain e' where "look b p = Some e'" "same_kind e e'" using grows_SomeD[OF ab] by blast
    moreover from this(1) obtain e'' where "look c p = Some e''" "same_kind e' e''"
      using grows_SomeD[OF bc] by blast
    ultimately show ?thesis using Some same_kind_trans by auto
  qed
qed

lemma resolves_grows:
  "resolves t follow l cur es p \<Longrightarrow> grows t t' \<Longrightarrow> resolves t' follow l cur es p"
proof (induction rule: resolves.induct)
  case (res_missing cur m e l)
  obtain m' where d: "look t' cur = Some (ADir m')" using grows_DirD[OF res_missing(4,1)] by blast
  show ?case
  proof (cases "look t' (cur @ [e])")
    case None
    then show ?thesis using d res_missing by (auto intro: resolves.res_missing)
  next
    case (Some x)
    moreover have "\<not> is_link x" using Some grows_NoneD[OF res_missing(4,3)] by (cases x) auto
    ultimately show ?thesis using d res_missing by (auto intro!: resolves.res_node resolves.res_done)
  qed
next
  case (res_stop cur m e tg l)
  obtain m' where d: "look t' cur = Some (ADir m')" using grows_DirD res_stop by blast
  obtain x where "look t' (cur @ [e]) = Some x" "same_kind (ALink tg) x" using grows_SomeD res_stop by blast
  then have "look t' (cur @ [e]) = Some (ALink tg)" by (cases x) auto
  then show ?case using resolves.res_stop[OF d res_stop(2)] res_stop by blast
next
  case (res_link cur m e tg es l p)
  obtain m' where d: "look t' cur = Some (ADir m')" using grows_DirD res_link by blast
  obtain x where "look t' (cur @ [e]) = Some x" "same_kind (ALink tg) x" using grows_SomeD res_link by blast
  then have "look t' (cur @ [e]) = Some (ALink tg)" by (cases x) auto
  then show ?case using resolves.res_link[OF d res_link(2)] res_link by blast
next
  case (res_node cur m e x l es p)
  obtain m' where d: "look t' cur = Some (ADir m')" using grows_DirD res_node by blast
  obtain x' where "look t' (cur @ [e]) = Some x'" "same_kind x x'" using grows_SomeD res_node by blast
  then show ?case using resolves.res_node[OF d res_node(2)] res_node same_kind_link by blast
qed (auto intro: resolves.res_done resolves.res_dot resolves.res_parent dest: grows_DirD)

section \<open>Operations\<close>

definition stat_at :: "osys \<Rightarrow> bool \<Rightarrow> string \<Rightarrow> errno + entry" where
  "stat_at s follow p =
     (case locate s follow p of
        Inl e \<Rightarrow> Inl e
      | Inr q \<Rightarrow> (case look (tree s) q of None \<Rightarrow> Inl ENOENT | Some x \<Rightarrow> Inr x))"

definition Stat :: "osys \<Rightarrow> string \<Rightarrow> errno + entry" where
  "Stat s p = stat_at s True p"

definition Lstat :: "osys \<Rightarrow> string \<Rightarrow> errno + entry" where
  "Lstat s p = stat_at s False p"

definition put_node :: "string list \<Rightarrow> node \<Rightarrow> osys \<Rightarrow> osys" where
  "put_node q n s = s\<lparr>tree := set_at q (Some n) (tree s)\<rparr>"

definition drop_node :: "string list \<Rightarrow> osys \<Rightarrow> osys" where
  "drop_node q s = s\<lparr>tree := set_at q None (tree s)\<rparr>"

definition change_node :: "(node \<Rightarrow> node) \<Rightarrow> string list \<Rightarrow> osys \<Rightarrow> osys" where
  "change_node f q s = (case lookup (tree s) q of None \<Rightarrow> s | Some n \<Rightarrow> put_node q (f n) s)"

fun chmod_node :: "perm \<Rightarrow> node \<Rightarrow> node" where
  "chmod_node m (File m' c) = File m c"
| "chmod_node m (Dir m' es) = Dir m es"
| "chmod_node m (Link t) = Link t"

fun content_node :: "(string \<Rightarrow> string) \<Rightarrow> node \<Rightarrow> node" where
  "content_node f (File m c) = File m (f c)"
| "content_node f n = n"

text \<open>An open file is its physical path; nothing renames or removes a file while it is open here.\<close>

definition set_content :: "string list \<Rightarrow> string \<Rightarrow> osys \<Rightarrow> osys" where
  "set_content q c s = change_node (content_node (\<lambda>_. c)) q s"

definition add_content :: "string list \<Rightarrow> string \<Rightarrow> osys \<Rightarrow> osys" where
  "add_content q c s = change_node (content_node (\<lambda>a. a @ c)) q s"

definition Chmod :: "osys \<Rightarrow> string \<Rightarrow> perm \<Rightarrow> errno option \<times> osys" where
  "Chmod s p m =
     (case locate s True p of
        Inl e \<Rightarrow> (Some e, s)
      | Inr q \<Rightarrow> (case look (tree s) q of
            None \<Rightarrow> (Some ENOENT, s)
          | Some _ \<Rightarrow> (None, change_node (chmod_node m) q s)))"

text \<open>Opening for reading, and reading to the end.\<close>

definition Open :: "osys \<Rightarrow> string \<Rightarrow> errno + string list" where
  "Open s p =
     (case locate s True p of
        Inl e \<Rightarrow> Inl e
      | Inr q \<Rightarrow> (case look (tree s) q of None \<Rightarrow> Inl ENOENT | Some _ \<Rightarrow> Inr q))"

definition read_all :: "osys \<Rightarrow> string list \<Rightarrow> errno + string" where
  "read_all s q =
     (case look (tree s) q of
        Some (AFile m c) \<Rightarrow> Inr c
      | Some (ADir m) \<Rightarrow> Inl EISDIR
      | _ \<Rightarrow> Inl ENOENT)"

definition ReadFile :: "osys \<Rightarrow> string \<Rightarrow> errno + string" where
  "ReadFile s p = (case Open s p of Inl e \<Rightarrow> Inl e | Inr q \<Rightarrow> read_all s q)"

text \<open>Opening for writing: \<open>O_CREATE\<close> and \<open>O_TRUNC\<close>.\<close>

definition OpenFile :: "osys \<Rightarrow> string \<Rightarrow> bool \<Rightarrow> bool \<Rightarrow> perm \<Rightarrow> (errno + string list) \<times> osys" where
  "OpenFile s p create trunc m =
     (if create \<and> p \<noteq> [] \<and> last p = CHR ''/'' then (Inl EISDIR, s)
      else (case locate s True p of
        Inl e \<Rightarrow> (Inl e, s)
      | Inr q \<Rightarrow>
          (case look (tree s) q of
             None \<Rightarrow> if create then (Inr q, put_node q (File (and m (not (umask s))) []) s) else (Inl ENOENT, s)
           | Some (AFile _ _) \<Rightarrow> (Inr q, if trunc then set_content q [] s else s)
           | Some (ADir _) \<Rightarrow> (Inl EISDIR, s)
           | Some (ALink _) \<Rightarrow> (Inl ELOOP, s))))"

definition Create :: "osys \<Rightarrow> string \<Rightarrow> (errno + string list) \<times> osys" where
  "Create s p = OpenFile s p True True 438"

definition WriteFile :: "osys \<Rightarrow> string \<Rightarrow> string \<Rightarrow> perm \<Rightarrow> errno option \<times> osys" where
  "WriteFile s p c m =
     (case OpenFile s p True True m of
        (Inl e, s) \<Rightarrow> (Some e, s)
      | (Inr q, s) \<Rightarrow> (None, set_content q c s))"

definition Mkdir :: "osys \<Rightarrow> string \<Rightarrow> perm \<Rightarrow> errno option \<times> osys" where
  "Mkdir s p m =
     (case locate s False (if trim_slashes p = [] \<and> p \<noteq> [] then ''/'' else trim_slashes p) of
        Inl e \<Rightarrow> (Some e, s)
      | Inr q \<Rightarrow>
          (case look (tree s) q of
             Some _ \<Rightarrow> (Some EEXIST, s)
           | None \<Rightarrow> (None, put_node q (Dir (and m (not (umask s))) []) s)))"

definition parent_part :: "string \<Rightarrow> string" where
  "parent_part p = rev (dropWhile (\<lambda>c. c \<noteq> CHR ''/'') (dropWhile (\<lambda>c. c = CHR ''/'') (rev p)))"

lemma parent_part_shorter: "parent_part p \<noteq> [] \<Longrightarrow> length (parent_part p) < length p"
proof -
  assume ne: "parent_part p \<noteq> []"
  then obtain c r where r: "rev p = c # r"
    by (cases "rev p") (auto simp: parent_part_def)
  have le: "length (dropWhile P (dropWhile Q xs)) \<le> length xs" for P Q and xs :: string
    using length_dropWhile_le[of P "dropWhile Q xs"] length_dropWhile_le[of Q xs] by simp
  have "length (parent_part p) \<le> length r"
    using r le[of "\<lambda>c. c \<noteq> CHR ''/''" "\<lambda>c. c = CHR ''/''" r] length_dropWhile_le[of "\<lambda>c. c \<noteq> CHR ''/''" r]
    by (auto simp: parent_part_def)
  moreover have "length p = Suc (length r)" using arg_cong[OF r, of length] by simp
  ultimately show ?thesis by simp
qed

function MkdirAll :: "osys \<Rightarrow> string \<Rightarrow> perm \<Rightarrow> errno option \<times> osys" where
  "MkdirAll s p m =
     (case Stat s p of
        Inr x \<Rightarrow> (if is_dir x then None else Some ENOTDIR, s)
      | Inl _ \<Rightarrow>
          (case (if parent_part p \<noteq> [] then MkdirAll s (parent_part p) m else (None, s)) of
             (Some e, s) \<Rightarrow> (Some e, s)
           | (None, s) \<Rightarrow>
               (case Mkdir s p m of
                  (None, s) \<Rightarrow> (None, s)
                | (Some e, s) \<Rightarrow>
                    (case Lstat s p of
                       Inr x \<Rightarrow> (if is_dir x then None else Some e, s)
                     | Inl _ \<Rightarrow> (Some e, s)))))"
  by pat_completeness auto
termination by (relation "measure (\<lambda>(_, p, _). length p)") (auto simp: parent_part_shorter)

declare MkdirAll.simps [simp del]

definition rename_at :: "osys \<Rightarrow> string list \<Rightarrow> string list \<Rightarrow> errno option \<times> osys" where
  "rename_at s q1 q2 =
     (case lookup (tree s) q1 of
        None \<Rightarrow> (Some ENOENT, s)
      | Some n \<Rightarrow>
          if q1 = q2 then (None, s)
          else if q1 = [] \<or> q2 = [] then (Some EBUSY, s)
          else if below q1 q2 then (Some EINVAL, s)
          else (case look (tree s) q2 of
                  Some x \<Rightarrow>
                    if is_dir (shallow n) \<and> \<not> is_dir x then (Some ENOTDIR, s)
                    else if is_dir x then (Some EEXIST, s)
                    else (None, put_node q2 n (drop_node q1 s))
                | None \<Rightarrow> (None, put_node q2 n (drop_node q1 s))))"

definition Rename :: "osys \<Rightarrow> string \<Rightarrow> string \<Rightarrow> errno option \<times> osys" where
  "Rename s oldname newname =
     (case locate s False oldname of
        Inl e \<Rightarrow> (Some e, s)
      | Inr q1 \<Rightarrow>
          if look (tree s) q1 = None then (Some ENOENT, s)
          else (case locate s False newname of
                  Inl e \<Rightarrow> (Some e, s)
                | Inr q2 \<Rightarrow>
                    (case look (tree s) q2 of
                       Some (ADir _) \<Rightarrow>
                         if newname = oldname \<or> q1 \<noteq> q2 then (Some EEXIST, s) else rename_at s q1 q2
                     | _ \<Rightarrow> rename_at s q1 q2)))"

definition Remove :: "osys \<Rightarrow> string \<Rightarrow> errno option \<times> osys" where
  "Remove s p =
     (case locate s False p of
        Inl e \<Rightarrow> (Some e, s)
      | Inr q \<Rightarrow>
          (case lookup (tree s) q of
             None \<Rightarrow> (Some ENOENT, s)
           | Some n \<Rightarrow>
               if q = [] then (Some EBUSY, s)
               else (case n of
                       Dir _ es \<Rightarrow> if es \<noteq> [] then (Some ENOTEMPTY, s) else (None, drop_node q s)
                     | _ \<Rightarrow> (None, drop_node q s))))"

text \<open>The root itself is not removed by the code: for it the model gives an error.\<close>

definition RemoveAll :: "osys \<Rightarrow> string \<Rightarrow> errno option \<times> osys" where
  "RemoveAll s p =
     (if p = [] then (None, s)
      else if p = ''.'' \<or> has_suffix p ''/.'' then (Some EINVAL, s)
      else (case locate s False p of
              Inl e \<Rightarrow> (if is_not_exist e then None else Some e, s)
            | Inr q \<Rightarrow>
                (case look (tree s) q of
                   None \<Rightarrow> (None, s)
                 | Some _ \<Rightarrow> if q = [] then (Some EBUSY, s) else (None, drop_node q s))))"

text \<open>Directory entries come sorted by name; the names \<open>.\<close> and \<open>..\<close> are not listed.\<close>

fun node_entries :: "node \<Rightarrow> (string \<times> entry) list" where
  "node_entries (Dir m es) =
     map (\<lambda>x. (x, shallow (the (map_of es x)))) (sort (filter valid_name (map fst es)))"
| "node_entries n = []"

definition ReadDir :: "osys \<Rightarrow> string \<Rightarrow> errno + (string \<times> entry) list" where
  "ReadDir s p =
     (case locate s True p of
        Inl e \<Rightarrow> Inl e
      | Inr q \<Rightarrow>
          (case lookup (tree s) q of
             None \<Rightarrow> Inl ENOENT
           | Some n \<Rightarrow> if is_dir (shallow n) then Inr (node_entries n) else Inl ENOTDIR))"

definition Symlink :: "osys \<Rightarrow> string \<Rightarrow> string \<Rightarrow> errno option \<times> osys" where
  "Symlink s target p =
     (if target = [] then (Some ENOENT, s)
      else (case locate s False p of
              Inl e \<Rightarrow> (Some e, s)
            | Inr q \<Rightarrow>
                (case look (tree s) q of
                   Some _ \<Rightarrow> (Some EEXIST, s)
                 | None \<Rightarrow> (None, put_node q (Link target) s))))"

definition Readlink :: "osys \<Rightarrow> string \<Rightarrow> errno + string" where
  "Readlink s p =
     (case locate s False p of
        Inl e \<Rightarrow> Inl e
      | Inr q \<Rightarrow>
          (case look (tree s) q of
             Some (ALink target) \<Rightarrow> Inr target
           | Some _ \<Rightarrow> Inl EINVAL
           | None \<Rightarrow> Inl ENOENT))"

definition Getwd :: "osys \<Rightarrow> string" where
  "Getwd s = CHR ''/'' # join (cwd s) ''/''"

definition Abs :: "osys \<Rightarrow> string \<Rightarrow> string" where
  "Abs s p = (if is_rooted p then path_clean p else path_join [Getwd s, p])"

section \<open>Loops over directory entries\<close>

text \<open>A loop that stops at the first error, and the rule that lets a recursive function go through it.\<close>

fun for_each :: "('x \<Rightarrow> 's \<Rightarrow> 'e option \<times> 's) \<Rightarrow> 'x list \<Rightarrow> 's \<Rightarrow> 'e option \<times> 's" where
  "for_each f [] s = (None, s)"
| "for_each f (x # xs) s = (case f x s of (Some e, s) \<Rightarrow> (Some e, s) | (None, s) \<Rightarrow> for_each f xs s)"

lemma for_each_cong [fundef_cong]:
  "xs = ys \<Longrightarrow> s = s' \<Longrightarrow> (\<And>x s. x \<in> set ys \<Longrightarrow> f x s = g x s) \<Longrightarrow> for_each f xs s = for_each g ys s'"
  by (induction ys arbitrary: xs s s') (auto split: prod.splits option.splits)

lemma for_each_append:
  "for_each f (xs @ ys) s =
     (case for_each f xs s of (Some e, s) \<Rightarrow> (Some e, s) | (None, s) \<Rightarrow> for_each f ys s)"
  by (induction xs arbitrary: s) (auto split: prod.splits option.splits)

lemma for_each_invariant:
  assumes "\<And>x s r s'. x \<in> set xs \<Longrightarrow> I s \<Longrightarrow> f x s = (r, s') \<Longrightarrow> I s'"
  shows "for_each f xs s = (r, s') \<Longrightarrow> I s \<Longrightarrow> I s'"
  using assms
proof (induction xs arbitrary: s)
  case (Cons x xs)
  obtain r1 s1 where f: "f x s = (r1, s1)" by fastforce
  then have I1: "I s1" using Cons.prems(3)[of x s r1 s1] Cons.prems(2) by simp
  show ?case
  proof (cases r1)
    case None
    with f Cons.prems(1) have "for_each f xs s1 = (r, s')" by simp
    then show ?thesis using Cons.IH I1 Cons.prems(3) by (metis list.set_intros(2))
  qed (use f I1 Cons.prems(1) in simp)
qed simp

text \<open>How far a path is from the limit: a path joined with a name is closer.\<close>

definition path_room :: "string \<Rightarrow> nat" where
  "path_room p = (if clean_path p then 4096 - length p else 4097)"

lemma path_room_join:
  assumes "valid_name x" "length p < 4096"
  shows "path_room (path_join [p, x]) < path_room p"
  using clean_path_join[OF assms(1), of p] path_join_longer[OF assms(1), of p] assms(2)
  by (auto simp: path_room_def)

lemma ReadDir_names: "ReadDir s p = Inr es \<Longrightarrow> x \<in> set es \<Longrightarrow> valid_name (fst x) \<and> length p < 4096"
proof -
  assume r: "ReadDir s p = Inr es" and x: "x \<in> set es"
  have "\<forall>x \<in> set (node_entries n). valid_name (fst x)" for n by (cases n) auto
  with r x show ?thesis
    by (auto simp: ReadDir_def locate_def split: if_splits sum.splits option.splits)
qed

section \<open>What the operations do\<close>

lemma resolves_start: "resolves t follow l cur (e # es) p \<Longrightarrow> \<exists>m. look t cur = Some (ADir m)"
  by (erule resolves.cases) auto

lemma locate_resolves:
  assumes "locate s follow p = Inr q"
  obtains cur m where "resolves (tree s) follow 40 cur (split_char (CHR ''/'') p) q"
    "cur = (if is_rooted p then [] else cwd s)" "look (tree s) cur = Some (ADir m)" "length p < 4096"
proof -
  let ?cur = "if is_rooted p then [] else cwd s"
  have res: "resolves (tree s) follow 40 ?cur (split_char (CHR ''/'') p) q"
    using assms by (simp add: locate_def resolve_iff split: if_splits)
  obtain e es where "split_char (CHR ''/'') p = e # es"
    using split_char_nonempty[of "CHR ''/''" p] by (cases "split_char (CHR ''/'') p") auto
  then obtain m where m: "look (tree s) ?cur = Some (ADir m)" using resolves_start res by metis
  have "length p < 4096" using assms by (simp add: locate_def split: if_splits)
  from that[OF res refl m this] show thesis .
qed

lemma locate_physical:
  assumes "wf_os s" "locate s follow p = Inr q"
  shows "physical (tree s) q"
proof -
  obtain cur m where res: "resolves (tree s) follow 40 cur (split_char (CHR ''/'') p) q"
    and cur: "cur = (if is_rooted p then [] else cwd s)" "look (tree s) cur = Some (ADir m)"
    using assms(2) by (rule locate_resolves)
  have "physical (tree s) cur"
    using assms(1) cur butlast_dir[of "tree s" cur m] by (auto simp: wf_os_def physical_def)
  from resolves_physical[OF res this split_char_all] show ?thesis .
qed

lemma locate_no_link:
  assumes "locate s True p = Inr q"
  shows "look (tree s) q \<noteq> Some (ALink tg)"
proof -
  obtain cur m where res: "resolves (tree s) True 40 cur (split_char (CHR ''/'') p) q"
    and "look (tree s) cur = Some (ADir m)" using assms by (rule locate_resolves)
  then show ?thesis using resolves_no_link[OF res] by simp
qed

lemma locate_grows:
  assumes "locate s follow p = Inr q" "grows (tree s) (tree s')" "cwd s' = cwd s"
  shows "locate s' follow p = Inr q"
  using assms resolves_grows by (auto simp: locate_def resolve_iff split: if_splits)

lemma physical_parent: "physical t q \<Longrightarrow> q \<noteq> [] \<Longrightarrow> \<exists>m. look t (butlast q) = Some (ADir m)"
  by (simp add: physical_def)

lemma root_exists: "look t q = None \<Longrightarrow> q \<noteq> []"
  by auto

text \<open>Putting a new node.\<close>

lemma look_put_new:
  assumes "physical (tree s) q" "look (tree s) q = None" "\<forall>x. x \<noteq> [] \<longrightarrow> look n x = None"
  shows "look (tree (put_node q n s)) x = (if x = q then Some (shallow n) else look (tree s) x)"
proof -
  obtain m where "look (tree s) (butlast q) = Some (ADir m)"
    using physical_parent[OF assms(1) root_exists[OF assms(2)]] by blast
  then have l: "look (tree (put_node q n s)) x = (if below q x then look n (drop (length q) x) else look (tree s) x)"
    using look_set_at root_exists[OF assms(2)] by (simp add: put_node_def)
  show ?thesis
  proof (cases "below q x \<and> x \<noteq> q")
    case True
    then obtain y ys where x: "x = q @ y # ys" by (metis append_Nil2 below_iff neq_Nil_conv)
    then have "look (tree s) x = None" using assms(2) by (simp add: look_def lookup_append split: option.split)
    with l x True assms(3) show ?thesis by simp
  next
    case False
    with l show ?thesis by (auto simp: below_iff)
  qed
qed

lemma look_put_leaf:
  assumes "physical (tree s) q" "look (tree s) q = None"
  shows "look (tree (put_node q (File k c) s)) x = (if x = q then Some (AFile k c) else look (tree s) x)"
    and "look (tree (put_node q (Dir k []) s)) x = (if x = q then Some (ADir k) else look (tree s) x)"
    and "look (tree (put_node q (Link tg) s)) x = (if x = q then Some (ALink tg) else look (tree s) x)"
proof -
  have "\<forall>x. x \<noteq> [] \<longrightarrow> look (File k c) x = None \<and> look (Dir k []) x = None \<and> look (Link tg) x = None"
  proof (intro allI impI)
    fix x :: "string list" assume "x \<noteq> []"
    then show "look (File k c) x = None \<and> look (Dir k []) x = None \<and> look (Link tg) x = None"
      by (cases x) simp_all
  qed
  with look_put_new[OF assms] show
    "look (tree (put_node q (File k c) s)) x = (if x = q then Some (AFile k c) else look (tree s) x)"
    "look (tree (put_node q (Dir k []) s)) x = (if x = q then Some (ADir k) else look (tree s) x)"
    "look (tree (put_node q (Link tg) s)) x = (if x = q then Some (ALink tg) else look (tree s) x)"
    by simp_all
qed

lemma look_drop_node:
  assumes "physical (tree s) q" "q \<noteq> []"
  shows "look (tree (drop_node q s)) x = (if below q x then None else look (tree s) x)"
  using physical_parent[OF assms] look_remove_at assms(2) by (fastforce simp: drop_node_def)

text \<open>Changing a node without changing what is below it.\<close>

lemma lookup_look: "lookup t q = Some n \<Longrightarrow> look t q = Some (shallow n)"
  by (simp add: look_def)

lemma look_lookup: "look t q = Some e \<Longrightarrow> \<exists>n. lookup t q = Some n \<and> shallow n = e"
  by (auto simp: look_def)

lemma look_change_node:
  assumes "\<And>n y ys. look (f n) (y # ys) = look n (y # ys)" "\<And>n. shallow (f n) = g (shallow n)"
  shows "look (tree (change_node f q s)) x = (if x = q then map_option g (look (tree s) q) else look (tree s) x)"
proof (cases "lookup (tree s) q")
  case None
  then show ?thesis by (auto simp: change_node_def look_def)
next
  case (Some n)
  show ?thesis
  proof (cases "q = []")
    case True
    with Some have "tree s = n" by simp
    with Some True show ?thesis
      using assms by (cases x) (auto simp: change_node_def put_node_def)
  next
    case False
    with Some obtain m where "look (tree s) (butlast q) = Some (ADir m)"
      using look_snoc_Some[of "tree s" "butlast q" "last q"] by (auto simp: look_def)
    then have l: "look (tree (change_node f q s)) x
        = (if below q x then look (f n) (drop (length q) x) else look (tree s) x)"
      using look_set_at False Some by (simp add: change_node_def put_node_def)
    show ?thesis
    proof (cases "below q x \<and> x \<noteq> q")
      case True
      then obtain y ys where x: "x = q @ y # ys" by (metis append_Nil2 below_iff neq_Nil_conv)
      then have "look (tree s) x = look n (y # ys)" using Some by (simp add: look_append)
      with l x True assms(1) show ?thesis by simp
    next
      case False
      with l Some assms(2) show ?thesis by (auto simp: below_iff lookup_look)
    qed
  qed
qed

fun set_entry_content :: "(string \<Rightarrow> string) \<Rightarrow> entry \<Rightarrow> entry" where
  "set_entry_content f (AFile m c) = AFile m (f c)"
| "set_entry_content f e = e"

fun set_entry_mode :: "perm \<Rightarrow> entry \<Rightarrow> entry" where
  "set_entry_mode m (AFile m' c) = AFile m c"
| "set_entry_mode m (ADir m') = ADir m"
| "set_entry_mode m (ALink t) = ALink t"

lemma content_node_look:
  "look (content_node f n) (y # ys) = look n (y # ys)"
  "shallow (content_node f n) = set_entry_content f (shallow n)"
  by (cases n; simp)+

lemma chmod_node_look:
  "look (chmod_node m n) (y # ys) = look n (y # ys)"
  "shallow (chmod_node m n) = set_entry_mode m (shallow n)"
  by (cases n; simp)+

lemma look_set_content [simp]:
  "look (tree (set_content q c s)) x
   = (if x = q then map_option (set_entry_content (\<lambda>_. c)) (look (tree s) q) else look (tree s) x)"
  unfolding set_content_def by (rule look_change_node) (rule content_node_look)+

lemma look_add_content [simp]:
  "look (tree (add_content q c s)) x
   = (if x = q then map_option (set_entry_content (\<lambda>a. a @ c)) (look (tree s) q) else look (tree s) x)"
  unfolding add_content_def by (rule look_change_node) (rule content_node_look)+

lemma look_chmod_node:
  "look (tree (change_node (chmod_node m) q s)) x
   = (if x = q then map_option (set_entry_mode m) (look (tree s) q) else look (tree s) x)"
  by (rule look_change_node) (rule chmod_node_look)+

lemma change_node_frame [simp]:
  "cwd (change_node f q s) = cwd s" "umask (change_node f q s) = umask s"
  "cwd (set_content q c s) = cwd s" "umask (set_content q c s) = umask s"
  "cwd (add_content q c s) = cwd s" "umask (add_content q c s) = umask s"
  "cwd (put_node q n s) = cwd s" "umask (put_node q n s) = umask s"
  "cwd (drop_node q s) = cwd s" "umask (drop_node q s) = umask s"
  by (simp_all add: change_node_def set_content_def add_content_def put_node_def drop_node_def split: option.split)

section \<open>Well-formedness is kept\<close>

lemma shallow_Dir: "shallow n = ADir m \<Longrightarrow> \<exists>es. n = Dir m es"
  by (cases n) auto

lemma wf_put_node:
  assumes "wf_os s" "list_all valid_name q" "q \<noteq> []" "wf_node n"
  shows "wf_os (put_node q n s)"
  using assms by (cases q) (auto simp: wf_os_def put_node_def wf_set_at)

lemma wf_drop_node:
  assumes "wf_os s" "list_all valid_name q" "q \<noteq> []"
  shows "wf_os (drop_node q s)"
  using assms by (cases q) (auto simp: wf_os_def drop_node_def wf_set_at)

lemma wf_change_node:
  assumes "wf_os s" "list_all valid_name q" "\<And>n. wf_node n \<Longrightarrow> wf_node (f n)"
    "\<And>n. is_dir (shallow n) \<Longrightarrow> is_dir (shallow (f n))"
  shows "wf_os (change_node f q s)"
proof (cases "lookup (tree s) q")
  case (Some n)
  then have "wf_node (f n)" using assms wf_lookup by (auto simp: wf_os_def)
  show ?thesis
  proof (cases "q = []")
    case True
    with Some have "tree s = n" by simp
    moreover from this assms(1) obtain m where "shallow n = ADir m" by (auto simp: wf_os_def)
    moreover from this obtain m' where "shallow (f n) = ADir m'"
      using assms(4)[of n] by (auto simp: is_dir_iff)
    ultimately show ?thesis
      using assms(1) True \<open>wf_node (f n)\<close> by (auto simp: wf_os_def change_node_def put_node_def)
  next
    case False
    then show ?thesis using assms wf_put_node Some \<open>wf_node (f n)\<close> by (simp add: change_node_def)
  qed
qed (use assms in \<open>simp add: change_node_def\<close>)

lemma wf_content_node [simp]: "wf_node (content_node f n) = wf_node n"
  by (cases n) simp_all

lemma wf_chmod_node [simp]: "wf_node (chmod_node m n) = wf_node n"
  by (cases n) simp_all

lemma is_dir_content_node [simp]: "is_dir (shallow (content_node f n)) = is_dir (shallow n)"
  by (cases n) simp_all

lemma is_dir_chmod_node [simp]: "is_dir (shallow (chmod_node f n)) = is_dir (shallow n)"
  by (cases n) simp_all

lemma wf_set_content [go_inv]: "wf_os s \<Longrightarrow> list_all valid_name q \<Longrightarrow> wf_os (set_content q c s)"
  unfolding set_content_def by (rule wf_change_node) simp_all

lemma wf_add_content [go_inv]: "wf_os s \<Longrightarrow> list_all valid_name q \<Longrightarrow> wf_os (add_content q c s)"
  unfolding add_content_def by (rule wf_change_node) simp_all

lemma physical_names: "physical t q \<Longrightarrow> list_all valid_name q"
  by (simp add: physical_def)

lemmas locate_names = physical_names[OF locate_physical]

lemma wf_OpenFile [go_inv]:
  assumes "OpenFile s p create trunc m = (r, s')" "wf_os s"
  shows "wf_os s' \<and> (\<forall>q. r = Inr q \<longrightarrow> list_all valid_name q)"
proof (cases "locate s True p")
  case (Inr q)
  then have q: "list_all valid_name q" using assms(2) locate_names by blast
  show ?thesis
  proof (cases "look (tree s) q")
    case None
    then have "q \<noteq> []" by auto
    then have "wf_os (put_node q (File k []) s)" for k using wf_put_node assms(2) q by simp
    with assms None Inr q show ?thesis by (auto simp: OpenFile_def split: if_splits)
  next
    case (Some e)
    with assms Inr q show ?thesis by (cases e) (auto simp: OpenFile_def wf_set_content split: if_splits)
  qed
qed (use assms in \<open>auto simp: OpenFile_def split: if_splits\<close>)

lemma wf_Create [go_inv]:
  "Create s p = (r, s') \<Longrightarrow> wf_os s \<Longrightarrow> wf_os s' \<and> (\<forall>q. r = Inr q \<longrightarrow> list_all valid_name q)"
  unfolding Create_def by (rule wf_OpenFile)

lemma wf_Chmod [go_inv]:
  assumes "Chmod s p m = (r, s')" "wf_os s"
  shows "wf_os s'"
proof (cases "locate s True p")
  case (Inr q)
  have "wf_os (change_node (chmod_node m) q s)"
    using assms(2) locate_names[OF assms(2) Inr] by (intro wf_change_node) simp_all
  with assms Inr show ?thesis by (auto simp: Chmod_def split: option.splits)
qed (use assms in \<open>auto simp: Chmod_def\<close>)

lemma wf_Mkdir [go_inv]:
  assumes "Mkdir s p m = (r, s')" "wf_os s"
  shows "wf_os s'"
proof -
  let ?p = "if trim_slashes p = [] \<and> p \<noteq> [] then ''/'' else trim_slashes p"
  show ?thesis
  proof (cases "locate s False ?p")
    case (Inr q)
    have "wf_os (put_node q (Dir k []) s)" if "look (tree s) q = None" for k
      using assms(2) locate_names[OF assms(2) Inr] root_exists[OF that] by (intro wf_put_node) simp_all
    with assms Inr show ?thesis by (auto simp: Mkdir_def split: option.splits)
  qed (use assms in \<open>auto simp: Mkdir_def\<close>)
qed

lemma wf_MkdirAll [go_inv]: "MkdirAll s p m = (r, s') \<Longrightarrow> wf_os s \<Longrightarrow> wf_os s'"
proof (induction s p m arbitrary: r s' rule: MkdirAll.induct)
  case (1 s p m)
  show ?case
  proof (cases "Stat s p")
    case (Inl e)
    obtain r1 s1 where first: "(if parent_part p \<noteq> [] then MkdirAll s (parent_part p) m else (None, s)) = (r1, s1)"
      by fastforce
    then have w1: "wf_os s1" using "1.IH"[OF Inl] "1.prems"(2) by (auto split: if_splits)
    obtain r2 s2 where mk: "Mkdir s1 p m = (r2, s2)" by fastforce
    then have w2: "wf_os s2" using wf_Mkdir w1 by blast
    show ?thesis
      using "1.prems"(1) first mk w1 w2 Inl
      by (auto simp: MkdirAll.simps[of s p m] split: option.splits sum.splits)
  next
    case (Inr x)
    with "1.prems" show ?thesis by (auto simp: MkdirAll.simps[of s p m])
  qed
qed

lemma wf_WriteFile [go_inv]: "WriteFile s p c m = (r, s') \<Longrightarrow> wf_os s \<Longrightarrow> wf_os s'"
  using wf_OpenFile[of s p True True m]
  by (cases "OpenFile s p True True m") (auto simp: WriteFile_def wf_set_content split: sum.splits)

lemma wf_Symlink [go_inv]:
  assumes "Symlink s target p = (r, s')" "wf_os s"
  shows "wf_os s'"
proof (cases "locate s False p")
  case (Inr q)
  have "wf_os (put_node q (Link target) s)" if "look (tree s) q = None" "target \<noteq> []"
    using assms(2) locate_names[OF assms(2) Inr] root_exists[OF that(1)] that(2) by (intro wf_put_node) simp_all
  with assms Inr show ?thesis by (auto simp: Symlink_def split: option.splits if_splits)
qed (use assms in \<open>auto simp: Symlink_def split: if_splits\<close>)

lemma wf_rename_at [go_inv]:
  assumes "rename_at s q1 q2 = (r, s')" "wf_os s" "list_all valid_name q1" "list_all valid_name q2"
  shows "wf_os s'"
proof (cases "lookup (tree s) q1")
  case (Some n)
  have "wf_os (put_node q2 n (drop_node q1 s))" if "q1 \<noteq> []" "q2 \<noteq> []"
    using assms wf_drop_node[OF assms(2,3)] that wf_lookup[of "tree s" q1 n] Some
    by (intro wf_put_node) (simp_all add: wf_os_def)
  with assms Some show ?thesis by (auto simp: rename_at_def split: option.splits if_splits)
qed (use assms in \<open>auto simp: rename_at_def\<close>)

lemma Rename_cases:
  assumes "Rename s a b = (r, s')"
  obtains "s' = s" "r \<noteq> None"
  | q1 q2 where "locate s False a = Inr q1" "locate s False b = Inr q2" "rename_at s q1 q2 = (r, s')"
  using assms
  by (auto simp: Rename_def split: sum.splits if_splits option.splits entry.splits)

lemma wf_Rename [go_inv]: "Rename s a b = (r, s') \<Longrightarrow> wf_os s \<Longrightarrow> wf_os s'"
  by (erule Rename_cases) (blast intro: wf_rename_at locate_names)+

lemma wf_Remove [go_inv]:
  assumes "Remove s p = (r, s')" "wf_os s"
  shows "wf_os s'"
proof (cases "locate s False p")
  case (Inr q)
  have "wf_os (drop_node q s)" if "q \<noteq> []"
    using wf_drop_node[OF assms(2) locate_names[OF assms(2) Inr] that] .
  with assms Inr show ?thesis by (auto simp: Remove_def split: option.splits if_splits node.splits)
qed (use assms in \<open>auto simp: Remove_def\<close>)

lemma wf_RemoveAll [go_inv]:
  assumes "RemoveAll s p = (r, s')" "wf_os s"
  shows "wf_os s'"
proof (cases "locate s False p")
  case (Inr q)
  have "wf_os (drop_node q s)" if "q \<noteq> []"
    using wf_drop_node[OF assms(2) locate_names[OF assms(2) Inr] that] .
  with assms Inr show ?thesis by (auto simp: RemoveAll_def split: option.splits if_splits)
qed (use assms in \<open>auto simp: RemoveAll_def split: if_splits\<close>)

section \<open>What changes and what stays\<close>

definition same_process :: "osys \<Rightarrow> osys \<Rightarrow> bool" where
  "same_process s s' \<longleftrightarrow> cwd s' = cwd s \<and> umask s' = umask s"

lemma same_process_refl [simp]: "same_process s s"
  by (simp add: same_process_def)

lemma same_process_trans: "same_process a b \<Longrightarrow> same_process b c \<Longrightarrow> same_process a c"
  by (simp add: same_process_def)

lemma same_process_ops [simp]:
  "same_process s (set_content q c s)" "same_process s (add_content q c s)"
  "same_process s (put_node q n s)" "same_process s (drop_node q s)" "same_process s (change_node f q s)"
  by (simp_all add: same_process_def)

text \<open>All that is new is directories.\<close>

definition adds_dirs :: "node \<Rightarrow> node \<Rightarrow> bool" where
  "adds_dirs t t' \<longleftrightarrow> (\<forall>x. look t' x = look t x \<or> (look t x = None \<and> (\<exists>m. look t' x = Some (ADir m))))"

lemma adds_dirs_refl [simp]: "adds_dirs t t"
  by (simp add: adds_dirs_def)

lemma adds_dirs_trans: "adds_dirs a b \<Longrightarrow> adds_dirs b c \<Longrightarrow> adds_dirs a c"
  unfolding adds_dirs_def by (metis option.distinct(1))

lemma adds_dirs_Some: "adds_dirs t t' \<Longrightarrow> look t x = Some e \<Longrightarrow> look t' x = Some e"
  unfolding adds_dirs_def by (metis option.distinct(1))

lemma adds_dirs_file: "adds_dirs t t' \<Longrightarrow> look t' x = Some (AFile m c) \<longleftrightarrow> look t x = Some (AFile m c)"
  unfolding adds_dirs_def by (metis entry.distinct(1) option.inject option.distinct(1))

lemma grows_at:
  assumes "\<And>x. x \<noteq> q \<Longrightarrow> look t' x = look t x" "look t' q = Some e'" "\<not> is_link e'"
    "look t q = None \<or> (\<exists>e. look t q = Some e \<and> same_kind e e')"
  shows "grows t t'"
  unfolding grows_def
proof
  fix p
  show "case look t p of None \<Rightarrow> \<forall>tg. look t' p \<noteq> Some (ALink tg)
    | Some e \<Rightarrow> \<exists>e'. look t' p = Some e' \<and> same_kind e e'"
    by (cases "p = q"; cases "look t p") (use assms in \<open>auto split: option.splits\<close>)
qed

lemma adds_dirs_grows: "adds_dirs t t' \<Longrightarrow> grows t t'"
  unfolding grows_def
proof
  fix p assume a: "adds_dirs t t'"
  show "case look t p of None \<Rightarrow> \<forall>tg. look t' p \<noteq> Some (ALink tg)
    | Some e \<Rightarrow> \<exists>e'. look t' p = Some e' \<and> same_kind e e'"
    using a[unfolded adds_dirs_def, rule_format, of p] by (cases "look t p") auto
qed

lemma OpenFile_Inl: "OpenFile s p create trunc m = (Inl e, s') \<Longrightarrow> s' = s"
  by (auto simp: OpenFile_def split: if_splits sum.splits option.splits entry.splits)

lemma OpenFile_Inr:
  assumes "OpenFile s p create trunc m = (Inr q, s')" "wf_os s"
  shows "locate s True p = Inr q" "same_process s s'"
    "\<And>x. x \<noteq> q \<Longrightarrow> look (tree s') x = look (tree s) x"
    "(look (tree s) q = None \<and> create \<and> look (tree s') q = Some (AFile (and m (not (umask s))) [])) \<or>
     (\<exists>m0 c. look (tree s) q = Some (AFile m0 c) \<and> look (tree s') q = Some (AFile m0 (if trunc then [] else c)))"
    "grows (tree s) (tree s')"
proof -
  have *: "locate s True p = Inr q \<and> same_process s s' \<and> (\<forall>x. x \<noteq> q \<longrightarrow> look (tree s') x = look (tree s) x) \<and>
    ((look (tree s) q = None \<and> create \<and> look (tree s') q = Some (AFile (and m (not (umask s))) [])) \<or>
     (\<exists>m0 c. look (tree s) q = Some (AFile m0 c) \<and> look (tree s') q = Some (AFile m0 (if trunc then [] else c))))"
  proof (cases "locate s True p")
    case (Inr q')
    then have ph: "physical (tree s) q'" using assms(2) locate_physical by blast
    show ?thesis
    proof (cases "look (tree s) q'")
      case None
      with assms Inr look_put_leaf(1)[OF ph None] show ?thesis by (auto simp: OpenFile_def split: if_splits)
    next
      case (Some e)
      with assms Inr show ?thesis by (cases e) (auto simp: OpenFile_def split: if_splits)
    qed
  qed (use assms in \<open>auto simp: OpenFile_def split: if_splits\<close>)
  then show "locate s True p = Inr q" "same_process s s'"
    "\<And>x. x \<noteq> q \<Longrightarrow> look (tree s') x = look (tree s) x"
    "(look (tree s) q = None \<and> create \<and> look (tree s') q = Some (AFile (and m (not (umask s))) [])) \<or>
     (\<exists>m0 c. look (tree s) q = Some (AFile m0 c) \<and> look (tree s') q = Some (AFile m0 (if trunc then [] else c)))"
    by blast+
  then show "grows (tree s) (tree s')"
    by (elim disjE conjE exE) (rule grows_at [of q], auto)+
qed

lemma Mkdir_adds:
  assumes "Mkdir s p m = (r, s')" "wf_os s"
  shows "adds_dirs (tree s) (tree s')" "same_process s s'"
proof -
  let ?p = "if trim_slashes p = [] \<and> p \<noteq> [] then ''/'' else trim_slashes p"
  have "adds_dirs (tree s) (tree s') \<and> same_process s s'"
  proof (cases "locate s False ?p")
    case (Inr q)
    then have ph: "physical (tree s) q" using assms(2) locate_physical by blast
    show ?thesis
    proof (cases "look (tree s) q")
      case None
      with assms Inr look_put_leaf(2)[OF ph None] show ?thesis by (auto simp: Mkdir_def adds_dirs_def split: if_splits)
    next
      case (Some e)
      with assms Inr show ?thesis by (auto simp: Mkdir_def)
    qed
  qed (use assms in \<open>auto simp: Mkdir_def\<close>)
  then show "adds_dirs (tree s) (tree s')" "same_process s s'" by blast+
qed

lemma MkdirAll_adds:
  "MkdirAll s p m = (r, s') \<Longrightarrow> wf_os s \<Longrightarrow> adds_dirs (tree s) (tree s') \<and> same_process s s'"
proof (induction s p m arbitrary: r s' rule: MkdirAll.induct)
  case (1 s p m)
  show ?case
  proof (cases "Stat s p")
    case (Inl e)
    obtain r1 s1 where first: "(if parent_part p \<noteq> [] then MkdirAll s (parent_part p) m else (None, s)) = (r1, s1)"
      by fastforce
    then have a1: "adds_dirs (tree s) (tree s1) \<and> same_process s s1" and w1: "wf_os s1"
      using "1.IH"[OF Inl] "1.prems"(2) wf_MkdirAll by (auto split: if_splits)
    obtain r2 s2 where mk: "Mkdir s1 p m = (r2, s2)" by fastforce
    have a2: "adds_dirs (tree s) (tree s2) \<and> same_process s s2"
      using Mkdir_adds[OF mk w1] a1 adds_dirs_trans same_process_trans by blast
    show ?thesis
      using "1.prems"(1) first mk a1 a2 Inl
      by (auto simp: MkdirAll.simps[of s p m] split: option.splits sum.splits)
  next
    case (Inr x)
    with "1.prems" show ?thesis by (auto simp: MkdirAll.simps[of s p m])
  qed
qed

end
