(* ===== verification/GoFSPlain.thy ===== *)
theory GoFSPlain
  imports GoFS
begin

text \<open>
  File systems without symbolic links: there an absolute path names the physical path of its elements,
  so that the effect of an operation can be read off the path. The predicate \<open>confined D\<close> describes
  what an operation may change that works below the path \<open>D\<close>: what lies below \<open>D\<close>, and missing
  directories on the way to \<open>D\<close>.
\<close>

section \<open>Paths without links\<close>

definition link_free :: "node \<Rightarrow> bool" where
  "link_free t \<longleftrightarrow> (\<forall>x tg. look t x \<noteq> Some (ALink tg))"

definition abs_elems :: "string \<Rightarrow> string list" where
  "abs_elems p = path_elems True p"

lemma abs_elems_clean: "is_rooted p \<Longrightarrow> abs_elems (path_clean p) = abs_elems p"
  by (simp add: abs_elems_def)

lemma push_valid_parent: "list_all valid_name cur \<Longrightarrow> push_elem True ''..'' (rev cur) = rev (butlast cur)"
  by (cases cur rule: rev_cases) (auto simp: push_elem_def valid_name_def)

lemma valid_butlast: "list_all valid_name cur \<Longrightarrow> list_all valid_name (butlast cur)"
  by (auto simp: list_all_iff dest: in_set_butlastD)

lemma resolves_plain:
  "resolves t follow l cur es p \<Longrightarrow> link_free t \<Longrightarrow> list_all valid_name cur
   \<Longrightarrow> list_all (\<lambda>e. CHR ''/'' \<notin> set e) es \<Longrightarrow> p = rev (fold (push_elem True) es (rev cur))"
proof (induction rule: resolves.induct)
  case (res_dot cur m e l es p)
  then show ?case by (auto simp: push_elem_def)
next
  case (res_parent cur m l es p)
  then show ?case by (simp add: push_valid_parent valid_butlast)
next
  case (res_missing cur m e l)
  then show ?case by (auto simp: plain_valid)
next
  case (res_node cur m e x l es p)
  then have "valid_name e" using plain_valid by simp
  with res_node show ?case by simp
qed (auto simp: link_free_def)

lemma plain_locate:
  assumes "link_free (tree s)" "is_rooted p" "locate s follow p = Inr q"
  shows "q = abs_elems p"
proof -
  obtain cur where "resolves (tree s) follow 40 cur (split_char (CHR ''/'') p) q" "cur = []"
    using assms(2,3) by (metis locate_resolves)
  from resolves_plain[OF this(1) assms(1) _ split_char_all] this(2) show ?thesis
    by (simp add: abs_elems_def path_elems_def)
qed

lemma abs_elems_join [simp]: "valid_name x \<Longrightarrow> p \<noteq> [] \<Longrightarrow> is_rooted p \<Longrightarrow> abs_elems (path_join [p, x]) = abs_elems p @ [x]"
proof -
  assume a: "valid_name x" "p \<noteq> []" "is_rooted p"
  have "kept_ok True (rev (path_elems True p @ [x]))"
    using path_elems_kept_ok[of True p] a(1) by (simp add: valid_name_def)
  then have "path_elems True (join (path_elems True p @ [x]) ''/'') = path_elems True p @ [x]"
    by (rule path_elems_join_kept)
  with a show ?thesis by (simp add: abs_elems_def path_join_name)
qed

lemma rooted_join [simp]: "valid_name x \<Longrightarrow> is_rooted p \<Longrightarrow> is_rooted (path_join [p, x])"
  by (cases p) (simp_all add: path_join_name is_rooted_def)

lemma rooted_nonempty: "is_rooted p \<Longrightarrow> p \<noteq> []"
  by (simp add: is_rooted_def)

lemma fold_push_empties: "fold (push_elem r) (replicate n []) kept = kept"
  by (induction n) (simp_all add: push_elem_def)

lemma path_elems_snoc_slash: "path_elems r (p @ ''/'') = path_elems r p"
  by (simp add: path_elems_def split_char_sep push_elem_def)

lemma path_elems_trim: "path_elems r (trim_slashes p) = path_elems r p"
proof (induction p rule: rev_induct)
  case (snoc c p)
  show ?case
  proof (cases "c = CHR ''/''")
    case True
    then have "trim_slashes (p @ [c]) = trim_slashes p" by (simp add: trim_slashes_def)
    then show ?thesis using snoc True path_elems_snoc_slash[of r p] by simp
  qed (simp add: trim_slashes_def)
qed (simp add: trim_slashes_def)

lemma trim_rooted: "is_rooted p \<Longrightarrow> trim_slashes p \<noteq> [] \<Longrightarrow> is_rooted (trim_slashes p)"
proof -
  assume a: "is_rooted p" "trim_slashes p \<noteq> []"
  have "\<exists>t. p = trim_slashes p @ t"
    unfolding trim_slashes_def by (metis rev_append rev_rev_ident takeWhile_dropWhile_id)
  then obtain t where "p = trim_slashes p @ t" by blast
  then have "hd p = hd (trim_slashes p)" using a(2) by (metis hd_append2)
  with a show ?thesis by (simp add: is_rooted_def)
qed

lemma abs_elems_trim:
  assumes "is_rooted p"
  shows "abs_elems (if trim_slashes p = [] \<and> p \<noteq> [] then ''/'' else trim_slashes p) = abs_elems p"
    "is_rooted (if trim_slashes p = [] \<and> p \<noteq> [] then ''/'' else trim_slashes p)"
proof -
  show "abs_elems (if trim_slashes p = [] \<and> p \<noteq> [] then ''/'' else trim_slashes p) = abs_elems p"
    using path_elems_trim[of True p] by (auto simp: abs_elems_def path_elems_def push_elem_def)
  show "is_rooted (if trim_slashes p = [] \<and> p \<noteq> [] then ''/'' else trim_slashes p)"
    using trim_rooted assms by (auto simp: is_rooted_def)
qed

section \<open>Link-freedom is kept\<close>

lemma link_free_adds_dirs: "adds_dirs t t' \<Longrightarrow> link_free t \<Longrightarrow> link_free t'"
  unfolding adds_dirs_def link_free_def by (metis entry.distinct(5) option.inject)

lemma link_free_MkdirAll: "MkdirAll s p m = (r, s') \<Longrightarrow> wf_os s \<Longrightarrow> link_free (tree s) \<Longrightarrow> link_free (tree s')"
  using MkdirAll_adds link_free_adds_dirs by blast

lemma link_free_OpenFile:
  assumes "OpenFile s p create trunc m = (r, s')" "wf_os s" "link_free (tree s)"
  shows "link_free (tree s')"
proof (cases r)
  case (Inl e)
  with assms OpenFile_Inl show ?thesis by blast
next
  case (Inr q)
  have "look (tree s') x \<noteq> Some (ALink tg)" for x tg
    using OpenFile_Inr(3,4)[OF assms(1)[unfolded Inr] assms(2)] assms(3)
    by (cases "x = q") (auto simp: link_free_def)
  then show ?thesis by (simp add: link_free_def)
qed

lemma link_free_set_content: "link_free (tree s) \<Longrightarrow> link_free (tree (set_content q c s))"
proof -
  assume a: "link_free (tree s)"
  have "look (tree (set_content q c s)) x \<noteq> Some (ALink tg)" for x tg
  proof (cases "look (tree s) x")
    case (Some e)
    with a show ?thesis by (cases e) (auto simp: link_free_def)
  qed (use a in \<open>auto simp: link_free_def\<close>)
  then show ?thesis by (simp add: link_free_def)
qed

lemma link_free_chmod_node: "link_free (tree s) \<Longrightarrow> link_free (tree (change_node (chmod_node m) q s))"
proof -
  assume a: "link_free (tree s)"
  have "look (tree (change_node (chmod_node m) q s)) x \<noteq> Some (ALink tg)" for x tg
  proof (cases "look (tree s) x")
    case (Some e)
    with a show ?thesis by (cases e) (auto simp: link_free_def look_chmod_node)
  qed (use a in \<open>auto simp: link_free_def look_chmod_node\<close>)
  then show ?thesis by (simp add: link_free_def)
qed

section \<open>A directory that has been made\<close>

lemma Stat_dir:
  assumes "link_free (tree s)" "is_rooted p" "stat_at s f p = Inr (ADir m)"
  shows "look (tree s) (abs_elems p) = Some (ADir m)"
  using assms plain_locate[OF assms(1,2)]
  by (auto simp: stat_at_def split: sum.splits option.splits)

lemma MkdirAll_dir:
  assumes "MkdirAll s p m = (None, s')" "wf_os s" "link_free (tree s)" "is_rooted p"
  shows "\<exists>m. look (tree s') (abs_elems p) = Some (ADir m)"
proof (cases "Stat s p")
  case (Inr x)
  with assms Stat_dir[OF assms(3,4), of True] show ?thesis
    by (cases x) (auto simp: MkdirAll.simps[of s p m] Stat_def)
next
  case (Inl e)
  obtain r1 s1 where first: "(if parent_part p \<noteq> [] then MkdirAll s (parent_part p) m else (None, s)) = (r1, s1)"
    by fastforce
  then have w1: "wf_os s1" and l1: "link_free (tree s1)"
    using assms(2,3) wf_MkdirAll link_free_MkdirAll by (auto split: if_splits)
  obtain r2 s2 where mk: "Mkdir s1 p m = (r2, s2)" by fastforce
  have r1: "r1 = None" using assms(1) Inl first by (auto simp: MkdirAll.simps[of s p m] split: option.splits)
  have run: "(case (r2, s2) of (None, s) \<Rightarrow> (None, s)
      | (Some e, s) \<Rightarrow> (case Lstat s p of Inr x \<Rightarrow> (if is_dir x then None else Some e, s) | Inl _ \<Rightarrow> (Some e, s)))
    = (None, s')"
    using assms(1) Inl first mk r1 by (simp add: MkdirAll.simps[of s p m])
  have l2: "link_free (tree s2)" using Mkdir_adds[OF mk w1] link_free_adds_dirs l1 by blast
  show ?thesis
  proof (cases r2)
    case None
    let ?p = "if trim_slashes p = [] \<and> p \<noteq> [] then ''/'' else trim_slashes p"
    obtain q where q: "locate s1 False ?p = Inr q" "look (tree s1) q = None"
      "s2 = put_node q (Dir (and m (not (umask s1))) []) s1"
      using mk None by (auto simp: Mkdir_def split: sum.splits option.splits)
    have "q = abs_elems p" using plain_locate[OF l1 abs_elems_trim(2)[OF assms(4)] q(1)] abs_elems_trim(1)[OF assms(4)] by simp
    moreover have "s' = s2" using run None by simp
    ultimately show ?thesis using look_put_leaf(2)[OF locate_physical[OF w1 q(1)] q(2)] q(3) by simp
  next
    case (Some e)
    then obtain x where "Lstat s2 p = Inr x" "is_dir x" "s' = s2" using run by (auto split: sum.splits if_splits)
    then show ?thesis using Stat_dir[OF l2 assms(4), of False] by (auto simp: Lstat_def is_dir_iff)
  qed
qed

section \<open>Paths without parent elements\<close>

definition straight :: "string \<Rightarrow> bool" where
  "straight p \<longleftrightarrow> is_rooted p \<and> ''..'' \<notin> set (split_char (CHR ''/'') p)"

lemma fold_push_straight:
  "''..'' \<notin> set es \<Longrightarrow> fold (push_elem r) es kept = rev (filter (\<lambda>e. e \<noteq> [] \<and> e \<noteq> ''.'') es) @ kept"
  by (induction es arbitrary: kept) (auto simp: push_elem_def)

lemma abs_elems_straight:
  "straight p \<Longrightarrow> abs_elems p = filter (\<lambda>e. e \<noteq> [] \<and> e \<noteq> ''.'') (split_char (CHR ''/'') p)"
  by (simp add: straight_def abs_elems_def path_elems_def fold_push_straight)

lemma rev_split: "rev p = u @ v \<Longrightarrow> p = rev v @ rev u"
  by (metis rev_append rev_rev_ident)

lemma parent_part_split: "\<exists>t. p = parent_part p @ t \<and> (parent_part p = [] \<or> last (parent_part p) = CHR ''/'')"
proof -
  define d where "d = dropWhile (\<lambda>c. c = CHR ''/'') (rev p)"
  define v where "v = dropWhile (\<lambda>c. c \<noteq> CHR ''/'') d"
  have pp: "parent_part p = rev v" by (simp add: parent_part_def v_def d_def)
  have d: "rev p = takeWhile (\<lambda>c. c = CHR ''/'') (rev p) @ d" by (simp add: d_def)
  have v: "d = takeWhile (\<lambda>c. c \<noteq> CHR ''/'') d @ v" by (simp add: v_def)
  from d v have "\<exists>u. rev p = u @ v" by (metis append_assoc)
  then obtain u where "p = rev v @ rev u" using rev_split by blast
  moreover have "v = [] \<or> hd v = CHR ''/''"
    using hd_dropWhile[of "\<lambda>c. c \<noteq> CHR ''/''" d] by (auto simp: v_def)
  ultimately show ?thesis unfolding pp by (auto simp: last_rev)
qed

lemma straight_prefix:
  assumes "straight (u @ CHR ''/'' # t)"
  shows "straight (u @ ''/'') \<and> below (abs_elems (u @ ''/'')) (abs_elems (u @ CHR ''/'' # t))"
proof -
  have sp: "split_char (CHR ''/'') (u @ ''/'') = split_char (CHR ''/'') u @ [[]]"
    by (simp add: split_char_sep)
  have s: "split_char (CHR ''/'') (u @ CHR ''/'' # t) = split_char (CHR ''/'') u @ split_char (CHR ''/'') t"
    by (simp add: split_char_sep)
  have "is_rooted (u @ ''/'')" using assms by (cases u) (simp_all add: straight_def is_rooted_def)
  then have st: "straight (u @ ''/'')" using assms unfolding straight_def sp s by auto
  then show ?thesis
    unfolding abs_elems_straight[OF st] abs_elems_straight[OF assms] sp s by (simp add: below_iff)
qed

lemma straight_parent:
  assumes "straight p" "parent_part p \<noteq> []"
  shows "straight (parent_part p) \<and> below (abs_elems (parent_part p)) (abs_elems p)"
proof -
  obtain t where t: "p = parent_part p @ t" "last (parent_part p) = CHR ''/''"
    using parent_part_split assms(2) by blast
  have pp: "parent_part p = butlast (parent_part p) @ ''/''"
    using append_butlast_last_id[OF assms(2)] t(2) by simp
  have "p = butlast (parent_part p) @ CHR ''/'' # t"
    by (subst t(1), subst pp) simp
  with straight_prefix[of "butlast (parent_part p)" t] assms(1) pp show ?thesis by metis
qed

lemma straight_join:
  assumes "valid_name x" "is_rooted p"
  shows "straight (path_join [p, x])"
proof -
  let ?es = "path_elems True p @ [x]"
  have j: "path_join [p, x] = CHR ''/'' # join ?es ''/''"
    using assms rooted_nonempty by (simp add: path_join_name)
  have ok: "kept_ok True (rev ?es)" using path_elems_kept_ok[of True p] assms(1) by (simp add: valid_name_def)
  have "kept_ok True ks \<Longrightarrow> e \<in> set ks \<Longrightarrow> e \<noteq> ''..'' \<and> CHR ''/'' \<notin> set e" for ks e
    by (induction ks) auto
  from this[OF ok] have "\<forall>e \<in> set ?es. e \<noteq> ''..'' \<and> CHR ''/'' \<notin> set e" by (metis set_rev)
  moreover from this have "split_char (CHR ''/'') (join ?es ''/'') = ?es" by (intro split_char_join) auto
  ultimately show ?thesis unfolding j straight_def by (auto simp: is_rooted_def)
qed

lemma straight_rooted: "straight p \<Longrightarrow> is_rooted p"
  by (simp add: straight_def)

section \<open>Confinement\<close>

definition confined :: "string list \<Rightarrow> node \<Rightarrow> node \<Rightarrow> bool" where
  "confined D t t' \<longleftrightarrow> (\<forall>x. look t' x = look t x \<or> below D x
     \<or> (below x D \<and> look t x = None \<and> (\<exists>m. look t' x = Some (ADir m))))"

lemma confined_refl [simp]: "confined D t t"
  by (simp add: confined_def)

lemma confined_trans: "confined D a b \<Longrightarrow> confined D b c \<Longrightarrow> confined D a c"
  unfolding confined_def by (metis option.distinct(1))

lemma below_refl [simp]: "below p p"
  by (simp add: below_def)

lemma below_trans: "below p q \<Longrightarrow> below q r \<Longrightarrow> below p r"
  by (auto simp: below_iff)

lemma below_total: "below p r \<Longrightarrow> below q r \<Longrightarrow> below p q \<or> below q p"
  unfolding below_iff by (metis append_eq_append_conv2)

lemma confined_below: "confined E t t' \<Longrightarrow> below D E \<Longrightarrow> confined D t t'"
  unfolding confined_def by (metis below_total below_trans)

lemma confined_at: "(\<And>x. x \<noteq> q \<Longrightarrow> look t' x = look t x) \<Longrightarrow> below D q \<Longrightarrow> confined D t t'"
  unfolding confined_def by metis

text \<open>Only missing directories on the way to \<open>D\<close> are made.\<close>

definition dirs_upto :: "string list \<Rightarrow> node \<Rightarrow> node \<Rightarrow> bool" where
  "dirs_upto D t t' \<longleftrightarrow>
     (\<forall>x. look t' x = look t x \<or> (below x D \<and> look t x = None \<and> (\<exists>m. look t' x = Some (ADir m))))"

lemma dirs_upto_refl [simp]: "dirs_upto D t t"
  by (simp add: dirs_upto_def)

lemma dirs_upto_trans: "dirs_upto D a b \<Longrightarrow> dirs_upto D b c \<Longrightarrow> dirs_upto D a c"
  unfolding dirs_upto_def by (metis option.distinct(1))

lemma dirs_upto_below: "dirs_upto D t t' \<Longrightarrow> below D E \<Longrightarrow> dirs_upto E t t'"
  unfolding dirs_upto_def by (metis below_trans)

lemma dirs_upto_confined: "dirs_upto D t t' \<Longrightarrow> confined D t t'"
  unfolding dirs_upto_def confined_def by blast

lemma Mkdir_upto:
  assumes "Mkdir s p m = (r, s')" "wf_os s" "link_free (tree s)" "is_rooted p"
  shows "dirs_upto (abs_elems p) (tree s) (tree s')"
proof -
  let ?p = "if trim_slashes p = [] \<and> p \<noteq> [] then ''/'' else trim_slashes p"
  show ?thesis
  proof (cases "locate s False ?p")
    case (Inr q)
    have "q = abs_elems p" using plain_locate[OF assms(3) abs_elems_trim(2)[OF assms(4)] Inr] abs_elems_trim(1)[OF assms(4)] by simp
    moreover have "look (tree s') x = look (tree s) x \<or> (x = q \<and> look (tree s) x = None \<and> (\<exists>m. look (tree s') x = Some (ADir m)))" for x
      using assms(1) Inr look_put_leaf(2)[OF locate_physical[OF assms(2) Inr]]
      by (cases "look (tree s) q") (auto simp: Mkdir_def split: if_splits)
    ultimately show ?thesis unfolding dirs_upto_def by (metis below_refl)
  qed (use assms in \<open>auto simp: Mkdir_def\<close>)
qed

lemma MkdirAll_upto:
  "MkdirAll s p m = (r, s') \<Longrightarrow> wf_os s \<Longrightarrow> link_free (tree s) \<Longrightarrow> straight p
   \<Longrightarrow> dirs_upto (abs_elems p) (tree s) (tree s')"
proof (induction s p m arbitrary: r s' rule: MkdirAll.induct)
  case (1 s p m)
  show ?case
  proof (cases "Stat s p")
    case (Inl e)
    obtain r1 s1 where first: "(if parent_part p \<noteq> [] then MkdirAll s (parent_part p) m else (None, s)) = (r1, s1)"
      by fastforce
    have a1: "dirs_upto (abs_elems p) (tree s) (tree s1) \<and> wf_os s1 \<and> link_free (tree s1)"
    proof (cases "parent_part p = []")
      case False
      with first have f: "MkdirAll s (parent_part p) m = (r1, s1)" by simp
      have "dirs_upto (abs_elems (parent_part p)) (tree s) (tree s1)"
        using "1.IH"[OF Inl _ f] False "1.prems" straight_parent by blast
      then show ?thesis
        using dirs_upto_below straight_parent[OF "1.prems"(4) False] wf_MkdirAll[OF f] link_free_MkdirAll[OF f] "1.prems"
        by blast
    qed (use first "1.prems" in simp)
    obtain r2 s2 where mk: "Mkdir s1 p m = (r2, s2)" by fastforce
    have "dirs_upto (abs_elems p) (tree s1) (tree s2)"
      using Mkdir_upto[OF mk] a1 straight_rooted[OF "1.prems"(4)] by blast
    then have a2: "dirs_upto (abs_elems p) (tree s) (tree s2)" using a1 dirs_upto_trans by blast
    have "s' = s1 \<or> s' = s2"
      using "1.prems"(1) first mk Inl
      by (auto simp: MkdirAll.simps[of s p m] split: option.splits sum.splits)
    then show ?thesis using a1 a2 by blast
  next
    case (Inr x)
    with "1.prems" show ?thesis by (auto simp: MkdirAll.simps[of s p m])
  qed
qed

lemma OpenFile_plain:
  assumes "OpenFile s p create trunc m = (r, s')" "wf_os s" "link_free (tree s)" "is_rooted p"
  shows "(\<forall>x. x \<noteq> abs_elems p \<longrightarrow> look (tree s') x = look (tree s) x) \<and> (\<forall>q. r = Inr q \<longrightarrow> q = abs_elems p)"
proof (cases r)
  case (Inl e)
  with assms(1) have "s' = s" using OpenFile_Inl by blast
  with Inl show ?thesis by simp
next
  case (Inr q)
  note o = OpenFile_Inr[OF assms(1)[unfolded Inr] assms(2)]
  have "q = abs_elems p" using plain_locate[OF assms(3,4) o(1)] .
  with o(3) Inr show ?thesis by auto
qed

end
