(* ===== verification/Filex.thy ===== *)
theory Filex
  imports GoFSPlain
begin

text \<open>
  The file helpers of the package \<open>filex\<close> (\<open>filex/file.go\<close>) over the model of the file system. A
  function that changes the file system returns its error and the new state.
\<close>

section \<open>Errors\<close>

datatype file_error =
    OsError errno
  | SameName
  | NotADirectory string
  | Panic

type_synonym 'e result = "'e option \<times> osys"

section \<open>Existence\<close>

definition CheckExist :: "osys \<Rightarrow> string \<Rightarrow> bool" where
  "CheckExist s src = (case Stat s src of Inl e \<Rightarrow> \<not> is_not_exist e | Inr _ \<Rightarrow> True)"

definition CheckPathExists :: "osys \<Rightarrow> string \<Rightarrow> bool \<times> file_error option" where
  "CheckPathExists s path =
     (case Stat s path of
        Inr fi \<Rightarrow> if is_dir fi then (True, None) else (False, Some SameName)
      | Inl e \<Rightarrow> if is_not_exist e then (False, None) else (False, None))"

definition FileExist :: "osys \<Rightarrow> string \<Rightarrow> bool" where
  "FileExist s path = (case Lstat s path of Inr fi \<Rightarrow> \<not> is_dir fi | Inl e \<Rightarrow> \<not> is_not_exist e)"

definition FileExistAndPermission :: "osys \<Rightarrow> string \<Rightarrow> bool" where
  "FileExistAndPermission s file =
     (case Stat s file of
        Inl e \<Rightarrow> if is_not_exist e then False else if e = EACCES then False else True
      | Inr _ \<Rightarrow> True)"

section \<open>Directories\<close>

definition ModePerm :: perm where
  "ModePerm = 511"

definition os_result :: "errno option \<times> osys \<Rightarrow> file_error result" where
  "os_result r = (case r of (e, s) \<Rightarrow> (map_option OsError e, s))"

definition MkDir :: "osys \<Rightarrow> string \<Rightarrow> file_error result" where
  "MkDir s src = os_result (MkdirAll s src ModePerm)"

definition CreateDir :: "string list \<Rightarrow> osys \<Rightarrow> file_error result" where
  "CreateDir dirs s =
     for_each (\<lambda>v s.
       case CheckPathExists s v of
         (_, Some e) \<Rightarrow> (Some e, s)
       | (exist, None) \<Rightarrow> if \<not> exist then os_result (MkdirAll s v ModePerm) else (None, s)) dirs s"

definition IsNotExistMkDir :: "osys \<Rightarrow> string \<Rightarrow> file_error result" where
  "IsNotExistMkDir s src =
     (case CheckPathExists s src of (exist, _) \<Rightarrow>
        if \<not> exist then MkDir s src else (None, s))"

text \<open>\<open>os.Args\<close> is an argument.\<close>

definition SelfPath :: "osys \<Rightarrow> string list \<Rightarrow> string option" where
  "SelfPath s args = (case args of [] \<Rightarrow> None | a # _ \<Rightarrow> Some (Abs s a))"

definition SelfDir :: "osys \<Rightarrow> string list \<Rightarrow> string option" where
  "SelfDir s args =
     (if 1 < length args then Some (Getwd s)
      else (case SelfPath s args of None \<Rightarrow> None | Some p \<Rightarrow> Some (path_dir p)))"

section \<open>Files\<close>

text \<open>The writer is the open file; what is written goes to its end.\<close>

definition FileWriter :: "osys \<Rightarrow> string \<Rightarrow> (errno + string list) \<times> osys" where
  "FileWriter s file = OpenFile s file True False 511"

definition CopyFile :: "string \<Rightarrow> string \<Rightarrow> osys \<Rightarrow> file_error result" where
  "CopyFile src dst s =
     (case Open s src of
        Inl e \<Rightarrow> (Some (OsError e), s)
      | Inr source \<Rightarrow>
          (case IsNotExistMkDir s (path_dir dst) of
             (Some e, s) \<Rightarrow> (Some e, s)
           | (None, s) \<Rightarrow>
               (case Create s dst of
                  (Inl e, s) \<Rightarrow> (Some (OsError e), s)
                | (Inr destination, s) \<Rightarrow>
                    (case read_all s source of
                       Inl e \<Rightarrow> (Some (OsError e), s)
                     | Inr content \<Rightarrow>
                         (let s = set_content destination content s in
                          case Stat s src of
                            Inl e \<Rightarrow> (Some (OsError e), s)
                          | Inr info \<Rightarrow> os_result (Chmod s dst (mode_of info)))))))"

function CopyDir :: "string \<Rightarrow> string \<Rightarrow> osys \<Rightarrow> file_error result" where
  "CopyDir src dst s =
     (case Stat s src of
        Inl e \<Rightarrow> (Some (OsError e), s)
      | Inr fileInfo \<Rightarrow>
          if \<not> is_dir fileInfo then (Some (NotADirectory src), s)
          else (case MkdirAll s dst (mode_of fileInfo) of
              (Some e, s) \<Rightarrow> (Some (OsError e), s)
            | (None, s) \<Rightarrow>
                (case ReadDir s src of
                   Inl e \<Rightarrow> (Some (OsError e), s)
                 | Inr entries \<Rightarrow>
                     for_each (\<lambda>entry s.
                       let sourcePath = path_join [src, fst entry];
                           destinationPath = path_join [dst, fst entry]
                       in if is_dir (snd entry) then CopyDir sourcePath destinationPath s
                          else CopyFile sourcePath destinationPath s) entries s)))"
  by pat_completeness auto
termination
  by (relation "measure (\<lambda>(src, _, _). path_room src)") (auto dest!: ReadDir_names intro!: path_room_join)

declare CopyDir.simps [simp del]

definition FileMove :: "string \<Rightarrow> string \<Rightarrow> osys \<Rightarrow> file_error result" where
  "FileMove src dst s =
     (if dst = [] then (None, s)
      else
        let src = Abs s src; dst = Abs s dst; dir = path_dir dst;
            make = (\<lambda>s. case Stat s dir of Inr _ \<Rightarrow> (None, s) | Inl _ \<Rightarrow> MkdirAll s dir 493)
        in case make s of
             (Some e, s) \<Rightarrow> (Some (OsError e), s)
           | (None, s) \<Rightarrow>
               (case make s of
                  (Some e, s) \<Rightarrow> (Some (OsError e), s)
                | (None, s) \<Rightarrow> os_result (Rename s src dst)))"

definition DeLFile :: "string \<Rightarrow> osys \<Rightarrow> file_error result" where
  "DeLFile filePath s = os_result (RemoveAll s filePath)"

section \<open>Trimming a struct\<close>

text \<open>The target as \<open>reflect\<close> sees it: a pointer to a struct with its fields (exported or not, a string
  or something else), a pointer to something else, or no pointer. Setting an unexported field panics,
  as do the fields of something that is no struct.\<close>

datatype 'a struct_field = StringField bool string | OtherField 'a

datatype 'a reflected = PtrToStruct "'a struct_field list" | PtrToOther | NoPtr

fun trim_fields :: "'a struct_field list \<Rightarrow> 'a struct_field list option" where
  "trim_fields [] = Some []"
| "trim_fields (StringField exported v # fs) =
     (if exported then map_option ((#) (StringField exported (trim_space v))) (trim_fields fs) else None)"
| "trim_fields (OtherField x # fs) = map_option ((#) (OtherField x)) (trim_fields fs)"

definition TrimSpace :: "'a reflected \<Rightarrow> 'a reflected option" where
  "TrimSpace target =
     (case target of
        NoPtr \<Rightarrow> Some NoPtr
      | PtrToOther \<Rightarrow> None
      | PtrToStruct fs \<Rightarrow> map_option PtrToStruct (trim_fields fs))"

section \<open>Copying one file\<close>

lemma IsNotExistMkDir_None:
  assumes "IsNotExistMkDir s d = (r, s')"
  shows "(r = None \<and> s' = s) \<or> (\<exists>e. MkdirAll s d ModePerm = (e, s') \<and> r = map_option OsError e)"
  using assms by (auto simp: IsNotExistMkDir_def MkDir_def os_result_def split: prod.splits if_splits)

lemma IsNotExistMkDir_adds:
  assumes "IsNotExistMkDir s d = (r, s')" "wf_os s"
  shows "adds_dirs (tree s) (tree s') \<and> same_process s s' \<and> wf_os s'"
  using IsNotExistMkDir_None[OF assms(1)] MkdirAll_adds[OF _ assms(2)] wf_MkdirAll[OF _ assms(2)] assms(2)
  by auto

lemma Open_locate: "Open s p = Inr q \<longleftrightarrow> locate s True p = Inr q \<and> look (tree s) q \<noteq> None"
  by (auto simp: Open_def split: sum.splits option.splits)

lemma Stat_of_locate: "locate s True p = Inr q \<Longrightarrow> look (tree s) q = Some x \<Longrightarrow> Stat s p = Inr x"
  by (simp add: Stat_def stat_at_def)

text \<open>The steps of a successful copy.\<close>

lemma CopyFile_steps:
  assumes "CopyFile src dst s = (None, s')"
  obtains p s1 q s2 c info where
    "Open s src = Inr p" "IsNotExistMkDir s (path_dir dst) = (None, s1)" "Create s1 dst = (Inr q, s2)"
    "read_all s2 p = Inr c" "Stat (set_content q c s2) src = Inr info"
    "Chmod (set_content q c s2) dst (mode_of info) = (None, s')"
proof -
  obtain p where p: "Open s src = Inr p"
    using assms by (cases "Open s src") (simp_all add: CopyFile_def)
  obtain r1 s1 where m: "IsNotExistMkDir s (path_dir dst) = (r1, s1)" by fastforce
  with assms p have m1: "r1 = None" by (cases r1) (simp_all add: CopyFile_def)
  obtain r2 s2 where c: "Create s1 dst = (r2, s2)" by fastforce
  with assms p m m1 obtain q where q: "r2 = Inr q" by (cases r2) (simp_all add: CopyFile_def)
  with assms p m m1 c obtain a where a: "read_all s2 p = Inr a"
    by (cases "read_all s2 p") (simp_all add: CopyFile_def)
  with assms p m m1 c q obtain info where i: "Stat (set_content q a s2) src = Inr info"
    by (cases "Stat (set_content q a s2) src") (simp_all add: CopyFile_def)
  obtain r3 s3 where h: "Chmod (set_content q a s2) dst (mode_of info) = (r3, s3)" by fastforce
  with assms p m m1 c q a i have "r3 = None" "s3 = s'"
    by (simp_all add: CopyFile_def os_result_def)
  with that p m m1 c q a i h show thesis by simp
qed

lemma grows_set_content: "grows (tree s) (tree (set_content q c s))"
proof -
  have "same_kind e (set_entry_content f e)" for e f by (cases e) simp_all
  then show ?thesis by (auto simp: grows_def split: option.splits)
qed

lemma CopyFile_effect:
  assumes wf: "wf_os s" and src: "Open s src = Inr p" "look (tree s) p = Some (AFile m c)"
    and run: "CopyFile src dst s = (None, s')"
  obtains q where "locate s' True dst = Inr q"
    "look (tree s') q = Some (AFile m (if q = p then [] else c))"
    "\<And>x. x \<noteq> q \<Longrightarrow> look (tree s') x = look (tree s) x \<or> (look (tree s) x = None \<and> (\<exists>m. look (tree s') x = Some (ADir m)))"
    "wf_os s'" "same_process s s'"
proof -
  obtain s1 q s2 a info where mk: "IsNotExistMkDir s (path_dir dst) = (None, s1)"
    and cr: "Create s1 dst = (Inr q, s2)" and rd: "read_all s2 p = Inr a"
    and st: "Stat (set_content q a s2) src = Inr info"
    and ch: "Chmod (set_content q a s2) dst (mode_of info) = (None, s')"
    using CopyFile_steps[OF run] src(1) by (metis sum.inject(2))
  let ?s3 = "set_content q a s2"
  have a1: "adds_dirs (tree s) (tree s1)" "same_process s s1" "wf_os s1"
    using IsNotExistMkDir_adds[OF mk wf] by blast+
  note o = OpenFile_Inr[OF cr[unfolded Create_def] a1(3)]
  have w2: "wf_os s2" "list_all valid_name q" using wf_Create[OF cr a1(3)] by auto
  have g: "grows (tree s) (tree ?s3)" "grows (tree s1) (tree ?s3)"
    using adds_dirs_grows[OF a1(1)] o(5) grows_set_content grows_trans by blast+
  have pr: "same_process s ?s3" "same_process s1 ?s3"
    using a1(2) o(2) same_process_trans same_process_ops(1) by blast+
  have lsrc: "locate ?s3 True src = Inr p"
    using locate_grows[OF _ g(1)] src(1) pr(1) by (simp add: Open_locate same_process_def)
  have ldst: "locate ?s3 True dst = Inr q"
    using locate_grows[OF o(1) g(2)] pr(2) by (simp add: same_process_def)
  have p1: "look (tree s1) p = Some (AFile m c)" using adds_dirs_file[OF a1(1)] src(2) by blast
  have q3: "\<exists>m3. look (tree ?s3) q = Some (AFile m3 a) \<and> (q = p \<longrightarrow> m3 = m \<and> a = [])"
    using o(4) p1 rd by (auto simp: read_all_def)
  have p3: "look (tree ?s3) p = Some (AFile m (if q = p then [] else c)) \<and> a = (if q = p then [] else c)"
    using o(3,4) p1 rd q3 by (cases "q = p") (auto simp: read_all_def)
  then have "Stat ?s3 src = Inr (AFile m a)" using Stat_of_locate[OF lsrc] by metis
  then have "info = AFile m a" using st by simp
  then have s': "s' = change_node (chmod_node m) q ?s3"
    using ch ldst q3 by (auto simp: Chmod_def)
  have l': "look (tree s') x = (if x = q then Some (AFile m a) else look (tree s1) x)" for x
    unfolding s' look_chmod_node using q3 o(3) by auto
  have g': "grows (tree ?s3) (tree s')"
    using q3 l' o(3) by (intro grows_at[of q]) auto
  show thesis
  proof (rule that)
    show "locate s' True dst = Inr q" using locate_grows[OF ldst g'] s' by simp
    show "look (tree s') q = Some (AFile m (if q = p then [] else c))" using l' p3 by simp
    show "look (tree s') x = look (tree s) x \<or> (look (tree s) x = None \<and> (\<exists>m. look (tree s') x = Some (ADir m)))"
      if "x \<noteq> q" for x using l' that a1(1) by (simp add: adds_dirs_def)
    show "wf_os s'" using wf_Chmod[OF ch] w2 wf_set_content by blast
    show "same_process s s'" using pr(1) s' by (simp add: same_process_def)
  qed
qed

section \<open>Copying in a tree without links\<close>

lemma link_free_IsNotExistMkDir:
  "IsNotExistMkDir s d = (r, s') \<Longrightarrow> wf_os s \<Longrightarrow> link_free (tree s) \<Longrightarrow> link_free (tree s')"
  using IsNotExistMkDir_adds link_free_adds_dirs by blast

lemma IsNotExistMkDir_upto:
  "IsNotExistMkDir s d = (r, s') \<Longrightarrow> wf_os s \<Longrightarrow> link_free (tree s) \<Longrightarrow> straight d
   \<Longrightarrow> dirs_upto (abs_elems d) (tree s) (tree s')"
  using IsNotExistMkDir_None MkdirAll_upto by (metis dirs_upto_refl)

text \<open>The place where a join of a directory and a name lies, and its parent.\<close>

lemma path_dir_join:
  assumes "valid_name x" "is_rooted p"
  shows "straight (path_dir (path_join [p, x])) \<and> abs_elems (path_dir (path_join [p, x])) = abs_elems p"
proof -
  let ?es = "path_elems True p"
  have nx: "x \<noteq> []" "CHR ''/'' \<notin> set x" using assms(1) by (auto simp: valid_name_def)
  have j: "path_join [p, x] = CHR ''/'' # join (?es @ [x]) ''/''"
    using assms rooted_nonempty by (simp add: path_join_name)
  have dropx: "rev (dropWhile (\<lambda>c. c \<noteq> CHR ''/'') (rev (u @ CHR ''/'' # x))) = u @ ''/''" for u
    using nx(2) by (auto simp: dropWhile_append3)
  have "rev (dropWhile (\<lambda>c. c \<noteq> CHR ''/'') (rev (path_join [p, x])))
      = (if ?es = [] then ''/'' else CHR ''/'' # join ?es ''/'' @ ''/'')"
    unfolding j join_snoc using dropx[of "[]"] dropx[of "CHR ''/'' # join ?es ''/''"] by simp
  then have d: "path_dir (path_join [p, x]) = path_clean (if ?es = [] then ''/'' else CHR ''/'' # join ?es ''/'' @ ''/'')"
    by (simp add: path_dir_def)
  have "path_elems True (if ?es = [] then ''/'' else CHR ''/'' # join ?es ''/'' @ ''/'') = ?es"
  proof -
    have "path_elems True (CHR ''/'' # join ?es ''/'' @ ''/'') = path_elems True (join ?es ''/'')"
      using path_elems_snoc_slash[of True "CHR ''/'' # join ?es ''/''"] by simp
    then show ?thesis using path_elems_join_kept[OF path_elems_kept_ok, of True p]
      by (auto simp: path_elems_def push_elem_def)
  qed
  then have c: "path_dir (path_join [p, x]) = CHR ''/'' # join ?es ''/''"
    unfolding d by (simp add: path_clean_def is_rooted_def)
  have "straight (CHR ''/'' # join ?es ''/'')"
  proof (cases "?es = []")
    case False
    have "kept_ok True ks \<Longrightarrow> e \<in> set ks \<Longrightarrow> e \<noteq> ''..'' \<and> CHR ''/'' \<notin> set e" for ks e
      by (induction ks) auto
    from this[OF path_elems_kept_ok] have "\<forall>e \<in> set ?es. e \<noteq> ''..'' \<and> CHR ''/'' \<notin> set e" by (metis set_rev)
    moreover from this False have "split_char (CHR ''/'') (join ?es ''/'') = ?es" by (intro split_char_join) auto
    ultimately show ?thesis unfolding straight_def by (auto simp: is_rooted_def)
  qed (simp add: straight_def is_rooted_def)
  moreover have "abs_elems (CHR ''/'' # join ?es ''/'') = abs_elems p"
    using path_elems_join_kept[OF path_elems_kept_ok, of True p] by (simp add: abs_elems_def)
  ultimately show ?thesis unfolding c by simp
qed

lemma Chmod_state:
  "Chmod s p m = (r, s') \<Longrightarrow> s' = s \<or> (\<exists>q. locate s True p = Inr q \<and> s' = change_node (chmod_node m) q s)"
  by (cases "locate s True p") (auto simp: Chmod_def split: option.splits)

lemma CopyFile_states:
  assumes "CopyFile src dst s = (r, s')" "Open s src = Inr p"
    "IsNotExistMkDir s (path_dir dst) = (r1, s1)" "Create s1 dst = (r2, s2)"
  shows "s' = s1 \<or> (r1 = None \<and> (s' = s2 \<or> (\<exists>q c. r2 = Inr q \<and> read_all s2 p = Inr c
    \<and> (s' = set_content q c s2 \<or> (\<exists>m r. Chmod (set_content q c s2) dst m = (r, s'))))))"
proof (cases r1)
  case None
  show ?thesis
  proof (cases r2)
    case (Inr q)
    show ?thesis
    proof (cases "read_all s2 p")
      case (Inr c)
      show ?thesis
      proof (cases "Stat (set_content q c s2) src")
        case (Inr info)
        obtain r3 s3 where "Chmod (set_content q c s2) dst (mode_of info) = (r3, s3)" by fastforce
        moreover from this have "s3 = s'"
          using assms None \<open>r2 = Inr q\<close> \<open>read_all s2 p = Inr c\<close> Inr by (simp add: CopyFile_def os_result_def)
        ultimately show ?thesis using None \<open>r2 = Inr q\<close> \<open>read_all s2 p = Inr c\<close> by blast
      qed (use assms None \<open>r2 = Inr q\<close> Inr in \<open>simp add: CopyFile_def\<close>)
    qed (use assms None Inr in \<open>simp add: CopyFile_def\<close>)
  qed (use assms None in \<open>simp add: CopyFile_def\<close>)
qed (use assms in \<open>simp add: CopyFile_def\<close>)

lemma CopyFile_plain:
  assumes "CopyFile src (path_join [d, x]) s = (r, s')" "wf_os s" "link_free (tree s)" "is_rooted d" "valid_name x"
  shows "confined (abs_elems d @ [x]) (tree s) (tree s') \<and> wf_os s' \<and> link_free (tree s')"
proof (cases "Open s src")
  case (Inr p)
  let ?dst = "path_join [d, x]" and ?D = "abs_elems d @ [x]"
  have D: "abs_elems ?dst = ?D" "is_rooted ?dst" using assms(4,5) rooted_nonempty by simp_all
  note pd = path_dir_join[OF assms(5,4)]
  obtain r1 s1 where mk: "IsNotExistMkDir s (path_dir ?dst) = (r1, s1)" by fastforce
  have "dirs_upto (abs_elems d) (tree s) (tree s1)"
    using IsNotExistMkDir_upto[OF mk assms(2,3)] pd by simp
  then have c1: "confined ?D (tree s) (tree s1)"
    using dirs_upto_below dirs_upto_confined by (metis below_iff)
  have w1: "wf_os s1" "link_free (tree s1)"
    using IsNotExistMkDir_adds[OF mk assms(2)] link_free_IsNotExistMkDir[OF mk assms(2,3)] by blast+
  obtain r2 s2 where cr: "Create s1 ?dst = (r2, s2)" by fastforce
  have o: "\<forall>x. x \<noteq> ?D \<longrightarrow> look (tree s2) x = look (tree s1) x" "\<forall>q. r2 = Inr q \<longrightarrow> q = ?D"
    using OpenFile_plain[OF cr[unfolded Create_def] w1 D(2)] D(1) by auto
  have "confined ?D (tree s1) (tree s2)" using o(1) by (intro confined_at[of ?D]) auto
  then have c2: "confined ?D (tree s) (tree s2)" using c1 confined_trans by blast
  have w2: "wf_os s2" "link_free (tree s2)"
    using wf_Create[OF cr w1(1)] link_free_OpenFile[OF cr[unfolded Create_def] w1] by blast+
  show ?thesis
  proof (cases "s' = s1 \<or> s' = s2")
    case True
    then show ?thesis using c1 c2 w1 w2 by blast
  next
    case False
    then obtain q c where q: "r2 = Inr q"
      and step: "s' = set_content q c s2 \<or> (\<exists>m r. Chmod (set_content q c s2) ?dst m = (r, s'))"
      using CopyFile_states[OF assms(1) Inr mk cr] by blast
    let ?s3 = "set_content ?D c s2"
    have qD: "q = ?D" using o(2) q by blast
    have "list_all valid_name ?D" using wf_Create[OF cr w1(1)] q qD by blast
    then have w3: "wf_os ?s3" "link_free (tree ?s3)"
      using wf_set_content[OF w2(1)] link_free_set_content[OF w2(2)] by blast+
    have "confined ?D (tree s2) (tree ?s3)" by (intro confined_at[of ?D]) auto
    then have c3: "confined ?D (tree s) (tree ?s3)" using c2 confined_trans by blast
    have "s' = ?s3 \<or> (\<exists>m. s' = change_node (chmod_node m) ?D ?s3)"
      using step qD plain_locate[OF w3(2) D(2), of True] D(1) Chmod_state by metis
    moreover have "confined ?D (tree ?s3) (tree (change_node (chmod_node m) ?D ?s3))" for m
      by (intro confined_at[of ?D]) (auto simp: look_chmod_node)
    moreover have "wf_os s'" using step qD w3(1) wf_Chmod by blast
    moreover have "link_free (tree (change_node (chmod_node m) ?D ?s3))" for m
      using link_free_chmod_node[OF w3(2)] .
    ultimately show ?thesis using c3 w3(2) confined_trans by blast
  qed
next
  case (Inl e)
  with assms show ?thesis by (simp add: CopyFile_def)
qed

section \<open>Copying a directory\<close>

definition plain_os :: "osys \<Rightarrow> bool" where
  "plain_os s \<longleftrightarrow> wf_os s \<and> link_free (tree s)"

text \<open>The invariant of the loop over the entries of a directory.\<close>

lemma CopyDir_confined:
  "CopyDir src dst s = (r, s') \<Longrightarrow> plain_os s \<Longrightarrow> straight dst
   \<Longrightarrow> confined (abs_elems dst) (tree s) (tree s') \<and> plain_os s'"
proof (induction src dst s arbitrary: r s' rule: CopyDir.induct)
  case (1 src dst s)
  show ?case
  proof (cases "Stat s src")
    case (Inl e)
    with "1.prems" show ?thesis by (simp add: CopyDir.simps[of src dst s])
  next
    case (Inr info)
    show ?thesis
    proof (cases "is_dir info")
      case False
      with "1.prems" Inr show ?thesis by (simp add: CopyDir.simps[of src dst s])
    next
      case True
      obtain r1 s1 where mk: "MkdirAll s dst (mode_of info) = (r1, s1)" by fastforce
      have p1: "confined (abs_elems dst) (tree s) (tree s1)" "plain_os s1"
        using MkdirAll_upto[OF mk] dirs_upto_confined wf_MkdirAll[OF mk] link_free_MkdirAll[OF mk] "1.prems"
        by (auto simp: plain_os_def)
      show ?thesis
      proof (cases "r1 = None \<and> (\<exists>es. ReadDir s1 src = Inr es)")
        case False
        then have "s' = s1"
          using "1.prems"(1) Inr True mk
          by (cases r1; cases "ReadDir s1 src") (simp_all add: CopyDir.simps[of src dst s])
        with p1 show ?thesis by simp
      next
        case ok: True
        then obtain es where r1: "r1 = None" and es: "ReadDir s1 src = Inr es" by blast
        let ?f = "\<lambda>entry s. if is_dir (snd entry) then CopyDir (path_join [src, fst entry]) (path_join [dst, fst entry]) s
                    else CopyFile (path_join [src, fst entry]) (path_join [dst, fst entry]) s"
        have loop: "for_each ?f es s1 = (r, s')"
          using "1.prems"(1) Inr True mk r1 es by (simp add: CopyDir.simps[of src dst s] Let_def)
        have step: "confined (abs_elems dst) (tree s) (tree b) \<and> plain_os b"
          if x: "x \<in> set es" and I: "confined (abs_elems dst) (tree s) (tree a) \<and> plain_os a"
            and f: "?f x a = (r2, b)" for x a r2 b
        proof -
          have v: "valid_name (fst x)" using ReadDir_names[OF es x] by blast
          let ?d = "path_join [dst, fst x]"
          have rt: "is_rooted dst" using "1.prems"(3) straight_rooted by blast
          have d: "straight ?d" "abs_elems ?d = abs_elems dst @ [fst x]" "below (abs_elems dst) (abs_elems ?d)"
            using straight_join[OF v rt] abs_elems_join[OF v rooted_nonempty[OF rt] rt] by (auto simp: below_iff)
          have "confined (abs_elems ?d) (tree a) (tree b) \<and> plain_os b"
          proof (cases "is_dir (snd x)")
            case True
            then show ?thesis
              using "1.IH"[OF Inr _ mk[symmetric] r1 es x refl refl] f I d(1) \<open>is_dir info\<close> by simp
          next
            case False
            then show ?thesis
              using CopyFile_plain[OF _ _ _ rt v] f I d(2) by (auto simp: plain_os_def)
          qed
          then show ?thesis using I confined_below[OF _ d(3)] confined_trans by blast
        qed
        show ?thesis
          by (rule for_each_invariant[where I = "\<lambda>a. confined (abs_elems dst) (tree s) (tree a) \<and> plain_os a"
                and f = ?f and xs = es, OF _ loop]) (use step p1 in blast)+
      qed
    qed
  qed
qed

text \<open>Everything below \<open>S\<close> is found again below \<open>D\<close>: files with mode and content, directories as
  directories.\<close>

definition copied :: "node \<Rightarrow> node \<Rightarrow> string list \<Rightarrow> string list \<Rightarrow> bool" where
  "copied t t' S D \<longleftrightarrow>
     (\<forall>r m c. look t (S @ r) = Some (AFile m c) \<longrightarrow> look t' (D @ r) = Some (AFile m c))
   \<and> (\<forall>r m. look t (S @ r) = Some (ADir m) \<longrightarrow> (\<exists>m'. look t' (D @ r) = Some (ADir m')))"

definition apart :: "string list \<Rightarrow> string list \<Rightarrow> bool" where
  "apart A B \<longleftrightarrow> \<not> below A B \<and> \<not> below B A"

lemma below_append [simp]: "below A (A @ r)"
  by (simp add: below_def)

lemma confined_apart: "confined E t t' \<Longrightarrow> apart E S \<Longrightarrow> look t' (S @ r) = look t (S @ r)"
  unfolding confined_def apart_def by (metis below_append below_total below_trans)

lemma apart_snoc: "x \<noteq> y \<Longrightarrow> apart (D @ [x]) (D @ [y])"
  by (simp add: apart_def below_def)

lemma apart_below: "apart A B \<Longrightarrow> apart (A @ r) (B @ q)"
  unfolding apart_def by (metis below_append below_total below_trans)

lemma for_each_progress:
  "\<lbrakk>for_each f xs s = (None, s'); I s; distinct xs;
    \<And>x a b. x \<in> set xs \<Longrightarrow> I a \<Longrightarrow> f x a = (None, b) \<Longrightarrow> I b \<and> Q x b;
    \<And>x y a b. x \<in> set xs \<Longrightarrow> x \<noteq> y \<Longrightarrow> I a \<Longrightarrow> Q y a \<Longrightarrow> f x a = (None, b) \<Longrightarrow> Q y b\<rbrakk>
   \<Longrightarrow> I s' \<and> (\<forall>x \<in> set xs. Q x s')"
proof (induction xs arbitrary: s' rule: rev_induct)
  case (snoc x xs)
  obtain r a where ra: "for_each f xs s = (r, a)" by fastforce
  with snoc.prems(1) have r: "r = None" and f: "f x a = (None, s')"
    by (cases r; cases "f x a"; cases "fst (f x a)"; simp add: for_each_append)+
  have IH: "I a \<and> (\<forall>y \<in> set xs. Q y a)"
  proof (rule snoc.IH)
    show "for_each f xs s = (None, a)" "I s" "distinct xs" using ra r snoc.prems(2,3) by simp_all
    show "I b \<and> Q z b" if "z \<in> set xs" "I a'" "f z a' = (None, b)" for z a' b
      by (rule snoc.prems(4)) (use that in simp_all)
    show "Q y b" if "z \<in> set xs" "z \<noteq> y" "I a'" "Q y a'" "f z a' = (None, b)" for z y a' b
      by (rule snoc.prems(5)[of z y a' b]) (use that in simp_all)
  qed
  have "I s' \<and> Q x s'" using snoc.prems(4)[of x a s'] IH f by simp
  moreover have "Q y s'" if "y \<in> set xs" for y
    using snoc.prems(5)[of x y a s'] snoc.prems(3) IH f that by auto
  ultimately show ?case by simp
qed simp

lemma node_entries_props:
  assumes "wf_node n" "is_dir (shallow n)"
  shows "distinct (map fst (node_entries n))"
    "x \<in> set (node_entries n) \<longleftrightarrow> look n [fst x] = Some (snd x)"
proof -
  obtain m es where n: "n = Dir m es" using assms(2) by (cases n) auto
  have v: "filter valid_name (map fst es) = map fst es"
    using assms(1) by (auto simp: n list_all_iff intro!: filter_True)
  have ex: "\<exists>k. map_of es y = Some k" if "y \<in> fst ` set es" for y
    using that by (metis domIff dom_map_of_conv_image_fst not_None_eq)
  have d: "distinct (map fst es)" using assms(1) by (simp add: n)
  show "distinct (map fst (node_entries n))" using d v by (simp add: n comp_def)
  have "(a, e) \<in> set (node_entries n) \<longleftrightarrow> look n [a] = Some e" for a e
  proof -
    have "(a, e) \<in> set (node_entries n) \<longleftrightarrow> a \<in> fst ` set es \<and> e = shallow (the (map_of es a))"
      unfolding n node_entries.simps v by auto
    also have "\<dots> \<longleftrightarrow> (\<exists>k. map_of es a = Some k \<and> e = shallow k)"
      using ex[of a] by (metis domIff dom_map_of_conv_image_fst option.discI option.sel)
    also have "\<dots> \<longleftrightarrow> look n [a] = Some e" by (auto simp: n split: option.split)
    finally show ?thesis .
  qed
  then show "x \<in> set (node_entries n) \<longleftrightarrow> look n [fst x] = Some (snd x)" by (cases x) simp
qed

lemma ReadDir_plain:
  assumes "ReadDir s p = Inr es" "plain_os s" "is_rooted p"
  shows "distinct (map fst es)" "x \<in> set es \<longleftrightarrow> look (tree s) (abs_elems p @ [fst x]) = Some (snd x)"
proof -
  obtain n where "lookup (tree s) (abs_elems p) = Some n" "is_dir (shallow n)" "es = node_entries n"
    using assms(1) plain_locate[of s p True] assms(2,3)
    by (auto simp: ReadDir_def plain_os_def split: sum.splits option.splits if_splits)
  moreover from this(1) have "wf_node n" using wf_lookup assms(2) by (auto simp: plain_os_def wf_os_def)
  ultimately show "distinct (map fst es)" "x \<in> set es \<longleftrightarrow> look (tree s) (abs_elems p @ [fst x]) = Some (snd x)"
    using node_entries_props by (auto simp: look_append)
qed

lemma look_prefix: "look t (p @ q) = Some e \<Longrightarrow> \<exists>k. look t p = Some k"
  by (auto simp: look_def lookup_append split: option.splits)

lemma CopyFile_copied:
  assumes "CopyFile src dst s = (None, s')" "plain_os s" "is_rooted src" "is_rooted dst"
    "look (tree s) (abs_elems src) = Some e" "\<not> is_dir e" "abs_elems src \<noteq> abs_elems dst" "plain_os s'"
  shows "copied (tree s) (tree s') (abs_elems src) (abs_elems dst)"
proof -
  obtain m c where e: "e = AFile m c"
    using assms(2,5,6) by (cases e) (auto simp: plain_os_def link_free_def)
  obtain p where p: "Open s src = Inr p" using CopyFile_steps[OF assms(1)] by metis
  then have pS: "p = abs_elems src"
    using plain_locate[of s src True] assms(2,3) by (simp add: plain_os_def Open_locate)
  obtain q where q: "locate s' True dst = Inr q" "look (tree s') q = Some (AFile m (if q = p then [] else c))"
    using CopyFile_effect[OF _ p _ assms(1)] assms(2,5) e pS by (metis plain_os_def)
  have "q = abs_elems dst" using plain_locate[OF _ assms(4) q(1)] assms(8) by (simp add: plain_os_def)
  then have D: "look (tree s') (abs_elems dst) = Some (AFile m c)" using q(2) pS assms(7) by auto
  have nil: "r = []" if "look (tree s) (abs_elems src @ r) = Some x" for r x
  proof (cases r)
    case (Cons y ys)
    obtain n where "lookup (tree s) (abs_elems src) = Some n" "shallow n = AFile m c"
      using assms(5) e look_lookup by blast
    with that Cons show ?thesis by (cases n) (auto simp: look_append)
  qed simp
  show ?thesis unfolding copied_def
  proof (intro conjI allI impI)
    fix r m' c' assume "look (tree s) (abs_elems src @ r) = Some (AFile m' c')"
    with nil[OF this] D assms(5) e show "look (tree s') (abs_elems dst @ r) = Some (AFile m' c')" by simp
  next
    fix r m' assume "look (tree s) (abs_elems src @ r) = Some (ADir m')"
    with nil[OF this] assms(5) e show "\<exists>m'. look (tree s') (abs_elems dst @ r) = Some (ADir m')" by simp
  qed
qed

text \<open>A successful run of \<open>CopyDir\<close> is the making of the directory and the loop.\<close>

abbreviation copy_entry :: "string \<Rightarrow> string \<Rightarrow> string \<times> entry \<Rightarrow> osys \<Rightarrow> file_error result" where
  "copy_entry src dst \<equiv> \<lambda>entry s.
     if is_dir (snd entry) then CopyDir (path_join [src, fst entry]) (path_join [dst, fst entry]) s
     else CopyFile (path_join [src, fst entry]) (path_join [dst, fst entry]) s"

lemma CopyDir_None:
  assumes "CopyDir src dst s = (None, s')"
  obtains info s1 es where "Stat s src = Inr info" "is_dir info" "MkdirAll s dst (mode_of info) = (None, s1)"
    "ReadDir s1 src = Inr es" "for_each (copy_entry src dst) es s1 = (None, s')"
proof -
  obtain info where i: "Stat s src = Inr info"
    using assms by (cases "Stat s src") (simp_all add: CopyDir.simps[of src dst s])
  with assms have d: "is_dir info"
    by (cases "is_dir info") (simp_all add: CopyDir.simps[of src dst s])
  obtain r1 s1 where m: "MkdirAll s dst (mode_of info) = (r1, s1)" by fastforce
  with assms i d have r: "r1 = None" by (cases r1) (simp_all add: CopyDir.simps[of src dst s])
  with assms i d m obtain es where e: "ReadDir s1 src = Inr es"
    by (cases "ReadDir s1 src") (simp_all add: CopyDir.simps[of src dst s])
  have "for_each (copy_entry src dst) es s1 = (None, s')"
    using assms i d m r e by (simp add: CopyDir.simps[of src dst s] Let_def)
  with that i d m r e show thesis by blast
qed

lemma copy_entry_confined:
  assumes "copy_entry src dst x a = (r, b)" "plain_os a" "is_rooted dst" "valid_name (fst x)"
  shows "confined (abs_elems dst @ [fst x]) (tree a) (tree b) \<and> plain_os b"
proof (cases "is_dir (snd x)")
  case True
  then show ?thesis
    using CopyDir_confined[of "path_join [src, fst x]" "path_join [dst, fst x]" a r b] assms straight_join
    by (auto simp: rooted_nonempty)
next
  case False
  then show ?thesis using CopyFile_plain[OF _ _ _ assms(3,4)] assms(1,2) by (auto simp: plain_os_def)
qed

lemma CopyDir_copied:
  "CopyDir src dst s = (None, s') \<Longrightarrow> plain_os s \<Longrightarrow> is_rooted src \<Longrightarrow> straight dst
   \<Longrightarrow> apart (abs_elems src) (abs_elems dst) \<Longrightarrow> copied (tree s) (tree s') (abs_elems src) (abs_elems dst)"
proof (induction src dst s arbitrary: s' rule: CopyDir.induct)
  case (1 src dst s)
  let ?S = "abs_elems src" and ?D = "abs_elems dst"
  obtain info s1 es where st: "Stat s src = Inr info" and dir: "is_dir info"
    and mk: "MkdirAll s dst (mode_of info) = (None, s1)" and rd: "ReadDir s1 src = Inr es"
    and loop: "for_each (copy_entry src dst) es s1 = (None, s')"
    using CopyDir_None[OF "1.prems"(1)] .
  have rt: "is_rooted dst" using "1.prems"(4) straight_rooted by blast
  have p1: "plain_os s1" using wf_MkdirAll[OF mk] link_free_MkdirAll[OF mk] "1.prems"(2) by (auto simp: plain_os_def)
  have "confined ?D (tree s) (tree s1)"
    using MkdirAll_upto[OF mk] dirs_upto_confined "1.prems"(2,4) by (auto simp: plain_os_def)
  then have S1: "look (tree s1) (?S @ r) = look (tree s) (?S @ r)" for r
    using confined_apart "1.prems"(5) by (simp add: apart_def)
  obtain md where D1: "look (tree s1) ?D = Some (ADir md)"
    using MkdirAll_dir[OF mk _ _ rt] "1.prems"(2) by (auto simp: plain_os_def)
  note es = ReadDir_plain[OF rd p1 "1.prems"(3)]
  define I where "I = (\<lambda>a :: osys. plain_os a \<and> (\<forall>r. look (tree a) (?S @ r) = look (tree s1) (?S @ r))
    \<and> (\<exists>m. look (tree a) ?D = Some (ADir m)))"
  define Q where "Q = (\<lambda>(x :: string \<times> entry) (a :: osys). copied (tree s1) (tree a) (?S @ [fst x]) (?D @ [fst x]))"
  have step: "I b \<and> Q x b" if x: "x \<in> set es" and Ia: "I a" and f: "copy_entry src dst x a = (None, b)" for x a b
  proof -
    have v: "valid_name (fst x)" using ReadDir_names[OF rd x] by blast
    have pa: "plain_os a" using Ia by (simp add: I_def)
    note c = copy_entry_confined[OF f pa rt v]
    have ap: "apart (?D @ [fst x]) ?S" using "1.prems"(5) apart_below[of ?D ?S "[fst x]" "[]"] by (auto simp: apart_def)
    have Sb: "look (tree b) (?S @ r) = look (tree a) (?S @ r)" for r
      using confined_apart[OF _ ap] c by blast
    have "\<not> below (?D @ [fst x]) ?D" by (simp add: below_def)
    then have Db: "\<exists>m. look (tree b) ?D = Some (ADir m)"
      using c Ia unfolding I_def confined_def by (metis option.discI)
    have Ib: "I b" using Ia Sb Db c by (simp add: I_def)
    let ?s = "path_join [src, fst x]" and ?d = "path_join [dst, fst x]"
    have e: "abs_elems ?s = ?S @ [fst x]" "abs_elems ?d = ?D @ [fst x]" "is_rooted ?s" "straight ?d" "is_rooted ?d"
      using v rt "1.prems"(3) rooted_nonempty straight_join by simp_all
    have ap': "apart (abs_elems ?s) (abs_elems ?d)" unfolding e(1,2) by (rule apart_below[OF "1.prems"(5)])
    have ne: "abs_elems ?s \<noteq> abs_elems ?d" using ap' below_refl unfolding apart_def by metis
    have lx: "look (tree a) (abs_elems ?s) = Some (snd x)"
      using es(2)[of x] x Ia e(1) unfolding I_def by (metis append_assoc append_Cons append_Nil)
    have "copied (tree a) (tree b) (abs_elems ?s) (abs_elems ?d)"
    proof (cases "is_dir (snd x)")
      case True
      then show ?thesis
        using "1.IH"[OF st _ mk[symmetric] refl rd x refl refl True _ pa e(3,4) ap'] dir f by simp
    next
      case False
      then show ?thesis
        using CopyFile_copied[OF _ pa e(3,5) lx False ne] f c by simp
    qed
    then have "Q x b" using Ia unfolding Q_def copied_def e(1,2) I_def by (metis append_assoc)
    with Ib show ?thesis ..
  qed
  have keep: "Q y b" if "x \<in> set es" "x \<noteq> y" "I a" "Q y a" "copy_entry src dst x a = (None, b)" "y \<in> set es" for x y a b
  proof -
    have "valid_name (fst x)" using ReadDir_names[OF rd that(1)] by blast
    then have "confined (?D @ [fst x]) (tree a) (tree b)"
      using copy_entry_confined[OF that(5) _ rt] that(3) by (simp add: I_def)
    moreover have "fst x \<noteq> fst y" using es(1) that(1,2,6) by (metis distinct_map inj_onD)
    ultimately have "look (tree b) ((?D @ [fst y]) @ r) = look (tree a) ((?D @ [fst y]) @ r)" for r
      using confined_apart apart_snoc by blast
    then show ?thesis using that(4) by (simp add: Q_def copied_def)
  qed
  have fin: "I s' \<and> (\<forall>x \<in> set es. x \<in> set es \<longrightarrow> Q x s')"
  proof (rule for_each_progress[where Q = "\<lambda>x a. x \<in> set es \<longrightarrow> Q x a", OF loop])
    show "I s1" using p1 D1 by (simp add: I_def)
    show "distinct es" using es(1) by (simp add: distinct_map)
  qed (use step keep in blast)+
  have main: "\<exists>x ys. r = fst x # ys \<and> x \<in> set es \<and> Q x s'" if ne: "r \<noteq> []" and lk: "look (tree s) (?S @ r) = Some e" for r e
  proof -
    obtain y ys where r: "r = y # ys" using ne by (cases r) auto
    then obtain k where "look (tree s1) (?S @ [y]) = Some k"
      using lk S1[of r] look_prefix[of "tree s1" "?S @ [y]" ys e] by auto
    then have "(y, k) \<in> set es" using es(2)[of "(y, k)"] by simp
    then show ?thesis using fin r by (metis fst_conv)
  qed
  have D': "\<exists>m. look (tree s') ?D = Some (ADir m)" using fin by (simp add: I_def)
  have root: "\<exists>m. look (tree s) ?S = Some (ADir m)"
    using st dir Stat_dir[of s src True] "1.prems"(2,3) by (cases info) (auto simp: plain_os_def Stat_def)
  show ?case unfolding copied_def
  proof (intro conjI allI impI)
    fix r m c assume a: "look (tree s) (?S @ r) = Some (AFile m c)"
    then have "r \<noteq> []" using root by auto
    then obtain x ys where "r = fst x # ys" "Q x s'" using main a by blast
    then show "look (tree s') (?D @ r) = Some (AFile m c)" using a S1[of r] by (simp add: Q_def copied_def)
  next
    fix r m assume a: "look (tree s) (?S @ r) = Some (ADir m)"
    show "\<exists>m'. look (tree s') (?D @ r) = Some (ADir m')"
    proof (cases "r = []")
      case False
      then obtain x ys where "r = fst x # ys" "Q x s'" using main a by blast
      then show ?thesis using a S1[of r] by (simp add: Q_def copied_def)
    qed (use D' in simp)
  qed
qed

lemma for_each_None_member:
  "\<lbrakk>for_each f xs s = (None, s'); x \<in> set xs; I s;
    \<And>y a b. y \<in> set xs \<Longrightarrow> I a \<Longrightarrow> f y a = (None, b) \<Longrightarrow> I b\<rbrakk> \<Longrightarrow> \<exists>a b. I a \<and> f x a = (None, b)"
proof (induction xs arbitrary: s)
  case (Cons y xs)
  obtain r a where f: "f y s = (r, a)" by fastforce
  with Cons.prems(1) have r: "r = None" and rest: "for_each f xs a = (None, s')" by (cases r; simp)+
  show ?case
  proof (cases "x = y")
    case True
    with f r Cons.prems(3) show ?thesis by blast
  next
    case False
    show ?thesis
    proof (rule Cons.IH)
      show "for_each f xs a = (None, s')" by (rule rest)
      show "x \<in> set xs" using False Cons.prems(2) by simp
      show "I a" using Cons.prems(4)[of y s a] Cons.prems(3) f r by simp
      show "I b'" if "z \<in> set xs" "I a'" "f z a' = (None, b')" for z a' b'
        by (rule Cons.prems(4)[of z a' b']) (use that in simp_all)
    qed
  qed
qed simp

lemma look_dir_prefix: "look t (p @ y # ys) = Some e \<Longrightarrow> \<exists>m. look t p = Some (ADir m)"
  using look_prefix[of t "p @ [y]" ys e] look_snoc_Some by force

lemma CopyDir_into_itself:
  "plain_os s \<Longrightarrow> is_rooted src \<Longrightarrow> straight dst \<Longrightarrow> abs_elems dst = abs_elems src @ y # ys
   \<Longrightarrow> CopyDir src dst s \<noteq> (None, s')"
proof (induction src dst s arbitrary: y ys s' rule: CopyDir.induct)
  case (1 src dst s)
  show ?case
  proof
    assume run: "CopyDir src dst s = (None, s')"
    obtain info s1 es where st: "Stat s src = Inr info" and dir: "is_dir info"
      and mk: "MkdirAll s dst (mode_of info) = (None, s1)" and rd: "ReadDir s1 src = Inr es"
      and loop: "for_each (copy_entry src dst) es s1 = (None, s')"
      using CopyDir_None[OF run] .
    have rt: "is_rooted dst" using "1.prems"(3) straight_rooted by blast
    have p1: "plain_os s1" using wf_MkdirAll[OF mk] link_free_MkdirAll[OF mk] "1.prems"(1) by (auto simp: plain_os_def)
    obtain md where D1: "look (tree s1) ((abs_elems src @ [y]) @ ys) = Some (ADir md)"
      using MkdirAll_dir[OF mk _ _ rt] "1.prems"(1,4) by (auto simp: plain_os_def)
    have "\<exists>my. look (tree s1) (abs_elems src @ [y]) = Some (ADir my)"
    proof (cases ys)
      case (Cons z zs)
      from D1[unfolded Cons] show ?thesis by (rule look_dir_prefix)
    qed (use D1 in simp)
    then obtain my where "look (tree s1) (abs_elems src @ [y]) = Some (ADir my)" by blast
    then have mem: "(y, ADir my) \<in> set es" using ReadDir_plain(2)[OF rd p1 "1.prems"(2), of "(y, ADir my)"] by simp
    then have v: "valid_name y" using ReadDir_names[OF rd] by fastforce
    have keep: "plain_os b" if "x \<in> set es" "plain_os a" "copy_entry src dst x a = (None, b)" for x a b
      using copy_entry_confined[OF that(3,2) rt] ReadDir_names[OF rd that(1)] by blast
    have "\<exists>a b. plain_os a \<and> copy_entry src dst (y, ADir my) a = (None, b)"
      by (rule for_each_None_member[where I = plain_os and f = "copy_entry src dst" and xs = es, OF loop mem p1])
        (rule keep)
    then obtain a b where pa: "plain_os a" and c: "copy_entry src dst (y, ADir my) a = (None, b)" by blast
    have "CopyDir (path_join [src, y]) (path_join [dst, y]) a \<noteq> (None, b)"
    proof (rule "1.IH"[OF st _ mk[symmetric] refl rd mem, of _ _ a "hd (ys @ [y])" "tl (ys @ [y])"])
      show "abs_elems (path_join [dst, y]) = abs_elems (path_join [src, y]) @ hd (ys @ [y]) # tl (ys @ [y])"
        using v rt "1.prems"(2,4) rooted_nonempty by (cases ys) simp_all
    qed (use dir v rt pa "1.prems"(2) straight_join in simp_all)
    with c show False by simp
  qed
qed

lemma trim_fields_exported:
  "trim_fields fs \<noteq> None \<longleftrightarrow> (\<forall>v. StringField False v \<notin> set fs)"
  by (induction fs rule: trim_fields.induct) auto

section \<open>Well-formedness\<close>

lemma snd_os_result [simp]: "snd (os_result r) = snd r"
  by (simp add: os_result_def split: prod.split)

lemma wf_snd: "(\<And>r s'. f = (r, s') \<Longrightarrow> wf_os s') \<Longrightarrow> wf_os (snd f)"
  by (cases f) simp

lemma wf_MkDir: "wf_os s \<Longrightarrow> wf_os (snd (MkDir s p))"
  unfolding MkDir_def snd_os_result by (rule wf_snd) (rule wf_MkdirAll)

lemma wf_IsNotExistMkDir: "wf_os s \<Longrightarrow> wf_os (snd (IsNotExistMkDir s p))"
  by (rule wf_snd) (simp add: IsNotExistMkDir_adds)

lemma wf_for_each:
  assumes "\<And>x a. x \<in> set xs \<Longrightarrow> wf_os a \<Longrightarrow> wf_os (snd (f x a))" "wf_os s"
  shows "wf_os (snd (for_each f xs s))"
proof (rule wf_snd)
  fix r s' assume loop: "for_each f xs s = (r, s')"
  show "wf_os s'"
    by (rule for_each_invariant[where I = wf_os and f = f and xs = xs, OF _ loop assms(2)])
      (metis assms(1) snd_conv)
qed

lemma wf_CreateDir: "wf_os s \<Longrightarrow> wf_os (snd (CreateDir dirs s))"
  unfolding CreateDir_def
proof (rule wf_for_each)
  fix v a assume "wf_os a"
  then have "wf_os (snd (MkdirAll a v ModePerm))" by (intro wf_snd) (rule wf_MkdirAll)
  with \<open>wf_os a\<close> show "wf_os (snd (case CheckPathExists a v of (_, Some e) \<Rightarrow> (Some e, a)
      | (exist, None) \<Rightarrow> if \<not> exist then os_result (MkdirAll a v ModePerm) else (None, a)))"
    by (simp split: prod.split option.split)
qed

lemma wf_CopyFile: "wf_os s \<Longrightarrow> wf_os (snd (CopyFile src dst s))"
proof (rule wf_snd)
  fix r s' assume wf: "wf_os s" and run: "CopyFile src dst s = (r, s')"
  show "wf_os s'"
  proof (cases "Open s src")
    case (Inr p)
    obtain r1 s1 where mk: "IsNotExistMkDir s (path_dir dst) = (r1, s1)" by fastforce
    obtain r2 s2 where cr: "Create s1 dst = (r2, s2)" by fastforce
    have w1: "wf_os s1" using IsNotExistMkDir_adds[OF mk wf] by blast
    note w2 = wf_Create[OF cr w1]
    have w3: "wf_os (set_content q c s2)" if "r2 = Inr q" for q c using w2 that wf_set_content by blast
    from CopyFile_states[OF run Inr mk cr] show ?thesis using w1 w2 w3 wf_Chmod by metis
  qed (use run wf in \<open>simp add: CopyFile_def\<close>)
qed

lemma wf_CopyDir: "wf_os s \<Longrightarrow> wf_os (snd (CopyDir src dst s))"
proof (induction src dst s rule: CopyDir.induct)
  case (1 src dst s)
  show ?case
  proof (cases "Stat s src")
    case (Inr info)
    show ?thesis
    proof (cases "is_dir info")
      case True
      obtain r1 s1 where mk: "MkdirAll s dst (mode_of info) = (r1, s1)" by fastforce
      have w1: "wf_os s1" using wf_MkdirAll[OF mk "1.prems"] .
      show ?thesis
      proof (cases "r1 = None \<and> (\<exists>es. ReadDir s1 src = Inr es)")
        case False
        then show ?thesis using Inr True mk w1
          by (cases r1; cases "ReadDir s1 src") (simp_all add: CopyDir.simps[of src dst s])
      next
        case ok: True
        then obtain es where r1: "r1 = None" and es: "ReadDir s1 src = Inr es" by blast
        have "wf_os (snd (for_each (copy_entry src dst) es s1))"
        proof (rule wf_for_each[OF _ w1])
          fix x a assume x: "x \<in> set es" and a: "wf_os a"
          show "wf_os (snd (copy_entry src dst x a))"
            using "1.IH"[OF Inr _ mk[symmetric] r1 es x refl refl _ a] True wf_CopyFile[OF a] by simp
        qed
        then show ?thesis using Inr True mk r1 es by (simp add: CopyDir.simps[of src dst s] Let_def)
      qed
    qed (use Inr "1.prems" in \<open>simp add: CopyDir.simps[of src dst s]\<close>)
  qed (use "1.prems" in \<open>simp add: CopyDir.simps[of src dst s]\<close>)
qed

lemma wf_FileMove: "wf_os s \<Longrightarrow> wf_os (snd (FileMove src dst s))"
proof -
  assume wf: "wf_os s"
  let ?dir = "path_dir (Abs s dst)"
  let ?make = "\<lambda>s. case Stat s ?dir of Inr _ \<Rightarrow> (None, s) | Inl _ \<Rightarrow> MkdirAll s ?dir 493"
  have mk: "wf_os a'" if "?make a = (r, a')" "wf_os a" for a r a'
    using that wf_MkdirAll by (auto split: sum.splits)
  obtain r1 s1 where m1: "?make s = (r1, s1)" by fastforce
  obtain r2 s2 where m2: "?make s1 = (r2, s2)" by fastforce
  have w: "wf_os s1" "wf_os s2" using mk[OF m1 wf] mk[OF m2] by blast+
  have w3: "wf_os (snd (Rename s2 a b))" for a b using w(2) by (intro wf_snd) (rule wf_Rename)
  show ?thesis
    using w w3 wf m1 m2 by (cases r1; cases r2) (simp_all add: FileMove_def Let_def)
qed

lemma wf_DeLFile: "wf_os s \<Longrightarrow> wf_os (snd (DeLFile p s))"
  unfolding DeLFile_def snd_os_result by (rule wf_snd) (rule wf_RemoveAll)

lemma wf_FileWriter: "wf_os s \<Longrightarrow> wf_os (snd (FileWriter s p))"
  unfolding FileWriter_def by (rule wf_snd) (metis wf_OpenFile)

section \<open>Properties\<close>

text \<open>A file copy that reports success has made the target a file with the content and the mode of the
  source, found at the path \<open>dst\<close> afterwards; apart from missing parent directories nothing else has
  changed. When source and target are the same file, its content is lost and success is reported.\<close>

theorem CopyFile_copies:
  assumes "wf_os s" "Open s src = Inr p" "look (tree s) p = Some (AFile m c)"
    and "CopyFile src dst s = (None, s')"
  shows "\<exists>q. ReadFile s' dst = Inr (if q = p then [] else c) \<and> Stat s' dst = Inr (AFile m (if q = p then [] else c))
    \<and> (\<forall>x. x \<noteq> q \<longrightarrow> look (tree s') x = look (tree s) x
           \<or> (look (tree s) x = None \<and> (\<exists>k. look (tree s') x = Some (ADir k))))
    \<and> wf_os s'"
proof -
  obtain q where q: "locate s' True dst = Inr q" "look (tree s') q = Some (AFile m (if q = p then [] else c))"
    and fr: "\<And>x. x \<noteq> q \<Longrightarrow> look (tree s') x = look (tree s) x \<or> (look (tree s) x = None \<and> (\<exists>m. look (tree s') x = Some (ADir m)))"
    and wf: "wf_os s'"
    by (rule CopyFile_effect[OF assms(1-4)]) blast
  have "Stat s' dst = Inr (AFile m (if q = p then [] else c))" using Stat_of_locate q by simp
  moreover have "Open s' dst = Inr q" using q by (simp add: Open_locate)
  then have "ReadFile s' dst = Inr (if q = p then [] else c)"
    using q by (simp add: ReadFile_def read_all_def)
  ultimately show ?thesis using fr wf by blast
qed

text \<open>A small tree: \<open>/a\<close> with a file and a directory that holds a file.\<close>

definition small_tree :: osys where
  "small_tree = \<lparr>tree = Dir 493 [(''a'', Dir 493 [(''f'', File 420 ''x''), (''d'', Dir 448 [(''g'', File 384 ''y'')])])],
     cwd = [], umask = 18\<rparr>"

lemma link_free_File [simp]: "link_free (File m c)"
  unfolding link_free_def
proof (intro allI)
  fix x tg show "look (File m c) x \<noteq> Some (ALink tg)" by (cases x) simp_all
qed

lemma link_free_Dir:
  assumes "\<forall>e \<in> set es. link_free (snd e)"
  shows "link_free (Dir m es)"
  unfolding link_free_def
proof (intro allI)
  fix x tg
  show "look (Dir m es) x \<noteq> Some (ALink tg)"
  proof (cases x)
    case (Cons y ys)
    then show ?thesis using assms by (auto simp: link_free_def split: option.split dest!: map_of_SomeD)
  qed simp
qed

lemma small_tree_plain: "plain_os small_tree"
  by (auto simp: plain_os_def wf_os_def small_tree_def valid_name_def intro!: link_free_Dir)

lemma pair_of_fst: "fst r = a \<Longrightarrow> r = (a, snd r)"
  by (cases r) simp

theorem CopyFile_copies_witness:
  "\<exists>q. ReadFile (snd (CopyFile ''/a/f'' ''/b/f'' small_tree)) ''/b/f'' = Inr (if q = [''a'', ''f''] then [] else ''x'')
    \<and> Stat (snd (CopyFile ''/a/f'' ''/b/f'' small_tree)) ''/b/f'' = Inr (AFile 420 (if q = [''a'', ''f''] then [] else ''x''))"
proof -
  have "fst (CopyFile ''/a/f'' ''/b/f'' small_tree) = None" by code_simp
  then have run: "CopyFile ''/a/f'' ''/b/f'' small_tree = (None, snd (CopyFile ''/a/f'' ''/b/f'' small_tree))"
    by (rule pair_of_fst)
  have op: "Open small_tree ''/a/f'' = Inr [''a'', ''f'']" by code_simp
  have lk: "look (tree small_tree) [''a'', ''f''] = Some (AFile 420 ''x'')" by code_simp
  show ?thesis
    using CopyFile_copies[OF _ op lk run] small_tree_plain unfolding plain_os_def by blast
qed

text \<open>C20. In a tree without symbolic links a directory copy changes nothing but the place it copies to
  and missing directories on the way there, whether it succeeds or fails. When it succeeds and neither
  directory lies in the other, every file below the source is below the target with its content and its
  mode, and every directory is there.\<close>

theorem CopyDir_copies:
  assumes "plain_os s" "is_rooted src" "straight dst" "CopyDir src dst s = (r, s')"
  shows "confined (abs_elems dst) (tree s) (tree s') \<and> plain_os s'
    \<and> (r = None \<and> apart (abs_elems src) (abs_elems dst) \<longrightarrow>
         copied (tree s) (tree s') (abs_elems src) (abs_elems dst))"
  using CopyDir_confined[OF assms(4,1,3)] CopyDir_copied[OF _ assms(1-3)] assms(4) by blast

theorem CopyDir_copies_witness:
  "look (tree (snd (CopyDir ''/a'' ''/b'' small_tree))) [''b'', ''d'', ''g''] = Some (AFile 384 ''y'')"
proof -
  have "fst (CopyDir ''/a'' ''/b'' small_tree) = None" by code_simp
  then have run: "CopyDir ''/a'' ''/b'' small_tree = (None, snd (CopyDir ''/a'' ''/b'' small_tree))"
    by (rule pair_of_fst)
  have "is_rooted ''/a''" "straight ''/b''" "abs_elems ''/a'' = [''a'']" "abs_elems ''/b'' = [''b'']" by code_simp+
  moreover have "look (tree small_tree) [''a'', ''d'', ''g''] = Some (AFile 384 ''y'')" by code_simp
  moreover have "apart [''a''] [''b'']" by (simp add: apart_def)
  ultimately show ?thesis
    using CopyDir_copies[OF small_tree_plain _ _ run] by (auto simp: copied_def)
qed

text \<open>A directory copy always comes to an end, since the paths it visits grow up to the limit of the
  operating system; copying a directory to a place inside itself ends with an error every time, after it
  has filled the target with nested copies.\<close>

theorem CopyDir_into_itself_fails:
  assumes "plain_os s" "is_rooted src" "straight dst" "abs_elems dst = abs_elems src @ y # ys"
  shows "fst (CopyDir src dst s) \<noteq> None"
proof
  assume "fst (CopyDir src dst s) = None"
  from pair_of_fst[OF this] CopyDir_into_itself[OF assms] show False by blast
qed

theorem CopyDir_into_itself_fails_witness:
  "fst (CopyDir ''/a'' ''/a/b'' small_tree) \<noteq> None"
  by (rule CopyDir_into_itself_fails[OF small_tree_plain, of _ _ "''b''" "[]"]; code_simp)



end
