(* ===== verification/GoWalk.thy ===== *)
theory GoWalk
  imports GoFSPlain
begin

text \<open>
  The function \<open>filepath.Walk\<close>: the callback sees every path below a root, parents first and names in
  order, together with the result of \<open>Lstat\<close>; an error of the callback ends the walk. The walk reads
  the file system as it is at each moment: \<open>get\<close> takes it from the state of the callback. The
  callbacks of the code return no \<open>SkipDir\<close>.
\<close>

function walk ::
  "('s \<Rightarrow> osys) \<Rightarrow> (string \<Rightarrow> errno + entry \<Rightarrow> 's \<Rightarrow> 'e option \<times> 's) \<Rightarrow> string \<Rightarrow> entry \<Rightarrow> 's \<Rightarrow> 'e option \<times> 's" where
  "walk get fn path info s =
     (if \<not> is_dir info then fn path (Inr info) s
      else (case ReadDir (get s) path of
          Inl e \<Rightarrow> fn path (Inl e) s
        | Inr names \<Rightarrow>
            (case fn path (Inr info) s of
               (Some e, s) \<Rightarrow> (Some e, s)
             | (None, s) \<Rightarrow>
                 for_each (\<lambda>name s.
                   let filename = path_join [path, fst name] in
                   case Lstat (get s) filename of
                     Inl e \<Rightarrow> fn filename (Inl e) s
                   | Inr fileInfo \<Rightarrow> walk get fn filename fileInfo s) names s)))"
  by pat_completeness auto
termination
  by (relation "measure (\<lambda>(_, _, path, _, _). path_room path)") (auto dest!: ReadDir_names intro!: path_room_join)

declare walk.simps [simp del]

definition Walk ::
  "('s \<Rightarrow> osys) \<Rightarrow> (string \<Rightarrow> errno + entry \<Rightarrow> 's \<Rightarrow> 'e option \<times> 's) \<Rightarrow> string \<Rightarrow> 's \<Rightarrow> 'e option \<times> 's" where
  "Walk get fn root s =
     (case Lstat (get s) root of
        Inl e \<Rightarrow> fn root (Inl e) s
      | Inr info \<Rightarrow> walk get fn root info s)"

section \<open>Walks that leave the file system alone\<close>

text \<open>What the callback is shown when the file system does not change.\<close>

function visits :: "osys \<Rightarrow> string \<Rightarrow> entry \<Rightarrow> (string \<times> (errno + entry)) list" where
  "visits fs path info =
     (if \<not> is_dir info then [(path, Inr info)]
      else (case ReadDir fs path of
          Inl e \<Rightarrow> [(path, Inl e)]
        | Inr names \<Rightarrow>
            (path, Inr info) # concat (map (\<lambda>name.
              let filename = path_join [path, fst name] in
              case Lstat fs filename of
                Inl e \<Rightarrow> [(filename, Inl e)]
              | Inr fileInfo \<Rightarrow> visits fs filename fileInfo) names)))"
  by pat_completeness auto
termination
  by (relation "measure (\<lambda>(_, path, _). path_room path)") (auto dest!: ReadDir_names intro!: path_room_join)

declare visits.simps [simp del]

definition Visits :: "osys \<Rightarrow> string \<Rightarrow> (string \<times> (errno + entry)) list" where
  "Visits fs root = (case Lstat fs root of Inl e \<Rightarrow> [(root, Inl e)] | Inr info \<Rightarrow> visits fs root info)"

lemma for_each_concat:
  assumes "\<And>x a. x \<in> set xs \<Longrightarrow> I a \<Longrightarrow> f x a = for_each g (h x) a"
    and "\<And>y a r b. I a \<Longrightarrow> g y a = (r, b) \<Longrightarrow> I b" and "I s"
  shows "for_each f xs s = for_each g (concat (map h xs)) s"
  using assms(1,3)
proof (induction xs arbitrary: s)
  case (Cons x xs)
  obtain r a where ra: "for_each g (h x) s = (r, a)" by fastforce
  have Ia: "I a"
    by (rule for_each_invariant[where I = I and f = g and xs = "h x", OF _ ra Cons.prems(2)]) (rule assms(2))
  have "f x s = (r, a)" using Cons.prems(1)[of x s] Cons.prems(2) ra by simp
  moreover have "for_each f xs a = for_each g (concat (map h xs)) a"
    by (rule Cons.IH) (use Cons.prems(1) Ia in simp_all)
  ultimately show ?case using ra by (cases r) (simp_all add: for_each_append)
qed simp

lemma walk_visits:
  "(\<And>p i a r b. fn p i a = (r, b) \<Longrightarrow> get b = get a) \<Longrightarrow>
   walk get fn path info s = for_each (\<lambda>v. fn (fst v) (snd v)) (visits (get s) path info) s"
proof (induction get fn path info s rule: walk.induct)
  case (1 get fn path info s)
  note keep = "1.prems"
  let ?g = "\<lambda>v. fn (fst v) (snd v)"
  show ?case
  proof (cases "is_dir info")
    case False
    then show ?thesis
      by (simp add: walk.simps[of get fn path info] visits.simps[of _ path info] split: prod.split option.split)
  next
    case True
    show ?thesis
    proof (cases "ReadDir (get s) path")
      case (Inl e)
      with True show ?thesis
        by (simp add: walk.simps[of get fn path info] visits.simps[of _ path info] split: prod.split option.split)
    next
      case (Inr names)
      obtain r s1 where f: "fn path (Inr info) s = (r, s1)" by fastforce
      then have g1: "get s1 = get s" by (rule keep)
      let ?h = "\<lambda>name. case Lstat (get s) (path_join [path, fst name]) of
          Inl e \<Rightarrow> [(path_join [path, fst name], Inl e)]
        | Inr i \<Rightarrow> visits (get s) (path_join [path, fst name]) i"
      let ?f = "\<lambda>name s. case Lstat (get s) (path_join [path, fst name]) of
          Inl e \<Rightarrow> fn (path_join [path, fst name]) (Inl e) s
        | Inr i \<Rightarrow> walk get fn (path_join [path, fst name]) i s"
      show ?thesis
      proof (cases r)
        case None
        have "for_each ?f names s1 = for_each ?g (concat (map ?h names)) s1"
        proof (rule for_each_concat[where I = "\<lambda>a. get a = get s"])
          fix x a assume x: "x \<in> set names" and a: "get a = get s"
          show "?f x a = for_each ?g (?h x) a"
          proof (cases "Lstat (get s) (path_join [path, fst x])")
            case (Inl e)
            with a show ?thesis by (simp split: prod.split option.split)
          next
            case L: (Inr i)
            then show ?thesis
              using "1.IH"[OF _ Inr f[symmetric] None x refl, of a i] True a keep by simp
          qed
        qed (use keep g1 in auto)
        then show ?thesis
          using True Inr f None
          by (simp add: walk.simps[of get fn path info s] visits.simps[of "get s" path info] Let_def)
      qed (use True Inr f in \<open>simp add: walk.simps[of get fn path info s] visits.simps[of "get s" path info]\<close>)
    qed
  qed
qed

lemma Walk_Visits:
  assumes "\<And>p i a r b. fn p i a = (r, b) \<Longrightarrow> get b = get a"
  shows "Walk get fn root s = for_each (\<lambda>v. fn (fst v) (snd v)) (Visits (get s) root) s"
  using walk_visits[of fn get root _ s] assms
  by (auto simp: Walk_def Visits_def split: sum.split prod.split option.split)

end
