(* ===== verification/Archive.thy ===== *)
theory Archive
  imports Filex GoWalk
begin

text \<open>
  The archives of the package \<open>filex\<close> on the local file system (\<open>filex/zstd.go\<close>, \<open>filex/tar.go\<close>,
  \<open>filex/zip.go\<close>). The formats tar, gzip, zip and zstd are the parameter \<open>L\<close>: writers that turn what
  was written until \<open>Close\<close> into bytes, and readers that give the entries of a stream. An archive file
  gets its bytes when it is closed; until then it is empty.
\<close>

section \<open>The formats\<close>

datatype typeflag = TypeReg | TypeDir | TypeSymlink | TypeOther

record tar_header =
  Name :: string
  Mode :: int64
  Typeflag :: typeflag
  Linkname :: string
  Size :: nat

text \<open>A stream is its bytes and whether they end without an error. A tar reader gives the headers with
  what can be read of the content and whether that is all, and whether the end of the archive was
  reached. \<open>tar_peek\<close> tells whether a first header could be read, and what is then left of the stream.\<close>

type_synonym stream = "string \<times> bool"
type_synonym tar_item = "tar_header \<times> string \<times> bool"

record archlib =
  tar_bytes :: "(tar_header \<times> string) list \<Rightarrow> string"
  tar_read :: "stream \<Rightarrow> tar_item list \<times> bool"
  tar_peek :: "string \<Rightarrow> bool \<times> string"
  gzip_bytes :: "string \<Rightarrow> string"
  gzip_read :: "string \<Rightarrow> stream option"
  zstd_bytes :: "int64 \<Rightarrow> string \<Rightarrow> string"
  zstd_read :: "string \<Rightarrow> stream option"
  zip_bytes :: "(string \<times> string) list \<Rightarrow> string"
  zip_read :: "string \<Rightarrow> (string \<times> bool \<times> stream option) list option"

text \<open>Where an error comes from; the messages of the code name the stage.\<close>

datatype stage =
    MakeDir | CreateOut | StatSource | PackDir | OpenSource | OpenArchive | MakeReader | ReadData
  | MakeDst | ReadEntry | WalkDir | AddEntry | CopyContent

datatype arch_error =
    FileErr file_error
  | NoRelative
  | Corrupt
  | IllegalPath string
  | Unsupported string
  | At stage arch_error

abbreviation OsErr :: "errno \<Rightarrow> arch_error" where
  "OsErr e \<equiv> FileErr (OsError e)"

section \<open>Headers\<close>

text \<open>\<open>fs.FileMode\<close>: the type bits for directories (31) and links (27) over the permission bits.\<close>

definition file_mode :: "entry \<Rightarrow> 32 word" where
  "file_mode e = or (ucast (mode_of e)) (if is_dir e then 2147483648 else if is_link e then 134217728 else 0)"

definition perm_of_mode :: "int64 \<Rightarrow> perm" where
  "perm_of_mode m = ucast (ucast m :: 32 word)"

definition FileInfoHeader :: "entry \<Rightarrow> string \<Rightarrow> tar_header" where
  "FileInfoHeader fi name =
     \<lparr>Name = name, Mode = ucast (mode_of fi),
      Typeflag = (case fi of AFile _ _ \<Rightarrow> TypeReg | ADir _ \<Rightarrow> TypeDir | ALink _ \<Rightarrow> TypeSymlink),
      Linkname = [],
      Size = (case fi of AFile _ c \<Rightarrow> length c | _ \<Rightarrow> 0)\<rparr>"

section \<open>zstd archives\<close>

text \<open>The callback that packs one path of a directory; \<open>base\<close> is the directory the names are relative
  to. The headers and contents written so far are the state.\<close>

type_synonym packed = "(tar_header \<times> string) list"

definition pack_path :: "osys \<Rightarrow> string \<Rightarrow> string \<Rightarrow> errno + entry \<Rightarrow> packed \<Rightarrow> arch_error option \<times> packed" where
  "pack_path s base file info tw =
     (case info of
        Inl e \<Rightarrow> (Some (OsErr e), tw)
      | Inr fi \<Rightarrow>
          (case path_rel base file of
             None \<Rightarrow> (Some NoRelative, tw)
           | Some relPath \<Rightarrow>
               let header = FileInfoHeader fi relPath in
               if is_link fi then
                 (case Readlink s file of
                    Inl e \<Rightarrow> (Some (OsErr e), tw)
                  | Inr linkTarget \<Rightarrow>
                      (None, tw @ [(header\<lparr>Typeflag := TypeSymlink, Linkname := linkTarget\<rparr>, [])]))
               else if is_dir fi then (None, tw @ [(header, [])])
               else (case ReadFile s file of
                    Inl e \<Rightarrow> (Some (OsErr e), tw @ [(header, [])])
                  | Inr c \<Rightarrow> (None, tw @ [(header, c)]))))"

text \<open>What the compressor is given: the tar stream of a directory, or the bytes of a file. The second
  component is what was written when an error ended the work.\<close>

definition pack_source :: "archlib \<Rightarrow> osys \<Rightarrow> string \<Rightarrow> string \<Rightarrow> arch_error option \<times> string" where
  "pack_source L s srcPath base =
     (case Stat s srcPath of
        Inl e \<Rightarrow> (Some (At StatSource (OsErr e)), [])
      | Inr info \<Rightarrow>
          if is_dir info then
            (case Walk (\<lambda>_. s) (pack_path s base) srcPath [] of
               (Some e, tw) \<Rightarrow> (Some (At PackDir e), tar_bytes L tw)
             | (None, tw) \<Rightarrow> (None, tar_bytes L tw))
          else
            (case ReadFile s srcPath of
               Inl e \<Rightarrow> (Some (At OpenSource (OsErr e)), [])
             | Inr c \<Rightarrow> (None, c)))"

definition zst_name :: "string \<Rightarrow> string" where
  "zst_name p = (if path_ext p \<noteq> ''.zst'' then p @ ''.zst'' else p)"

definition level_of :: "int64 list \<Rightarrow> int64" where
  "level_of lv = (if 0 < length lv then lv ! 0 else 5)"

definition CompressZstd ::
  "archlib \<Rightarrow> string \<Rightarrow> string \<Rightarrow> int64 list \<Rightarrow> osys \<Rightarrow> (arch_error + string) \<times> osys" where
  "CompressZstd L srcPath dstPath lv s =
     (let dstPath = zst_name dstPath; encLevel = level_of lv in
      case Create s dstPath of
        (Inl e, s) \<Rightarrow> (Inl (At CreateOut (OsErr e)), s)
      | (Inr outFile, s) \<Rightarrow>
          (case pack_source L s srcPath (path_dir srcPath) of
             (Some err, bytes) \<Rightarrow> (Inl err, set_content outFile (zstd_bytes L encLevel bytes) s)
           | (None, bytes) \<Rightarrow> (Inr dstPath, set_content outFile (zstd_bytes L encLevel bytes) s)))"

text \<open>One entry of a tar archive unpacked below \<open>dstDir\<close>.\<close>

definition write_item :: "string \<Rightarrow> string \<Rightarrow> bool \<Rightarrow> osys \<Rightarrow> arch_error option \<times> osys" where
  "write_item targetPath body whole s =
     (case Create s targetPath of
        (Inl e, s) \<Rightarrow> (Some (OsErr e), s)
      | (Inr outFile, s) \<Rightarrow> (if whole then None else Some Corrupt, set_content outFile body s))"

definition unpack_item :: "string \<Rightarrow> tar_item \<Rightarrow> osys \<Rightarrow> arch_error option \<times> osys" where
  "unpack_item dstDir item s =
     (case item of (header, body, whole) \<Rightarrow>
      let targetPath = path_join [dstDir, Name header] in
      if \<not> has_prefix targetPath (path_clean dstDir @ ''/'') then (Some (IllegalPath targetPath), s)
      else (case Typeflag header of
          TypeDir \<Rightarrow>
            (case MkdirAll s targetPath (perm_of_mode (Mode header)) of (e, s) \<Rightarrow> (map_option OsErr e, s))
        | TypeReg \<Rightarrow>
            (case MkdirAll s (path_dir targetPath) 493 of
               (Some e, s) \<Rightarrow> (Some (OsErr e), s)
             | (None, s) \<Rightarrow> write_item targetPath body whole s)
        | _ \<Rightarrow> (None, s)))"

definition unpack_all :: "string \<Rightarrow> tar_item list \<times> bool \<Rightarrow> osys \<Rightarrow> arch_error option \<times> osys" where
  "unpack_all dstDir items s =
     (case for_each (unpack_item dstDir) (fst items) s of
        (Some e, s) \<Rightarrow> (Some e, s)
      | (None, s) \<Rightarrow> (if snd items then None else Some (At ReadEntry Corrupt), s))"

text \<open>The bytes of a stream that is no tar archive become one file.\<close>

definition write_single :: "string \<Rightarrow> string \<Rightarrow> bool \<Rightarrow> osys \<Rightarrow> arch_error option \<times> osys" where
  "write_single dstDir body whole s =
     (case MkdirAll s (path_dir dstDir) 493 of
        (Some e, s) \<Rightarrow> (Some (At MakeDst (OsErr e)), s)
      | (None, s) \<Rightarrow>
          (case Create s dstDir of
             (Inl e, s) \<Rightarrow> (Some (At CreateOut (OsErr e)), s)
           | (Inr outFile, s) \<Rightarrow>
               (if whole then None else Some (At CopyContent Corrupt), set_content outFile body s)))"

definition unpack_data :: "archlib \<Rightarrow> string \<Rightarrow> string \<Rightarrow> osys \<Rightarrow> arch_error option \<times> osys" where
  "unpack_data L dstDir decompressedData s =
     (if fst (tar_peek L decompressedData) then
        (case MkdirAll s dstDir 493 of
           (Some e, s) \<Rightarrow> (Some (At MakeDst (OsErr e)), s)
         | (None, s) \<Rightarrow> unpack_all dstDir (tar_read L (decompressedData, True)) s)
      else write_single dstDir decompressedData True s)"

definition DecompressZstd :: "archlib \<Rightarrow> string \<Rightarrow> string \<Rightarrow> osys \<Rightarrow> (arch_error + string) \<times> osys" where
  "DecompressZstd L srcPath dstDir s =
     (case Open s srcPath of
        Inl e \<Rightarrow> (Inl (At OpenArchive (OsErr e)), s)
      | Inr inFile \<Rightarrow>
          (case read_all s inFile of
             Inl e \<Rightarrow> (Inl (At ReadData (OsErr e)), s)
           | Inr bytes \<Rightarrow>
               (case zstd_read L bytes of
                  None \<Rightarrow> (Inl (At MakeReader Corrupt), s)
                | Some (decompressedData, ok) \<Rightarrow>
                    if \<not> ok then (Inl (At ReadData Corrupt), s)
                    else (case unpack_data L dstDir decompressedData s of
                            (Some e, s) \<Rightarrow> (Inl e, s)
                          | (None, s) \<Rightarrow> (Inr dstDir, s)))))"

section \<open>tar.gz archives\<close>

text \<open>The callback of the functions that pack with gzip: \<open>name\<close> and \<open>mode\<close> give the name and the mode
  in the header. A link is written without its target.\<close>

definition tar_path ::
  "osys \<Rightarrow> string \<Rightarrow> (string \<Rightarrow> string) \<Rightarrow> (entry \<Rightarrow> int64) \<Rightarrow> string \<Rightarrow> errno + entry \<Rightarrow> packed
   \<Rightarrow> arch_error option \<times> packed" where
  "tar_path s src name mode filePath info tw =
     (case info of
        Inl e \<Rightarrow> (Some (OsErr e), tw)
      | Inr fi \<Rightarrow>
          (case path_rel src filePath of
             None \<Rightarrow> (Some NoRelative, tw)
           | Some relPath \<Rightarrow>
               let header = FileInfoHeader fi (name relPath)\<lparr>Mode := mode fi\<rparr> in
               if is_regular fi then
                 (case ReadFile s filePath of
                    Inl e \<Rightarrow> (Some (OsErr e), tw @ [(header, [])])
                  | Inr c \<Rightarrow> (None, tw @ [(header, c)]))
               else (None, tw @ [(header, [])])))"

definition compress_tar ::
  "archlib \<Rightarrow> string \<Rightarrow> string \<Rightarrow> (string \<Rightarrow> string) \<Rightarrow> (entry \<Rightarrow> int64) \<Rightarrow> osys \<Rightarrow> arch_error option \<times> osys" where
  "compress_tar L src dst name mode s =
     (case IsNotExistMkDir s (path_dir dst) of
        (Some e, s) \<Rightarrow> (Some (At MakeDir (FileErr e)), s)
      | (None, s) \<Rightarrow>
          (case Create s dst of
             (Inl e, s) \<Rightarrow> (Some (OsErr e), s)
           | (Inr outputFile, s) \<Rightarrow>
               (case Walk (\<lambda>_. s) (tar_path s src name mode) src [] of
                  (err, tw) \<Rightarrow> (err, set_content outputFile (gzip_bytes L (tar_bytes L tw)) s))))"

definition perm_mode :: "entry \<Rightarrow> int64" where
  "perm_mode fi = ucast (mode_of fi)"

definition full_mode :: "entry \<Rightarrow> int64" where
  "full_mode fi = ucast (file_mode fi)"

definition CompressFilesOrFolds :: "archlib \<Rightarrow> string \<Rightarrow> string \<Rightarrow> osys \<Rightarrow> arch_error option \<times> osys" where
  "CompressFilesOrFolds L src dst s = compress_tar L src dst (\<lambda>relPath. relPath) perm_mode s"

definition tar_base_name :: "string \<Rightarrow> string \<Rightarrow> string" where
  "tar_base_name baseDir relPath = (if relPath = ''.'' then baseDir else baseDir @ ''/'' @ relPath)"

definition CompressFilesOrFoldsBase :: "archlib \<Rightarrow> string \<Rightarrow> string \<Rightarrow> osys \<Rightarrow> arch_error option \<times> osys" where
  "CompressFilesOrFoldsBase L src dst s = compress_tar L src dst (tar_base_name (path_base src)) full_mode s"

definition untar_item :: "string \<Rightarrow> tar_item \<Rightarrow> osys \<Rightarrow> arch_error option \<times> osys" where
  "untar_item dst item s =
     (case item of (header, body, whole) \<Rightarrow>
      let targetPath = path_join [dst, Name header] in
      case Typeflag header of
        TypeDir \<Rightarrow> (None, snd (MkdirAll s targetPath (perm_of_mode (Mode header))))
      | TypeReg \<Rightarrow> write_item targetPath body whole (snd (MkdirAll s (path_dir targetPath) 493))
      | _ \<Rightarrow> (None, s))"

definition DecompressTarGz :: "archlib \<Rightarrow> string \<Rightarrow> string \<Rightarrow> osys \<Rightarrow> arch_error option \<times> osys" where
  "DecompressTarGz L tarFile dst s =
     (case ReadFile s tarFile of
        Inl e \<Rightarrow> (Some (OsErr e), s)
      | Inr bytes \<Rightarrow>
          (case gzip_read L bytes of
             None \<Rightarrow> (Some Corrupt, s)
           | Some str \<Rightarrow>
               (case for_each (untar_item dst) (fst (tar_read L str)) s of
                  (Some e, s) \<Rightarrow> (Some e, s)
                | (None, s) \<Rightarrow> (if snd (tar_read L str) then None else Some Corrupt, s))))"

section \<open>Volumes\<close>

text \<open>The state of the functions that write several volumes: the file being written, what was written
  to it, the bytes counted and the number of the volume.\<close>

record 'e volumes =
  vol_os :: osys
  outputFile :: "string list option"
  written :: "'e list"
  currentSize :: int64
  partNumber :: int64

definition close_volume :: "('e list \<Rightarrow> string) \<Rightarrow> 'e volumes \<Rightarrow> 'e volumes" where
  "close_volume bytes v =
     (case outputFile v of
        None \<Rightarrow> v
      | Some q \<Rightarrow> v\<lparr>vol_os := set_content q (bytes (written v)) (vol_os v)\<rparr>)"

definition part_name :: "string \<Rightarrow> int64 \<Rightarrow> string \<Rightarrow> string" where
  "part_name prefix n ext = (if 0 < sint n then prefix @ ''_'' @ itoa (sint n) @ ext else prefix @ ext)"

definition createNewSplitFile ::
  "('e list \<Rightarrow> string) \<Rightarrow> string \<Rightarrow> string \<Rightarrow> string \<Rightarrow> 'e volumes \<Rightarrow> arch_error option \<times> 'e volumes" where
  "createNewSplitFile bytes ext destDir prefix v =
     (let v = close_volume bytes v;
          partFilePath = path_join [destDir, part_name prefix (partNumber v) ext]
      in case Create (vol_os v) partFilePath of
           (Inl e, s) \<Rightarrow> (Some (OsErr e), v\<lparr>vol_os := s\<rparr>)
         | (Inr file, s) \<Rightarrow> (None, v\<lparr>vol_os := s, outputFile := Some file, written := []\<rparr>))"

definition defaultMaxSize :: int64 where
  "defaultMaxSize = 10 * 1024 * 1024 * 1024"

definition no_volume :: "osys \<Rightarrow> 'e volumes" where
  "no_volume s = \<lparr>vol_os = s, outputFile = None, written = [], currentSize = 0, partNumber = 0\<rparr>"

text \<open>A file of \<open>n\<close> bytes has been added: a new volume when the limit is reached.\<close>

definition after_copy ::
  "('e list \<Rightarrow> string) \<Rightarrow> string \<Rightarrow> string \<Rightarrow> string \<Rightarrow> int64 \<Rightarrow> nat \<Rightarrow> 'e volumes \<Rightarrow> arch_error option \<times> 'e volumes" where
  "after_copy bytes ext destDir prefix maxSize n v =
     (let v = v\<lparr>currentSize := currentSize v + of_nat n\<rparr> in
      if sint maxSize \<le> sint (currentSize v) then
        (case createNewSplitFile bytes ext destDir prefix (v\<lparr>partNumber := partNumber v + 1\<rparr>) of
           (Some e, v) \<Rightarrow> (Some e, v)
         | (None, v) \<Rightarrow> (None, v\<lparr>currentSize := 0\<rparr>))
      else (None, v))"

definition split_tar_path ::
  "archlib \<Rightarrow> string \<Rightarrow> string \<Rightarrow> string \<Rightarrow> int64 \<Rightarrow> string \<Rightarrow> errno + entry \<Rightarrow> (tar_header \<times> string) volumes
   \<Rightarrow> arch_error option \<times> (tar_header \<times> string) volumes" where
  "split_tar_path L src destDir prefix maxSize filePath info v =
     (case info of
        Inl e \<Rightarrow> (Some (OsErr e), v)
      | Inr fi \<Rightarrow>
          (case path_rel src filePath of
             None \<Rightarrow> (Some NoRelative, v)
           | Some relPath \<Rightarrow>
               let header = FileInfoHeader fi relPath in
               if is_regular fi then
                 (case ReadFile (vol_os v) filePath of
                    Inl e \<Rightarrow> (Some (OsErr e), v\<lparr>written := written v @ [(header, [])]\<rparr>)
                  | Inr c \<Rightarrow>
                      after_copy (\<lambda>tw. gzip_bytes L (tar_bytes L tw)) ''.tar.gz'' destDir prefix maxSize (length c)
                        (v\<lparr>written := written v @ [(header, c)]\<rparr>))
               else (None, v\<lparr>written := written v @ [(header, [])]\<rparr>)))"

definition CompressAndSplitFiles ::
  "archlib \<Rightarrow> string \<Rightarrow> string \<Rightarrow> string \<Rightarrow> int64 \<Rightarrow> osys \<Rightarrow> arch_error option \<times> osys" where
  "CompressAndSplitFiles L src dst prefix maxSize s =
     (let destDir = path_dir dst; bytes = (\<lambda>tw. gzip_bytes L (tar_bytes L tw)) in
      case IsNotExistMkDir s destDir of
        (Some e, s) \<Rightarrow> (Some (At MakeDir (FileErr e)), s)
      | (None, s) \<Rightarrow>
          (let maxSize = if sint defaultMaxSize < sint maxSize then defaultMaxSize else maxSize in
           case createNewSplitFile bytes ''.tar.gz'' destDir prefix (no_volume s) of
             (Some e, v) \<Rightarrow> (Some e, vol_os v)
           | (None, v) \<Rightarrow>
               (case Walk vol_os (split_tar_path L src destDir prefix maxSize) src v of
                  (err, v) \<Rightarrow> (err, vol_os (close_volume bytes v)))))"

section \<open>zip archives\<close>

type_synonym zipped = "(string \<times> string) list"

text \<open>The callback of \<open>ZipDir\<close> and \<open>ZipDirBase\<close>; opening a link opens what it points to.\<close>

definition zip_path ::
  "osys \<Rightarrow> string \<Rightarrow> (string \<Rightarrow> string) \<Rightarrow> string \<Rightarrow> errno + entry \<Rightarrow> zipped \<Rightarrow> arch_error option \<times> zipped" where
  "zip_path s dir name path info w =
     (case info of
        Inl e \<Rightarrow> (Some (At WalkDir (OsErr e)), w)
      | Inr fi \<Rightarrow>
          if is_dir fi then (None, w)
          else (case path_rel dir path of
              None \<Rightarrow> (Some NoRelative, w)
            | Some relPath \<Rightarrow>
                (case Open s path of
                   Inl e \<Rightarrow> (Some (At OpenSource (OsErr e)), w @ [(name relPath, [])])
                 | Inr fSrc \<Rightarrow>
                     (case read_all s fSrc of
                        Inl e \<Rightarrow> (Some (At CopyContent (OsErr e)), w @ [(name relPath, [])])
                      | Inr c \<Rightarrow> (None, w @ [(name relPath, c)])))))"

definition zip_into ::
  "archlib \<Rightarrow> string \<Rightarrow> string \<Rightarrow> (string \<Rightarrow> string) \<Rightarrow> osys \<Rightarrow> (arch_error + arch_error option) \<times> osys" where
  "zip_into L dir zipFile name s =
     (case IsNotExistMkDir s (path_dir zipFile) of
        (Some e, s) \<Rightarrow> (Inl (At MakeDir (FileErr e)), s)
      | (None, s) \<Rightarrow>
          (case Create s zipFile of
             (Inl e, s) \<Rightarrow> (Inl (At CreateOut (OsErr e)), s)
           | (Inr fz, s) \<Rightarrow>
               (case Walk (\<lambda>_. s) (zip_path s dir name) dir [] of
                  (err, w) \<Rightarrow> (Inr err, set_content fz (zip_bytes L w) s))))"

definition ZipDir :: "archlib \<Rightarrow> string \<Rightarrow> string \<Rightarrow> osys \<Rightarrow> arch_error option \<times> osys" where
  "ZipDir L dir zipFile s =
     (case zip_into L dir zipFile (\<lambda>relPath. relPath) s of
        (Inl e, s) \<Rightarrow> (Some e, s)
      | (Inr err, s) \<Rightarrow> (err, s))"

text \<open>\<open>ZipDirBase\<close> does not look at the result of its walk.\<close>

definition ZipDirBase :: "archlib \<Rightarrow> string \<Rightarrow> string \<Rightarrow> osys \<Rightarrow> arch_error option \<times> osys" where
  "ZipDirBase L dir zipFile s =
     (case zip_into L dir zipFile (\<lambda>relPath. path_join [path_base dir, relPath]) s of
        (Inl e, s) \<Rightarrow> (Some e, s)
      | (Inr _, s) \<Rightarrow> (None, s))"

definition unzip_item :: "string \<Rightarrow> string \<times> bool \<times> stream option \<Rightarrow> osys \<Rightarrow> arch_error option \<times> osys" where
  "unzip_item dir f s =
     (case f of (name, isdir, str) \<Rightarrow>
      let path = path_join [dir, name] in
      if isdir then
        (case MkdirAll s path ModePerm of (e, s) \<Rightarrow> (map_option (\<lambda>e. At MakeDir (OsErr e)) e, s))
      else (case MkdirAll s (path_dir path) ModePerm of
          (Some e, s) \<Rightarrow> (Some (At MakeDir (OsErr e)), s)
        | (None, s) \<Rightarrow>
            (case str of
               None \<Rightarrow> (Some (At OpenSource Corrupt), s)
             | Some (body, whole) \<Rightarrow>
                 (case Create s path of
                    (Inl e, s) \<Rightarrow> (Some (At CreateOut (OsErr e)), s)
                  | (Inr fDest, s) \<Rightarrow>
                      (if whole then None else Some (At CopyContent Corrupt), set_content fDest body s)))))"

definition UnzipDir :: "archlib \<Rightarrow> string \<Rightarrow> string \<Rightarrow> osys \<Rightarrow> arch_error option \<times> osys" where
  "UnzipDir L zipFile dir s =
     (case MkdirAll s dir ModePerm of
        (Some e, s) \<Rightarrow> (Some (OsErr e), s)
      | (None, s) \<Rightarrow>
          (case ReadFile s zipFile of
             Inl e \<Rightarrow> (Some (OsErr e), s)
           | Inr bytes \<Rightarrow>
               (case zip_read L bytes of
                  None \<Rightarrow> (Some Corrupt, s)
                | Some files \<Rightarrow> for_each (unzip_item dir) files s)))"

definition split_zip_path ::
  "archlib \<Rightarrow> string \<Rightarrow> string \<Rightarrow> string \<Rightarrow> int64 \<Rightarrow> string \<Rightarrow> errno + entry \<Rightarrow> (string \<times> string) volumes
   \<Rightarrow> arch_error option \<times> (string \<times> string) volumes" where
  "split_zip_path L src outputDir prefix maxSize filePath info v =
     (case info of
        Inl e \<Rightarrow> (Some (At WalkDir (OsErr e)), v)
      | Inr fi \<Rightarrow>
          if is_dir fi then (None, v)
          else (case path_rel src filePath of
              None \<Rightarrow> (Some NoRelative, v)
            | Some relPath \<Rightarrow>
                (case Open (vol_os v) filePath of
                   Inl e \<Rightarrow> (Some (At OpenSource (OsErr e)), v\<lparr>written := written v @ [(relPath, [])]\<rparr>)
                 | Inr fSrc \<Rightarrow>
                     (case read_all (vol_os v) fSrc of
                        Inl e \<Rightarrow> (Some (At CopyContent (OsErr e)), v\<lparr>written := written v @ [(relPath, [])]\<rparr>)
                      | Inr c \<Rightarrow>
                          after_copy (zip_bytes L) ''.zip'' outputDir prefix maxSize (length c)
                            (v\<lparr>written := written v @ [(relPath, c)]\<rparr>)))))"

definition ZipDirAndSplit ::
  "archlib \<Rightarrow> string \<Rightarrow> string \<Rightarrow> string \<Rightarrow> int64 \<Rightarrow> osys \<Rightarrow> arch_error option \<times> osys" where
  "ZipDirAndSplit L src dst prefix maxSize s =
     (let outputDir = path_dir dst in
      case IsNotExistMkDir s outputDir of
        (Some e, s) \<Rightarrow> (Some (At MakeDir (FileErr e)), s)
      | (None, s) \<Rightarrow>
          (case createNewSplitFile (zip_bytes L) ''.zip'' outputDir prefix (no_volume s) of
             (Some e, v) \<Rightarrow> (Some e, vol_os v)
           | (None, v) \<Rightarrow>
               (case Walk vol_os (split_zip_path L src outputDir prefix maxSize) src v of
                  (err, v) \<Rightarrow> (err, vol_os (close_volume (zip_bytes L) v)))))"

section \<open>The format by platform and by suffix\<close>

definition CompressAuto :: "archlib \<Rightarrow> bool \<Rightarrow> string \<Rightarrow> string \<Rightarrow> osys \<Rightarrow> string \<times> arch_error option \<times> osys" where
  "CompressAuto L windows src dst s =
     (if windows then (dst @ ''.zip'', ZipDirBase L src (dst @ ''.zip'') s)
      else (dst @ ''.tar.gz'', CompressFilesOrFoldsBase L src (dst @ ''.tar.gz'') s))"

definition DecompressAuto :: "archlib \<Rightarrow> string \<Rightarrow> string \<Rightarrow> osys \<Rightarrow> arch_error option \<times> osys" where
  "DecompressAuto L filePath dst s =
     (if has_suffix filePath ''.zip'' then UnzipDir L filePath dst s
      else if has_suffix filePath ''.tar.gz'' then DecompressTarGz L filePath dst s
      else (Some (Unsupported filePath), s))"

end
