(* ===== verification/ArchiveFacts.thy ===== *)
theory ArchiveFacts
  imports Archive
begin

text \<open>
  What unpacking an archive may touch, and that an archive of a directory restores its files: the
  properties of the functions of \<open>filex/zstd.go\<close>, \<open>filex/tar.go\<close> and \<open>filex/zip.go\<close>.
\<close>

section \<open>Paths below a directory\<close>

lemma kept_ok_all: "kept_ok True ks \<Longrightarrow> e \<in> set ks \<Longrightarrow> e \<noteq> [] \<and> e \<noteq> ''.'' \<and> e \<noteq> ''..'' \<and> CHR ''/'' \<notin> set e"
  by (induction ks) auto

lemma abs_elems_all: "e \<in> set (abs_elems p) \<Longrightarrow> e \<noteq> [] \<and> e \<noteq> ''.'' \<and> e \<noteq> ''..'' \<and> CHR ''/'' \<notin> set e"
  unfolding abs_elems_def using kept_ok_all[OF path_elems_kept_ok, of e p] by simp

lemma split_join_abs:
  assumes "\<forall>e \<in> set es. CHR ''/'' \<notin> set e" "es \<noteq> []"
  shows "split_char (CHR ''/'') (CHR ''/'' # join es ''/'') = [] # es"
  using split_char_join[OF assms(2,1)] by simp

lemma clean_rooted: "is_rooted p \<Longrightarrow> path_clean p = CHR ''/'' # join (abs_elems p) ''/''"
  by (simp add: path_clean_def abs_elems_def)

lemma straight_clean: "is_rooted p \<Longrightarrow> straight (path_clean p)"
proof (cases "abs_elems p = []")
  case False
  assume "is_rooted p"
  then show ?thesis
    using split_join_abs[OF _ False] abs_elems_all unfolding straight_def clean_rooted[OF \<open>is_rooted p\<close>]
    by (auto simp: is_rooted_def)
qed (simp add: clean_rooted straight_def is_rooted_def)

declare abs_elems_clean [simp]

lemma path_join_rooted:
  assumes "is_rooted d"
  shows "path_join [d, n] = path_clean (d @ ''/'' @ n)"
  using assms by (simp add: path_join_def is_rooted_def)

lemma straight_join_any: "is_rooted d \<Longrightarrow> straight (path_join [d, n])"
  by (simp add: path_join_rooted straight_clean rooted_nonempty)

text \<open>The check of the code: a path that starts with the clean directory and a slash lies below it.\<close>

lemma prefix_below:
  assumes "is_rooted d" "is_rooted p" "has_prefix (path_clean p) (path_clean d @ ''/'')"
  shows "\<exists>x xs. abs_elems p = abs_elems d @ x # xs"
proof -
  let ?D = "abs_elems d" and ?P = "abs_elems p"
  obtain t where t: "CHR ''/'' # join ?P ''/'' = (CHR ''/'' # join ?D ''/'') @ CHR ''/'' # t"
    using assms by (auto simp: has_prefix_iff clean_rooted)
  have P: "?P \<noteq> []" using t by auto
  have eq: "[] # ?P = split_char (CHR ''/'') (CHR ''/'' # join ?D ''/'') @ split_char (CHR ''/'') t"
    using split_join_abs[OF _ P] abs_elems_all t by (metis split_char_sep)
  have "?D \<noteq> []"
  proof
    assume "?D = []"
    with eq have "?P = [] # split_char (CHR ''/'') t" by simp
    then show False using abs_elems_all[of "[]" p] by simp
  qed
  then have "[] # ?P = ([] # ?D) @ split_char (CHR ''/'') t"
    using eq split_join_abs[of ?D] abs_elems_all by metis
  then show ?thesis by (cases "split_char (CHR ''/'') t") simp_all
qed

lemma path_dir_clean_abs:
  assumes "is_rooted p" "abs_elems p = es @ [x]"
  shows "abs_elems (path_dir (path_clean p)) = es \<and> straight (path_dir (path_clean p))"
proof -
  have x: "x \<noteq> []" "CHR ''/'' \<notin> set x" using abs_elems_all[of x p] assms(2) by auto
  have c: "path_clean p = (if es = [] then ''/'' @ x else (CHR ''/'' # join es ''/'') @ CHR ''/'' # x)"
    using clean_rooted[OF assms(1)] assms(2) by (simp add: join_snoc)
  have d: "rev (dropWhile (\<lambda>c. c \<noteq> CHR ''/'') (rev (u @ CHR ''/'' # x))) = u @ ''/''" for u
    using x(2) by (auto simp: dropWhile_append3)
  have pd: "path_dir (path_clean p) = path_clean (if es = [] then ''/'' else (CHR ''/'' # join es ''/'') @ ''/'')"
    unfolding path_dir_def c using d[of "[]"] d[of "CHR ''/'' # join es ''/''"] by simp
  have ok: "kept_ok True (rev es)"
    using path_elems_kept_ok[of True p] assms(2) by (simp add: abs_elems_def)
  have el: "path_elems True (if es = [] then ''/'' else (CHR ''/'' # join es ''/'') @ ''/'') = es"
    using path_elems_snoc_slash[of True "CHR ''/'' # join es ''/''"] path_elems_join_kept[OF ok]
    by (auto simp: path_elems_def push_elem_def)
  have rt: "is_rooted (if es = [] then ''/'' else (CHR ''/'' # join es ''/'') @ ''/'')" by (simp add: is_rooted_def)
  show ?thesis unfolding pd using straight_clean[OF rt] abs_elems_clean[OF rt] el by (simp add: abs_elems_def)
qed

section \<open>Writing below a directory\<close>

text \<open>Making the parents of a path and writing the file there, on a plain file system.\<close>

lemma plain_MkdirAll:
  assumes "MkdirAll s p m = (r, s')" "plain_os s"
  shows "plain_os s'"
  using wf_MkdirAll[OF assms(1)] link_free_MkdirAll[OF assms(1)] assms(2) by (auto simp: plain_os_def)

lemma plain_Create_content:
  assumes "Create s p = (Inr q, s')" "plain_os s"
  shows "plain_os s' \<and> plain_os (set_content q c s')"
proof -
  have "wf_os s' \<and> list_all valid_name q" using wf_Create[OF assms(1)] assms(2) by (simp add: plain_os_def)
  moreover have "link_free (tree s')" using link_free_OpenFile assms by (auto simp: plain_os_def Create_def)
  ultimately show ?thesis using wf_set_content link_free_set_content by (auto simp: plain_os_def)
qed

lemma Create_at:
  assumes "Create s p = (Inr q, s')" "plain_os s" "is_rooted p"
  shows "q = abs_elems p" "\<exists>k. look (tree (set_content q c s')) q = Some (AFile k c)"
    "\<And>x. x \<noteq> q \<Longrightarrow> look (tree (set_content q c s')) x = look (tree s) x"
proof -
  have w: "wf_os s" using assms(2) by (simp add: plain_os_def)
  note o = OpenFile_Inr[OF assms(1)[unfolded Create_def] w]
  show "q = abs_elems p" using plain_locate[OF _ assms(3) o(1)] assms(2) by (simp add: plain_os_def)
  show "\<exists>k. look (tree (set_content q c s')) q = Some (AFile k c)" using o(4) by auto
  show "look (tree (set_content q c s')) x = look (tree s) x" if "x \<noteq> q" for x using o(3) that by simp
qed

lemma write_item_plain:
  assumes "write_item p body whole s = (r, s')" "plain_os s" "is_rooted p"
  shows "plain_os s'" "\<And>x. x \<noteq> abs_elems p \<Longrightarrow> look (tree s') x = look (tree s) x"
    "r = None \<Longrightarrow> whole \<and> (\<exists>k. look (tree s') (abs_elems p) = Some (AFile k body))"
proof -
  obtain rc sc where c: "Create s p = (rc, sc)" by fastforce
  have "plain_os s' \<and> (\<forall>x. x \<noteq> abs_elems p \<longrightarrow> look (tree s') x = look (tree s) x)
    \<and> (r = None \<longrightarrow> whole \<and> (\<exists>k. look (tree s') (abs_elems p) = Some (AFile k body)))"
  proof (cases rc)
    case (Inl e)
    then have "sc = s" using c OpenFile_Inl by (metis Create_def)
    with Inl c assms show ?thesis by (auto simp: write_item_def)
  next
    case (Inr q)
    with c assms(1) have s': "s' = set_content q body sc" "r = (if whole then None else Some Corrupt)"
      by (simp_all add: write_item_def)
    note at = Create_at[OF c[unfolded Inr] assms(2,3)]
    then show ?thesis using plain_Create_content[OF c[unfolded Inr] assms(2)] s' by (auto split: if_splits)
  qed
  then show "plain_os s'" "\<And>x. x \<noteq> abs_elems p \<Longrightarrow> look (tree s') x = look (tree s) x"
    "r = None \<Longrightarrow> whole \<and> (\<exists>k. look (tree s') (abs_elems p) = Some (AFile k body))" by blast+
qed

lemma plain_upto: "MkdirAll s p m = (r, s') \<Longrightarrow> plain_os s \<Longrightarrow> straight p \<Longrightarrow> dirs_upto (abs_elems p) (tree s) (tree s')"
  using MkdirAll_upto by (simp add: plain_os_def)

text \<open>What one unpacked entry changes.\<close>

lemma unpack_item_plain:
  assumes "unpack_item d (h, body, whole) s = (r, s')" "plain_os s" "is_rooted d"
  defines "T \<equiv> abs_elems (path_join [d, Name h])"
  shows "plain_os s' \<and> confined (abs_elems d) (tree s) (tree s')
    \<and> (\<forall>x m c. x \<noteq> T \<longrightarrow> look (tree s) x = Some (AFile m c) \<longrightarrow> look (tree s') x = Some (AFile m c))
    \<and> (r = None \<and> Typeflag h = TypeReg \<longrightarrow> whole \<and> (\<exists>k. look (tree s') T = Some (AFile k body)))"
proof (cases "has_prefix (path_join [d, Name h]) (path_clean d @ ''/'')")
  case False
  with assms(1,2) show ?thesis by (auto simp: unpack_item_def)
next
  case True
  let ?t = "path_join [d, Name h]"
  let ?raw = "d @ ''/'' @ Name h"
  have t: "?t = path_clean ?raw" and raw: "is_rooted ?raw"
    using path_join_rooted[OF assms(3)] assms(3) by (simp_all add: rooted_nonempty)
  have st: "straight ?t" "is_rooted ?t" using straight_join_any[OF assms(3)] straight_rooted by blast+
  have T: "T = abs_elems ?raw" unfolding T_def t using raw by simp
  obtain x xs where below: "T = abs_elems d @ x # xs"
    using prefix_below[OF assms(3) raw] True T t by metis
  have TD: "below (abs_elems d) T" using below by simp
  show ?thesis
  proof (cases "Typeflag h")
    case TypeDir
    obtain r1 s1 where mk: "MkdirAll s ?t (perm_of_mode (Mode h)) = (r1, s1)" by fastforce
    then have s1: "s' = s1" using assms(1) True TypeDir by (simp add: unpack_item_def)
    have "confined T (tree s) (tree s1)" using plain_upto[OF mk assms(2) st(1)] dirs_upto_confined T_def by blast
    moreover have "adds_dirs (tree s) (tree s1)" using MkdirAll_adds[OF mk] assms(2) by (simp add: plain_os_def)
    ultimately show ?thesis
      using s1 plain_MkdirAll[OF mk assms(2)] confined_below[OF _ TD] adds_dirs_Some TypeDir by auto
  next
    case TypeReg
    obtain es y where es: "T = es @ [y]" "below (abs_elems d) es"
      using below by (metis append_butlast_last_id below_append butlast_append list.discI append_is_Nil_conv butlast.simps(2))
    obtain r1 s1 where mk: "MkdirAll s (path_dir ?t) 493 = (r1, s1)" by fastforce
    have pd: "abs_elems (path_dir ?t) = es" "straight (path_dir ?t)"
      using path_dir_clean_abs[OF raw] es(1) T t by metis+
    have p1: "plain_os s1" using plain_MkdirAll[OF mk assms(2)] .
    have c1: "confined (abs_elems d) (tree s) (tree s1)"
      using plain_upto[OF mk assms(2) pd(2)] dirs_upto_confined confined_below es(2) pd(1) by metis
    have a1: "adds_dirs (tree s) (tree s1)" using MkdirAll_adds[OF mk] assms(2) by (simp add: plain_os_def)
    show ?thesis
    proof (cases r1)
      case (Some e)
      then have "s' = s1" "r \<noteq> None" using assms(1) True TypeReg mk by (auto simp: unpack_item_def)
      then show ?thesis using p1 c1 adds_dirs_Some[OF a1] by auto
    next
      case None
      then have w: "write_item ?t body whole s1 = (r, s')" using assms(1) True TypeReg mk by (simp add: unpack_item_def)
      note wi = write_item_plain[OF w p1 st(2)]
      have "confined (abs_elems d) (tree s1) (tree s')"
        using wi(2) TD T_def by (intro confined_at[of T]) auto
      then show ?thesis
        using wi c1 confined_trans adds_dirs_Some[OF a1] TypeReg by (auto simp: T_def)
    qed
  qed (use assms True in \<open>simp_all add: unpack_item_def\<close>)
qed

lemma unpack_loop_confined:
  assumes "for_each (unpack_item d) items s = (r, s')" "plain_os s" "is_rooted d"
  shows "plain_os s' \<and> confined (abs_elems d) (tree s) (tree s')"
proof -
  have "plain_os b \<and> confined (abs_elems d) (tree s) (tree b)"
    if "plain_os a \<and> confined (abs_elems d) (tree s) (tree a)" "unpack_item d i a = (r2, b)" for i a r2 b
  proof -
    obtain h body whole where "i = (h, body, whole)" by (cases i)
    then show ?thesis
      using unpack_item_plain[of d h body whole a r2 b] that assms(3) confined_trans by blast
  qed
  then show ?thesis
    by (rule for_each_invariant[where I = "\<lambda>a. plain_os a \<and> confined (abs_elems d) (tree s) (tree a)"
          and f = "unpack_item d", OF _ assms(1)]) (use assms(2) in simp_all)
qed

lemma unpack_all_confined:
  assumes "unpack_all d items s = (r, s')" "plain_os s" "is_rooted d"
  shows "plain_os s' \<and> confined (abs_elems d) (tree s) (tree s')"
proof -
  obtain r1 s1 where l: "for_each (unpack_item d) (fst items) s = (r1, s1)" by fastforce
  with assms(1) have "s' = s1" by (cases r1) (simp_all add: unpack_all_def)
  with unpack_loop_confined[OF l assms(2,3)] show ?thesis by simp
qed

text \<open>The parent of an absolute path is made of its first elements.\<close>

lemma path_dir_below:
  assumes "straight d"
  shows "straight (path_dir d) \<and> below (abs_elems (path_dir d)) (abs_elems d)"
proof -
  let ?u = "rev (dropWhile (\<lambda>c. c \<noteq> CHR ''/'') (rev d))"
  have "d = ?u @ rev (takeWhile (\<lambda>c. c \<noteq> CHR ''/'') (rev d))"
    using rev_split[of d "takeWhile (\<lambda>c. c \<noteq> CHR ''/'') (rev d)" "dropWhile (\<lambda>c. c \<noteq> CHR ''/'') (rev d)"] by simp
  moreover have "?u \<noteq> [] \<Longrightarrow> last ?u = CHR ''/''"
    using hd_dropWhile[of "\<lambda>c. c \<noteq> CHR ''/''" "rev d"] by (simp add: last_rev)
  moreover have "?u \<noteq> []"
  proof -
    have "CHR ''/'' \<in> set (rev d)" using straight_rooted[OF assms] by (cases d) (auto simp: is_rooted_def)
    then show ?thesis by (auto simp: dropWhile_eq_Nil_conv)
  qed
  ultimately obtain v t where v: "?u = v @ ''/''" "d = v @ CHR ''/'' # t"
    by (metis append.assoc append_Cons append_Nil append_butlast_last_id)
  have "straight (v @ ''/'')" "below (abs_elems (v @ ''/'')) (abs_elems d)"
    using straight_prefix[of v t] assms v(2) by blast+
  then show ?thesis unfolding path_dir_def v(1) using straight_clean[OF straight_rooted] straight_rooted by simp
qed

lemma write_single_confined:
  assumes "write_single d body whole s = (r, s')" "plain_os s" "straight d"
  shows "plain_os s' \<and> confined (abs_elems d) (tree s) (tree s')
    \<and> (r = None \<longrightarrow> whole \<and> (\<exists>k. look (tree s') (abs_elems d) = Some (AFile k body)))"
proof -
  note pd = path_dir_below[OF assms(3)]
  obtain r1 s1 where mk: "MkdirAll s (path_dir d) 493 = (r1, s1)" by fastforce
  have p1: "plain_os s1" using plain_MkdirAll[OF mk assms(2)] .
  have c1: "confined (abs_elems d) (tree s) (tree s1)"
    using plain_upto[OF mk assms(2)] pd dirs_upto_below dirs_upto_confined by blast
  show ?thesis
  proof (cases r1)
    case (Some e)
    with assms(1) mk p1 c1 show ?thesis by (auto simp: write_single_def)
  next
    case None
    obtain rc sc where c: "Create s1 d = (rc, sc)" by fastforce
    show ?thesis
    proof (cases rc)
      case (Inl e)
      then have "sc = s1" using c OpenFile_Inl by (metis Create_def)
      with Inl c None mk assms(1) p1 c1 show ?thesis by (auto simp: write_single_def)
    next
      case (Inr q)
      then have s': "s' = set_content q body sc" "r = (if whole then None else Some (At CopyContent Corrupt))"
        using c None mk assms(1) by (simp_all add: write_single_def)
      note at = Create_at[OF c[unfolded Inr] p1 straight_rooted[OF assms(3)]]
      have "confined (abs_elems d) (tree s1) (tree s')" using at s' by (intro confined_at[of q]) auto
      then show ?thesis
        using at s' plain_Create_content[OF c[unfolded Inr] p1] c1 confined_trans by (auto split: if_splits)
    qed
  qed
qed

lemma unpack_data_confined:
  assumes "unpack_data L d data s = (r, s')" "plain_os s" "straight d"
  shows "plain_os s' \<and> confined (abs_elems d) (tree s) (tree s')"
proof (cases "fst (tar_peek L data)")
  case False
  then show ?thesis using assms write_single_confined by (simp add: unpack_data_def)
next
  case True
  obtain r1 s1 where mk: "MkdirAll s d 493 = (r1, s1)" by fastforce
  have p1: "plain_os s1" using plain_MkdirAll[OF mk assms(2)] .
  have c1: "confined (abs_elems d) (tree s) (tree s1)" using plain_upto[OF mk assms(2,3)] dirs_upto_confined by blast
  show ?thesis
  proof (cases r1)
    case None
    then have "unpack_all d (tar_read L (data, True)) s1 = (r, s')" using assms(1) mk True by (simp add: unpack_data_def)
    from unpack_all_confined[OF this p1 straight_rooted[OF assms(3)]] c1 confined_trans show ?thesis by blast
  qed (use assms(1) mk True p1 c1 in \<open>auto simp: unpack_data_def\<close>)
qed

section \<open>Entries that lead out of the directory\<close>

lemma parent_elems:
  assumes "is_rooted d" "valid_name n"
  shows "abs_elems (path_join [d, ''../'' @ n]) = butlast (abs_elems d) @ [n]"
proof -
  have raw: "is_rooted (d @ ''/'' @ ''../'' @ n)" using assms(1) rooted_nonempty by simp
  have split: "split_char (CHR ''/'') (d @ ''/..'') = split_char (CHR ''/'') d @ [''..'']"
    using split_char_sep[of "CHR ''/''" d "''..''"] by simp
  have "list_all valid_name (abs_elems d) \<or> True" by simp
  have pd: "path_elems True (d @ ''/..'') = butlast (abs_elems d)"
  proof -
    have "push_elem True ''..'' (rev (abs_elems d)) = rev (butlast (abs_elems d))"
      using abs_elems_all[of _ d] by (cases "abs_elems d" rule: rev_cases) (auto simp: push_elem_def)
    then show ?thesis
      by (simp add: path_elems_def[of True "d @ ''/..''"] split) (simp add: abs_elems_def path_elems_def)
  qed
  have "path_join [d, ''../'' @ n] = path_clean (d @ ''/'' @ ''../'' @ n)"
    using path_join_rooted[OF assms(1)] .
  then show ?thesis
    using raw path_elems_snoc[OF assms(2), of True "d @ ''/..''"] pd by (simp add: abs_elems_def)
qed

lemma parent_refused:
  assumes "is_rooted dst" "valid_name n" "abs_elems dst = D @ [y]" "Name h = ''../'' @ n"
  shows "unpack_item dst (h, body, whole) s = (Some (IllegalPath (path_join [dst, Name h])), s)"
proof -
  let ?raw = "dst @ ''/'' @ ''../'' @ n"
  have raw: "is_rooted ?raw" using assms(1) rooted_nonempty by simp
  have T: "abs_elems ?raw = D @ [n]"
    using parent_elems[OF assms(1,2)] path_join_rooted[OF assms(1), of "''../'' @ n"] raw assms(3) by simp
  have "\<not> has_prefix (path_clean ?raw) (path_clean dst @ ''/'')"
  proof
    assume "has_prefix (path_clean ?raw) (path_clean dst @ ''/'')"
    then obtain x xs where "abs_elems ?raw = abs_elems dst @ x # xs" using prefix_below[OF assms(1) raw] by blast
    with T assms(3) show False by simp
  qed
  then show ?thesis using assms(4) path_join_rooted[OF assms(1)] by (simp add: unpack_item_def)
qed

lemma untar_item_plain:
  assumes "untar_item d (h, body, whole) s = (None, s')" "plain_os s" "is_rooted d" "Typeflag h = TypeReg"
  shows "whole \<and> (\<exists>k. look (tree s') (abs_elems (path_join [d, Name h])) = Some (AFile k body))"
proof -
  obtain r1 s1 where mk: "MkdirAll s (path_dir (path_join [d, Name h])) 493 = (r1, s1)" by fastforce
  then have w: "write_item (path_join [d, Name h]) body whole s1 = (None, s')"
    using assms(1,4) by (simp add: untar_item_def)
  show ?thesis
    using write_item_plain(3)[OF w plain_MkdirAll[OF mk assms(2)] straight_rooted[OF straight_join_any[OF assms(3)]]]
    by simp
qed

lemma unzip_item_plain:
  assumes "unzip_item d (name, False, str) s = (None, s')" "plain_os s" "is_rooted d"
  shows "\<exists>body k. str = Some (body, True) \<and> look (tree s') (abs_elems (path_join [d, name])) = Some (AFile k body)"
proof -
  let ?p = "path_join [d, name]"
  obtain r1 s1 where mk: "MkdirAll s (path_dir ?p) ModePerm = (r1, s1)" by fastforce
  with assms(1) have r1: "r1 = None" by (cases r1) (simp_all add: unzip_item_def)
  with assms(1) mk obtain body whole where str: "str = Some (body, whole)"
    by (cases str) (auto simp: unzip_item_def)
  obtain rc sc where c: "Create s1 ?p = (rc, sc)" by fastforce
  with assms(1) mk r1 str obtain q where q: "rc = Inr q" by (cases rc) (simp_all add: unzip_item_def)
  have s': "s' = set_content q body sc" "whole"
    using assms(1) mk r1 str c q by (auto simp: unzip_item_def split: if_splits)
  show ?thesis
    using Create_at(1,2)[OF c[unfolded q] plain_MkdirAll[OF mk assms(2)] straight_rooted[OF straight_join_any[OF assms(3)]]]
      s' str by auto
qed

section \<open>What the formats promise\<close>

text \<open>What was written is read again. A first header is found exactly when a reader of the whole stream
  finds one; reading it takes at least one block of 512 bytes, or all there is, from the stream; after
  the header of an entry without content the stream continues with the other entries.\<close>

definition arch_law :: "archlib \<Rightarrow> bool" where
  "arch_law L \<longleftrightarrow>
     (\<forall>l b. zstd_read L (zstd_bytes L l b) = Some (b, True))
   \<and> (\<forall>b. gzip_read L (gzip_bytes L b) = Some (b, True))
   \<and> (\<forall>es. tar_read L (tar_bytes L es, True) = (map (\<lambda>(h, c). (h, c, True)) es, True))
   \<and> (\<forall>b. fst (tar_peek L b) \<longleftrightarrow> fst (tar_read L (b, True)) \<noteq> [])
   \<and> (\<forall>b. \<not> fst (tar_peek L b) \<longrightarrow> (\<exists>k. min 512 (length b) \<le> k \<and> snd (tar_peek L b) = drop k b))
   \<and> (\<forall>h es. snd (tar_peek L (tar_bytes L ((h, []) # es))) = tar_bytes L es)"

lemma arch_lawD:
  assumes "arch_law L"
  shows "zstd_read L (zstd_bytes L l b) = Some (b, True)"
    "gzip_read L (gzip_bytes L b) = Some (b, True)"
    "tar_read L (tar_bytes L es, True) = (map (\<lambda>(h, c). (h, c, True)) es, True)"
    "fst (tar_peek L b) \<longleftrightarrow> fst (tar_read L (b, True)) \<noteq> []"
    "\<not> fst (tar_peek L b) \<Longrightarrow> \<exists>k. min 512 (length b) \<le> k \<and> snd (tar_peek L b) = drop k b"
    "snd (tar_peek L (tar_bytes L ((h, []) # es))) = tar_bytes L es"
  using assms unfolding arch_law_def by blast+

section \<open>Packing and unpacking\<close>

lemma for_each_appends:
  assumes "\<And>x a b. x \<in> set xs \<Longrightarrow> f x a = (None, b) \<Longrightarrow> \<exists>y. b = a @ [y] \<and> R x y"
  shows "for_each f xs a = (None, b) \<Longrightarrow> \<exists>ys. b = a @ ys \<and> list_all2 R xs ys"
  using assms
proof (induction xs arbitrary: a)
  case (Cons x xs)
  obtain r c where f: "f x a = (r, c)" by fastforce
  with Cons.prems(1) have r: "r = None" and rest: "for_each f xs c = (None, b)" by (cases r; simp)+
  obtain y where y: "c = a @ [y]" "R x y" using Cons.prems(2)[of x a c] f r by auto
  obtain ys where "b = c @ ys" "list_all2 R xs ys"
    using Cons.IH[OF rest] Cons.prems(2) by (metis list.set_intros(2))
  with y show ?case by (intro exI[of _ "y # ys"]) simp
qed simp

lemma for_each_keeps:
  assumes step: "\<And>x a b. x \<in> set xs \<Longrightarrow> I a \<Longrightarrow> f x a = (None, b) \<Longrightarrow> I b \<and> Q x b"
    and keep: "\<And>x y a b. x \<in> set xs \<Longrightarrow> y \<in> set xs \<Longrightarrow> I a \<Longrightarrow> Q y a \<Longrightarrow> f x a = (None, b) \<Longrightarrow> Q y b"
  shows "set ys \<subseteq> set xs \<Longrightarrow> for_each f ys s = (None, s') \<Longrightarrow> I s \<Longrightarrow> I s' \<and> (\<forall>x \<in> set ys. Q x s')"
proof (induction ys arbitrary: s' rule: rev_induct)
  case (snoc x ys)
  obtain r a where ra: "for_each f ys s = (r, a)" by fastforce
  obtain r2 b where fb: "f x a = (r2, b)" by fastforce
  have r: "r = None" using snoc.prems(2) ra by (cases r) (simp_all add: for_each_append)
  have "r2 = None \<and> b = s'" using snoc.prems(2) ra fb r by (cases r2) (simp_all add: for_each_append)
  then have f: "f x a = (None, s')" using fb by simp
  have IH: "I a \<and> (\<forall>y \<in> set ys. Q y a)" using snoc.IH[of a] snoc.prems(1,3) ra r by simp
  have x: "x \<in> set xs" "set ys \<subseteq> set xs" using snoc.prems(1) by auto
  have 1: "I s' \<and> Q x s'" by (rule step[OF x(1) _ f]) (rule IH[THEN conjunct1])
  have 2: "Q y s'" if "y \<in> set ys" for y
  proof (rule keep[OF x(1) _ _ _ f])
    show "y \<in> set xs" using that x(2) by blast
    show "I a" "Q y a" using IH that by blast+
  qed
  show ?case using 1 2 by simp
qed simp

text \<open>A visited path and the entry written for it.\<close>

definition packs :: "osys \<Rightarrow> string \<Rightarrow> string \<times> (errno + entry) \<Rightarrow> tar_header \<times> string \<Rightarrow> bool" where
  "packs s base v hc \<longleftrightarrow> (\<exists>fi. snd v = Inr fi \<and> path_rel base (fst v) = Some (Name (fst hc))
     \<and> (is_regular fi \<longleftrightarrow> Typeflag (fst hc) = TypeReg)
     \<and> (is_regular fi \<longrightarrow> ReadFile s (fst v) = Inr (snd hc)))"

lemma FileInfoHeader_simps [simp]:
  "Name (FileInfoHeader fi n) = n"
  "Typeflag (FileInfoHeader fi n) = TypeReg \<longleftrightarrow> is_regular fi"
  by (cases fi; simp add: FileInfoHeader_def)+

lemma pack_path_packs:
  assumes "pack_path s base q i tw = (None, tw')"
  shows "\<exists>y. tw' = tw @ [y] \<and> packs s base (q, i) y"
proof (cases i)
  case (Inr fi)
  obtain rel where rel: "path_rel base q = Some rel"
    using assms Inr by (cases "path_rel base q") (simp_all add: pack_path_def)
  let ?h = "FileInfoHeader fi rel"
  show ?thesis
  proof (cases fi)
    case (AFile m c)
    obtain a where a: "ReadFile s q = Inr a"
      using assms Inr rel AFile by (cases "ReadFile s q") (simp_all add: pack_path_def Let_def)
    have "tw' = tw @ [(?h, a)]" using assms Inr rel AFile a by (simp add: pack_path_def Let_def)
    moreover have "packs s base (q, i) (?h, a)" using Inr rel AFile a by (simp add: packs_def)
    ultimately show ?thesis by blast
  next
    case (ADir m)
    have "tw' = tw @ [(?h, [])]" using assms Inr rel ADir by (simp add: pack_path_def Let_def)
    moreover have "packs s base (q, i) (?h, [])" using Inr rel ADir by (simp add: packs_def)
    ultimately show ?thesis by blast
  next
    case (ALink t)
    obtain a where a: "Readlink s q = Inr a"
      using assms Inr rel ALink by (cases "Readlink s q") (simp_all add: pack_path_def Let_def)
    have "tw' = tw @ [(?h\<lparr>Typeflag := TypeSymlink, Linkname := a\<rparr>, [])]"
      using assms Inr rel ALink a by (simp add: pack_path_def Let_def)
    moreover have "packs s base (q, i) (?h\<lparr>Typeflag := TypeSymlink, Linkname := a\<rparr>, [])"
      using Inr rel ALink by (simp add: packs_def)
    ultimately show ?thesis by blast
  qed
qed (use assms in \<open>simp add: pack_path_def\<close>)

lemma Walk_packs:
  assumes "Walk (\<lambda>_. s) (pack_path s base) root [] = (None, tw)"
  shows "list_all2 (packs s base) (Visits s root) tw"
proof -
  let ?f = "\<lambda>v. pack_path s base (fst v) (snd v)"
  have w: "Walk (\<lambda>_. s) (pack_path s base) root [] = for_each ?f (Visits s root) []"
    by (rule Walk_Visits[where get = "\<lambda>_. s" and fn = "pack_path s base"]) (rule refl)
  have loop: "for_each ?f (Visits s root) [] = (None, tw)" by (rule trans[OF w[symmetric] assms])
  have step: "\<exists>y. b = a @ [y] \<and> packs s base x y" if "?f x a = (None, b)" for x a b
    using pack_path_packs[OF that] by (simp only: prod.collapse)
  obtain ys where ys: "tw = [] @ ys" "list_all2 (packs s base) (Visits s root) ys"
    using for_each_appends[where f = ?f and R = "packs s base" and xs = "Visits s root" and a = "[]" and b = tw, OF step loop]
    by blast
  show ?thesis using ys(2) unfolding ys(1) append_Nil .
qed

text \<open>Every path below the root of a walk is visited, or the walk meets an error.\<close>

lemma Lstat_plain:
  assumes "plain_os s" "is_rooted p" "Lstat s p = Inr e"
  shows "look (tree s) (abs_elems p) = Some e"
  using assms plain_locate[of s p False]
  by (auto simp: Lstat_def stat_at_def plain_os_def split: sum.splits option.splits)

lemma visits_plain:
  "plain_os s \<Longrightarrow> is_rooted path \<Longrightarrow> look (tree s) (abs_elems path) = Some info
   \<Longrightarrow> v \<in> set (visits s path info) \<Longrightarrow> snd v = Inr e
   \<Longrightarrow> is_rooted (fst v) \<and> (\<exists>r. abs_elems (fst v) = abs_elems path @ r) \<and> look (tree s) (abs_elems (fst v)) = Some e"
proof (induction s path info arbitrary: v e rule: visits.induct)
  case (1 s path info)
  show ?case
  proof (cases "is_dir info")
    case False
    with "1.prems" show ?thesis by (auto simp: visits.simps[of s path])
  next
    case True
    show ?thesis
    proof (cases "ReadDir s path")
      case (Inl e)
      with True "1.prems" show ?thesis by (auto simp: visits.simps[of s path])
    next
      case (Inr names)
      consider "v = (path, Inr info)"
        | n where "n \<in> set names" "v \<in> set (case Lstat s (path_join [path, fst n]) of
            Inl e \<Rightarrow> [(path_join [path, fst n], Inl e)] | Inr i \<Rightarrow> visits s (path_join [path, fst n]) i)"
        using "1.prems"(4) True Inr by (auto simp: visits.simps[of s path] Let_def)
      then show ?thesis
      proof cases
        case 1
        with "1.prems" show ?thesis by auto
      next
        case (2 n)
        have vn: "valid_name (fst n)" using ReadDir_names[OF Inr 2(1)] by blast
        have j: "abs_elems (path_join [path, fst n]) = abs_elems path @ [fst n]" "is_rooted (path_join [path, fst n])"
          using vn "1.prems"(2) rooted_nonempty by simp_all
        show ?thesis
        proof (cases "Lstat s (path_join [path, fst n])")
          case (Inl e')
          with 2(2) "1.prems"(5) show ?thesis by auto
        next
          case L: (Inr i)
          have "look (tree s) (abs_elems (path_join [path, fst n])) = Some i"
            using Lstat_plain[OF "1.prems"(1) j(2) L] .
          then show ?thesis
            using "1.IH"[OF _ Inr 2(1) refl L "1.prems"(1) j(2) _ _ "1.prems"(5)] 2(2) L True j(1) by auto
        qed
      qed
    qed
  qed
qed

lemma set_concat_upper: "x \<in> set xs \<Longrightarrow> set (f x) \<subseteq> set (a # concat (map f xs))"
  by auto

lemma visits_all:
  "plain_os s \<Longrightarrow> is_rooted path \<Longrightarrow> look (tree s) (abs_elems path) = Some info
   \<Longrightarrow> \<forall>v \<in> set (visits s path info). \<exists>e. snd v = Inr e
   \<Longrightarrow> look (tree s) (abs_elems path @ r) = Some e
   \<Longrightarrow> \<exists>v \<in> set (visits s path info). snd v = Inr e \<and> abs_elems (fst v) = abs_elems path @ r"
proof (induction s path info arbitrary: r e rule: visits.induct)
  case (1 s path info)
  show ?case
  proof (cases r)
    case Nil
    show ?thesis
    proof (cases "is_dir info")
      case False
      with "1.prems" Nil show ?thesis by (simp add: visits.simps[of s path])
    next
      case True
      with "1.prems" Nil show ?thesis
        by (cases "ReadDir s path") (simp_all add: visits.simps[of s path])
    qed
  next
    case (Cons y ys)
    then have dir: "is_dir info" using look_dir_prefix[of "tree s" "abs_elems path" y ys e] "1.prems"(3,5) by auto
    then obtain names where names: "ReadDir s path = Inr names"
      using "1.prems"(4) by (cases "ReadDir s path") (auto simp: visits.simps[of s path])
    obtain k where k: "look (tree s) (abs_elems path @ [y]) = Some k"
      using look_prefix[of "tree s" "abs_elems path @ [y]" ys e] "1.prems"(5) Cons by auto
    have mem: "(y, k) \<in> set names" using ReadDir_plain(2)[OF names "1.prems"(1,2), of "(y, k)"] k by simp
    have vn: "valid_name y" using ReadDir_names[OF names mem] by simp
    let ?p = "path_join [path, y]"
    have j: "abs_elems ?p = abs_elems path @ [y]" "is_rooted ?p" using vn "1.prems"(2) rooted_nonempty by simp_all
    let ?h = "\<lambda>n. case Lstat s (path_join [path, fst n]) of
        Inl e \<Rightarrow> [(path_join [path, fst n], Inl e)] | Inr i \<Rightarrow> visits s (path_join [path, fst n]) i"
    have eq: "visits s path info = (path, Inr info) # concat (map ?h names)"
      using dir names by (simp add: visits.simps[of s path] Let_def)
    have "set (?h (y, k)) \<subseteq> set (visits s path info)" unfolding eq by (rule set_concat_upper[OF mem])
    then have sub: "set (case Lstat s ?p of Inl e \<Rightarrow> [(?p, Inl e)] | Inr i \<Rightarrow> visits s ?p i) \<subseteq> set (visits s path info)"
      by (simp only: fst_conv)
    obtain i where L: "Lstat s ?p = Inr i" using sub "1.prems"(4) by (cases "Lstat s ?p") auto
    have i: "look (tree s) (abs_elems ?p) = Some i" using Lstat_plain[OF "1.prems"(1) j(2) L] .
    have "\<exists>v \<in> set (visits s ?p i). snd v = Inr e \<and> abs_elems (fst v) = abs_elems ?p @ ys"
    proof (rule "1.IH"[OF _ names mem, of ?p i])
      show "\<forall>v \<in> set (visits s ?p i). \<exists>e. snd v = Inr e" using sub L "1.prems"(4) by auto
      show "look (tree s) (abs_elems ?p @ ys) = Some e" using "1.prems"(5) j(1) Cons by simp
    qed (use dir "1.prems"(1) j(2) i L in simp_all)
    then show ?thesis using sub L j(1) Cons by auto
  qed
qed

lemma strip_common_append: "strip_common B (B @ x # r) = ([], x # r)"
  by (induction B) simp_all

lemma path_rel_below:
  assumes "is_rooted base" "is_rooted q" "abs_elems q = abs_elems base @ x # r"
  shows "path_rel base q = Some (join (x # r) ''/'')"
proof -
  have ne: "path_clean q \<noteq> path_clean base"
  proof
    assume "path_clean q = path_clean base"
    then have "abs_elems (path_clean q) = abs_elems (path_clean base)" by simp
    with assms show False by simp
  qed
  have e: "path_elems True (path_clean base) = abs_elems base" "path_elems True (path_clean q) = abs_elems q"
    using assms(1,2) by (simp_all add: abs_elems_def)
  show ?thesis using ne e assms strip_common_append[of "abs_elems base" x r] by (simp add: path_rel_def Let_def)
qed

lemma abs_elems_join_elems:
  assumes "is_rooted d" "\<forall>e \<in> set es. e \<noteq> [] \<and> e \<noteq> ''.'' \<and> e \<noteq> ''..'' \<and> CHR ''/'' \<notin> set e" "es \<noteq> []"
  shows "abs_elems (path_join [d, join es ''/'']) = abs_elems d @ es"
proof -
  let ?raw = "d @ ''/'' @ join es ''/''"
  have raw: "is_rooted ?raw" using assms(1) rooted_nonempty by simp
  have "split_char (CHR ''/'') (join es ''/'') = es" using assms(2,3) by (intro split_char_join) auto
  then have s: "split_char (CHR ''/'') ?raw = split_char (CHR ''/'') d @ es" by (simp add: split_char_sep)
  have f: "fold (push_elem True) es kept = rev es @ kept" for kept
    using assms(2) by (induction es arbitrary: kept) (auto simp: push_elem_def)
  have "path_elems True ?raw = path_elems True d @ es" unfolding path_elems_def s by (simp add: f)
  then show ?thesis using path_join_rooted[OF assms(1)] raw by (simp add: abs_elems_def)
qed

lemma unpack_item_keeps:
  assumes "unpack_item d (h, body, whole) s = (r, s')" "plain_os s" "is_rooted d" "Typeflag h \<noteq> TypeReg"
    "look (tree s) x = Some (AFile m c)"
  shows "look (tree s') x = Some (AFile m c)"
proof (cases "has_prefix (path_join [d, Name h]) (path_clean d @ ''/'')")
  case True
  show ?thesis
  proof (cases "Typeflag h")
    case TypeDir
    obtain r1 s1 where mk: "MkdirAll s (path_join [d, Name h]) (perm_of_mode (Mode h)) = (r1, s1)" by fastforce
    then have "s' = s1" using assms(1) True TypeDir by (simp add: unpack_item_def)
    moreover have "adds_dirs (tree s) (tree s1)" using MkdirAll_adds[OF mk] assms(2) by (simp add: plain_os_def)
    ultimately show ?thesis using adds_dirs_Some assms(5) by blast
  qed (use assms True in \<open>simp_all add: unpack_item_def\<close>)
next
  case False
  with assms(1,5) show ?thesis by (auto simp: unpack_item_def)
qed

text \<open>The entries written for a directory, read and unpacked again.\<close>

lemma unpack_loop_restores:
  assumes "list_all2 (packs s base) vs tw"
    and vs: "\<And>v e. v \<in> set vs \<Longrightarrow> snd v = Inr e \<Longrightarrow> is_rooted (fst v)
      \<and> (\<exists>r. abs_elems (fst v) = abs_elems base @ x # r) \<and> look (tree s) (abs_elems (fst v)) = Some e"
    and "plain_os s" "is_rooted base"
    and loop: "for_each (unpack_item dst) (map (\<lambda>(h, c). (h, c, True)) tw) t = (None, t')"
    and "plain_os t" "is_rooted dst"
    and v: "v \<in> set vs" "snd v = Inr (AFile m c)" "abs_elems (fst v) = abs_elems base @ x # r"
  shows "\<exists>k. look (tree t') (abs_elems dst @ x # r) = Some (AFile k c)"
proof -
  define C where "C = (\<lambda>p. case look (tree s) p of Some (AFile m c) \<Rightarrow> c | _ \<Rightarrow> [])"
  have entry: "\<exists>y ys. abs_elems (path_join [dst, Name h]) = abs_elems dst @ y # ys
      \<and> (Typeflag h = TypeReg \<longrightarrow> b = C (abs_elems base @ y # ys))"
    if "(h, b) \<in> set tw" for h b
  proof -
    obtain v where v: "v \<in> set vs" "packs s base v (h, b)"
      using assms(1) \<open>(h, b) \<in> set tw\<close> by (metis in_set_conv_nth list_all2_conv_all_nth)
    then obtain fi where fi: "snd v = Inr fi" "path_rel base (fst v) = Some (Name h)"
      "is_regular fi \<longleftrightarrow> Typeflag h = TypeReg" "is_regular fi \<longrightarrow> ReadFile s (fst v) = Inr b"
      by (auto simp: packs_def)
    obtain ys where q: "is_rooted (fst v)" "abs_elems (fst v) = abs_elems base @ x # ys"
      "look (tree s) (abs_elems (fst v)) = Some fi" using vs[OF v(1) fi(1)] by blast
    have n: "Name h = join (x # ys) ''/''" using path_rel_below[OF assms(4) q(1,2)] fi(2) by simp
    have "\<forall>e \<in> set (x # ys). e \<noteq> [] \<and> e \<noteq> ''.'' \<and> e \<noteq> ''..'' \<and> CHR ''/'' \<notin> set e"
      using abs_elems_all[of _ "fst v"] q(2) by auto
    then have "abs_elems (path_join [dst, Name h]) = abs_elems dst @ x # ys"
      unfolding n by (intro abs_elems_join_elems[OF assms(7)]) simp_all
    moreover have "b = C (abs_elems base @ x # ys)" if reg: "Typeflag h = TypeReg"
    proof -
      obtain m c where c: "fi = AFile m c" using fi(3) reg by (cases fi) auto
      obtain z where z: "locate s True (fst v) = Inr z" "read_all s z = Inr b"
        using fi(4) c by (auto simp: ReadFile_def Open_def split: sum.splits option.splits)
      have "z = abs_elems (fst v)" using plain_locate[OF _ q(1) z(1)] assms(3) by (simp add: plain_os_def)
      then show ?thesis using z(2) q(2,3) c by (simp add: read_all_def C_def)
    qed
    ultimately show ?thesis by blast
  qed
  define Q where "Q = (\<lambda>(i :: tar_item) (a :: osys). Typeflag (fst i) = TypeReg \<longrightarrow>
     (\<exists>k. look (tree a) (abs_elems (path_join [dst, Name (fst i)])) = Some (AFile k (fst (snd i)))))"
  let ?items = "map (\<lambda>(h, c). (h, c, True)) tw"
  have step: "plain_os b \<and> Q i b" if i: "i \<in> set ?items" and a: "plain_os a" and f: "unpack_item dst i a = (None, b)" for i a b
  proof -
    obtain h bd where i': "i = (h, bd, True)" using i by auto
    show ?thesis using unpack_item_plain[OF f[unfolded i'] a assms(7)] i' by (auto simp: Q_def)
  qed
  have keep: "Q j b" if i: "i \<in> set ?items" and j: "j \<in> set ?items" and a: "plain_os a" and q: "Q j a"
    and f: "unpack_item dst i a = (None, b)" for i j a b
  proof -
    obtain hi bi where i': "i = (hi, bi, True)" "(hi, bi) \<in> set tw" using i by auto
    obtain hj bj where j': "j = (hj, bj, True)" "(hj, bj) \<in> set tw" using j by auto
    note u = unpack_item_plain[OF f[unfolded i'] a assms(7)]
    let ?Ti = "abs_elems (path_join [dst, Name hi])" and ?Tj = "abs_elems (path_join [dst, Name hj])"
    show ?thesis unfolding Q_def
    proof
      assume reg: "Typeflag (fst j) = TypeReg"
      then obtain k where k: "look (tree a) ?Tj = Some (AFile k bj)" using q j' by (auto simp: Q_def)
      show "\<exists>k. look (tree b) (abs_elems (path_join [dst, Name (fst j)])) = Some (AFile k (fst (snd j)))"
      proof (cases "?Ti = ?Tj")
        case False
        then show ?thesis using u k j' by auto
      next
        case True
        show ?thesis
        proof (cases "Typeflag hi = TypeReg")
          case reg_i: True
          have "bi = bj" using entry[OF i'(2)] entry[OF j'(2)] True reg reg_i j'(1) by auto
          then show ?thesis using u True j' reg_i by auto
        next
          case False
          show ?thesis using unpack_item_keeps[OF f[unfolded i'(1)] a assms(7) False] k j' by auto
        qed
      qed
    qed
  qed
  have fin: "plain_os t' \<and> (\<forall>i \<in> set ?items. Q i t')"
  proof (rule for_each_keeps[where xs = ?items and I = plain_os and f = "unpack_item dst" and Q = Q and ys = ?items
        and s = t and s' = t', OF _ _ subset_refl loop assms(6)])
    show "plain_os b \<and> Q i b" if "i \<in> set ?items" "plain_os a" "unpack_item dst i a = (None, b)" for i a b
      using step that by blast
    show "Q j b" if "i \<in> set ?items" "j \<in> set ?items" "plain_os a" "Q j a" "unpack_item dst i a = (None, b)" for i j a b
      using keep that by blast
  qed
  obtain h b where hb: "(h, b) \<in> set tw" "packs s base v (h, b)"
    using assms(1) v(1) by (metis in_set_conv_nth list_all2_conv_all_nth prod.collapse)
  then have reg: "Typeflag h = TypeReg" and rel: "path_rel base (fst v) = Some (Name h)"
    using v(2) by (auto simp: packs_def)
  have "is_rooted (fst v)" and l: "look (tree s) (abs_elems (fst v)) = Some (AFile m c)" using vs[OF v(1,2)] by blast+
  then have n: "Name h = join (x # r) ''/''" using path_rel_below[OF assms(4) _ v(3)] rel by simp
  have "\<forall>e \<in> set (x # r). e \<noteq> [] \<and> e \<noteq> ''.'' \<and> e \<noteq> ''..'' \<and> CHR ''/'' \<notin> set e"
    using abs_elems_all[of _ "fst v"] v(3) by auto
  then have T: "abs_elems (path_join [dst, Name h]) = abs_elems dst @ x # r"
    unfolding n by (intro abs_elems_join_elems[OF assms(7)]) simp_all
  have "b = c" using entry[OF hb(1)] T reg l v(3) by (auto simp: C_def)
  moreover have "(h, b, True) \<in> set ?items" using hb(1) by force
  ultimately show ?thesis using fin reg T by (fastforce simp: Q_def)
qed

lemma CompressZstd_Inr:
  assumes "CompressZstd L src z lv s = (Inr a, s')"
  obtains q s1 bytes where "a = zst_name z" "Create s (zst_name z) = (Inr q, s1)"
    "pack_source L s1 src (path_dir src) = (None, bytes)" "s' = set_content q (zstd_bytes L (level_of lv) bytes) s1"
proof -
  obtain rc s1 where c: "Create s (zst_name z) = (rc, s1)" by fastforce
  with assms obtain q where q: "rc = Inr q" by (cases rc) (simp_all add: CompressZstd_def Let_def)
  obtain r bytes where p: "pack_source L s1 src (path_dir src) = (r, bytes)" by fastforce
  with assms c q have "r = None" by (cases r) (simp_all add: CompressZstd_def Let_def)
  with assms c q p that show thesis by (simp add: CompressZstd_def Let_def)
qed

lemma DecompressZstd_Inr:
  assumes "DecompressZstd L f dst s = (Inr b, s')"
  obtains q bytes data where "Open s f = Inr q" "read_all s q = Inr bytes" "zstd_read L bytes = Some (data, True)"
    "unpack_data L dst data s = (None, s')" "b = dst"
proof -
  obtain q where q: "Open s f = Inr q" using assms by (cases "Open s f") (simp_all add: DecompressZstd_def)
  with assms obtain bytes where r: "read_all s q = Inr bytes"
    by (cases "read_all s q") (simp_all add: DecompressZstd_def)
  with assms q obtain data ok where z: "zstd_read L bytes = Some (data, ok)"
    by (cases "zstd_read L bytes") (auto simp: DecompressZstd_def)
  with assms q r have ok: "ok" by (cases ok) (simp_all add: DecompressZstd_def)
  obtain e s1 where u: "unpack_data L dst data s = (e, s1)" by fastforce
  with assms q r z ok have "e = None \<and> s1 = s' \<and> b = dst" by (cases e) (simp_all add: DecompressZstd_def)
  with that[of q bytes data] q r z ok u show thesis by simp
qed

lemma zstd_dir_roundtrip:
  assumes law: "arch_law L" and pl: "plain_os s" and d: "is_rooted d" "valid_name x"
    and src: "look (tree s) (abs_elems d @ [x]) = Some (ADir m0)"
      "look (tree s) (abs_elems d @ x # r) = Some (AFile m c)"
    and z: "is_rooted (zst_name z)" "\<not> below (abs_elems d @ [x]) (abs_elems (zst_name z))"
    and dst: "straight dst"
    and pack: "CompressZstd L (path_join [d, x]) z lv s = (Inr a, s1)"
    and unpack: "DecompressZstd L a dst s1 = (Inr b, s2)"
  shows "\<exists>k. look (tree s2) (abs_elems dst @ x # r) = Some (AFile k c)"
proof -
  let ?src = "path_join [d, x]" and ?B = "abs_elems d" and ?base = "path_dir (path_join [d, x])"
  have S: "abs_elems ?src = ?B @ [x]" "is_rooted ?src" using d rooted_nonempty by simp_all
  have base: "abs_elems ?base = ?B" "is_rooted ?base" using path_dir_join[OF d(2,1)] straight_rooted by blast+
  obtain q sa bytes where a: "a = zst_name z" and cr: "Create s (zst_name z) = (Inr q, sa)"
    and pk: "pack_source L sa ?src ?base = (None, bytes)" and s1: "s1 = set_content q (zstd_bytes L (level_of lv) bytes) sa"
    using CompressZstd_Inr[OF pack] .
  have w: "wf_os s" using pl by (simp add: plain_os_def)
  note o = OpenFile_Inr[OF cr[unfolded Create_def] w]
  have q: "q = abs_elems (zst_name z)" using Create_at(1)[OF cr pl z(1)] .
  have pa: "plain_os sa" "plain_os s1" using plain_Create_content[OF cr pl] s1 by blast+
  have same: "look (tree sa) (?B @ x # t) = look (tree s) (?B @ x # t)" for t
  proof -
    have "?B @ x # t \<noteq> q" using z(2) q by (metis append_Cons append_Nil append_assoc below_append)
    then show ?thesis using o(3) by blast
  qed
  have "Stat sa ?src = Inr (ADir m0)"
  proof -
    obtain y where y: "Stat sa ?src = Inr y" using pk by (cases "Stat sa ?src") (simp_all add: pack_source_def)
    then have "look (tree sa) (abs_elems ?src) = Some y"
      using plain_locate[OF _ S(2), of sa True] pa(1)
      by (auto simp: Stat_def stat_at_def plain_os_def split: sum.splits option.splits)
    then show ?thesis using y S(1) same[of "[]"] src(1) by simp
  qed
  then obtain tw where wk: "Walk (\<lambda>_. sa) (pack_path sa ?base) ?src [] = (None, tw)" and bt: "bytes = tar_bytes L tw"
    using pk by (auto simp: pack_source_def split: prod.splits option.splits)
  have all2: "list_all2 (packs sa ?base) (Visits sa ?src) tw" using Walk_packs[OF wk] .
  have noerr: "\<exists>e. snd v = Inr e" if "v \<in> set (Visits sa ?src)" for v
    using all2 that by (metis in_set_conv_nth list_all2_conv_all_nth packs_def)
  have Ls: "Lstat sa ?src = Inr (ADir m0)"
  proof (cases "Lstat sa ?src")
    case (Inl e)
    then show ?thesis using noerr by (simp add: Visits_def)
  next
    case (Inr y)
    then show ?thesis using Lstat_plain[OF pa(1) S(2) Inr] S(1) same[of "[]"] src(1) by simp
  qed
  have V: "Visits sa ?src = visits sa ?src (ADir m0)" using Ls by (simp add: Visits_def)
  have lr: "look (tree sa) (abs_elems ?src) = Some (ADir m0)" using Lstat_plain[OF pa(1) S(2) Ls] .
  have vs: "is_rooted (fst v) \<and> (\<exists>r. abs_elems (fst v) = abs_elems ?base @ x # r)
      \<and> look (tree sa) (abs_elems (fst v)) = Some e" if "v \<in> set (Visits sa ?src)" "snd v = Inr e" for v e
    using visits_plain[OF pa(1) S(2) lr that(1)[unfolded V] that(2)] S(1) base(1) by auto
  obtain v where v: "v \<in> set (Visits sa ?src)" "snd v = Inr (AFile m c)" "abs_elems (fst v) = abs_elems ?base @ x # r"
  proof -
    have "look (tree sa) (abs_elems ?src @ r) = Some (AFile m c)" using same[of r] src(2) S(1) by simp
    from visits_all[OF pa(1) S(2) lr _ this] noerr V S(1) base(1) that show thesis by fastforce
  qed
  obtain qf fb data where op: "Open s1 a = Inr qf" "read_all s1 qf = Inr fb" "zstd_read L fb = Some (data, True)"
    and un: "unpack_data L dst data s1 = (None, s2)" using DecompressZstd_Inr[OF unpack] by metis
  have "qf = q" using op(1) plain_locate[OF _ z(1)] pa(2) a q by (auto simp: Open_locate plain_os_def)
  then have "data = tar_bytes L tw"
    using op(2,3) s1 bt o(4) arch_lawD(1)[OF law] by (auto simp: read_all_def)
  then have rd: "tar_read L (data, True) = (map (\<lambda>(h, c). (h, c, True)) tw, True)" using arch_lawD(3)[OF law] by simp
  have "tw \<noteq> []" using all2 v(1) by (metis list.set(1) list_all2_Nil2 empty_iff)
  then have pkk: "fst (tar_peek L data)" using arch_lawD(4)[OF law] rd by simp
  obtain rm sm where mk: "MkdirAll s1 dst 493 = (rm, sm)" by fastforce
  with un pkk have "rm = None" by (cases rm) (simp_all add: unpack_data_def)
  with un pkk mk rd have loop: "for_each (unpack_item dst) (map (\<lambda>(h, c). (h, c, True)) tw) sm = (None, s2)"
    by (auto simp: unpack_data_def unpack_all_def split: prod.splits option.splits)
  show ?thesis
    by (rule unpack_loop_restores[OF all2 vs pa(1) base(2) loop plain_MkdirAll[OF mk pa(2)] straight_rooted[OF dst] v])
qed

end
