(* ===== verification/Upload.thy ===== *)
theory Upload
  imports ArchiveFacts
begin

text \<open>
  Archives that go to an object store and come back (\<open>filex/zstd-upload.go\<close>). The client is the
  parameter \<open>C\<close> over the world \<open>'w\<close> of the store. The goroutine that packs and the upload are joined by
  a pipe: the upload reads the bytes that were written, and then the end or the error the pipe was
  closed with.
\<close>

section \<open>The store\<close>

record 'w store_client =
  PutObject :: "string \<Rightarrow> string \<Rightarrow> string \<times> arch_error option \<Rightarrow> 'w \<Rightarrow> string option \<times> 'w"
  GetObject :: "string \<Rightarrow> string \<Rightarrow> 'w \<Rightarrow> string + stream"

datatype upload_error = UploadFailed string | DownloadFailed string | Archived arch_error

section \<open>Upload\<close>

text \<open>\<open>base\<close> is the directory the names in the archive are relative to.\<close>

definition compress_upload ::
  "archlib \<Rightarrow> 'w store_client \<Rightarrow> osys \<Rightarrow> string \<Rightarrow> string \<Rightarrow> string \<Rightarrow> string \<Rightarrow> int64 list \<Rightarrow> 'w
   \<Rightarrow> (upload_error + string) \<times> 'w" where
  "compress_upload L C s base bucketName srcPath objectName lv w =
     (let encLevel = level_of lv; objectName = zst_name objectName in
      case pack_source L s srcPath base of (err, bytes) \<Rightarrow>
        (case PutObject C bucketName objectName (zstd_bytes L encLevel bytes, err) w of
           (Some e, w) \<Rightarrow> (Inl (UploadFailed e), w)
         | (None, w) \<Rightarrow> (Inr objectName, w)))"

definition CompressAndUpload ::
  "archlib \<Rightarrow> 'w store_client \<Rightarrow> osys \<Rightarrow> string \<Rightarrow> string \<Rightarrow> string \<Rightarrow> int64 list \<Rightarrow> 'w
   \<Rightarrow> (upload_error + string) \<times> 'w" where
  "CompressAndUpload L C s bucketName srcPath objectName lv w =
     compress_upload L C s (path_dir srcPath) bucketName srcPath objectName lv w"

definition CompressAndUploadSelf ::
  "archlib \<Rightarrow> 'w store_client \<Rightarrow> osys \<Rightarrow> string \<Rightarrow> string \<Rightarrow> string \<Rightarrow> int64 list \<Rightarrow> 'w
   \<Rightarrow> (upload_error + string) \<times> 'w" where
  "CompressAndUploadSelf L C s bucketName srcPath objectName lv w =
     compress_upload L C s srcPath bucketName srcPath objectName lv w"

section \<open>Download\<close>

text \<open>One entry: as for a local archive, and links are made.\<close>

definition download_item :: "string \<Rightarrow> tar_item \<Rightarrow> osys \<Rightarrow> arch_error option \<times> osys" where
  "download_item dstDir item s =
     (case item of (header, body, whole) \<Rightarrow>
      let targetPath = path_join [dstDir, Name header] in
      if \<not> has_prefix (path_clean targetPath) (path_clean dstDir @ ''/'') then (Some (IllegalPath targetPath), s)
      else (case Typeflag header of
          TypeDir \<Rightarrow>
            (case MkdirAll s targetPath (perm_of_mode (Mode header)) of (e, s) \<Rightarrow> (map_option OsErr e, s))
        | TypeReg \<Rightarrow>
            (case MkdirAll s (path_dir targetPath) 493 of
               (Some e, s) \<Rightarrow> (Some (OsErr e), s)
             | (None, s) \<Rightarrow> write_item targetPath body whole s)
        | TypeSymlink \<Rightarrow>
            (case MkdirAll s (path_dir targetPath) 493 of
               (Some e, s) \<Rightarrow> (Some (OsErr e), s)
             | (None, s) \<Rightarrow>
                 (case Symlink s (Linkname header) targetPath of (e, s) \<Rightarrow> (map_option OsErr e, s)))
        | TypeOther \<Rightarrow> (None, s)))"

text \<open>The first header is read from the stream itself; the second reader starts after it.\<close>

definition DownloadAndDecompress ::
  "archlib \<Rightarrow> 'w store_client \<Rightarrow> 'w \<Rightarrow> string \<Rightarrow> string \<Rightarrow> string \<Rightarrow> osys \<Rightarrow> (upload_error + string) \<times> osys" where
  "DownloadAndDecompress L C w bucketName objectName dstDir s =
     (case GetObject C bucketName objectName w of
        Inl e \<Rightarrow> (Inl (DownloadFailed e), s)
      | Inr (bytes, whole) \<Rightarrow>
          (case zstd_read L bytes of
             None \<Rightarrow> (Inl (Archived (At MakeReader Corrupt)), s)
           | Some (data, ok) \<Rightarrow>
               (case tar_peek L data of (isTar, rest) \<Rightarrow>
                  if isTar then
                    (case MkdirAll s dstDir 493 of
                       (Some e, s) \<Rightarrow> (Inl (Archived (At MakeDst (OsErr e))), s)
                     | (None, s) \<Rightarrow>
                         if \<not> (ok \<and> whole) then (Inl (Archived (At ReadData Corrupt)), s)
                         else (case for_each (download_item dstDir) (fst (tar_read L (rest, True))) s of
                             (Some e, s) \<Rightarrow> (Inl (Archived e), s)
                           | (None, s) \<Rightarrow>
                               if snd (tar_read L (rest, True)) then (Inr dstDir, s)
                               else (Inl (Archived (At ReadEntry Corrupt)), s)))
                  else
                    (case write_single dstDir rest (ok \<and> whole) s of
                       (Some e, s) \<Rightarrow> (Inl (Archived e), s)
                     | (None, s) \<Rightarrow> (Inr dstDir, s)))))"

section \<open>What a store promises\<close>

text \<open>A complete upload that is accepted can be read back; an upload whose stream ends with an error is
  refused.\<close>

definition store_law :: "'w store_client \<Rightarrow> bool" where
  "store_law C \<longleftrightarrow>
     (\<forall>b n bytes w w'. PutObject C b n (bytes, None) w = (None, w') \<longrightarrow> GetObject C b n w' = Inr (bytes, True))
   \<and> (\<forall>b n bytes err w. err \<noteq> None \<longrightarrow> fst (PutObject C b n (bytes, err) w) \<noteq> None)"

section \<open>Files that come back short\<close>

lemma store_put:
  assumes "store_law C" "PutObject C b n (bytes, err) w = (None, w')"
  shows "err = None \<and> GetObject C b n w' = Inr (bytes, True)"
proof -
  have "err = None" using assms(1)[unfolded store_law_def, THEN conjunct2, rule_format, of err b n bytes w] assms(2) by fastforce
  then show ?thesis using assms(1)[unfolded store_law_def, THEN conjunct1, rule_format, of b n bytes w w'] assms(2) by simp
qed

lemma upload_put:
  assumes "compress_upload L C s base b src n lv w = (Inr name, w')" "store_law C"
  obtains bytes where "pack_source L s src base = (None, bytes)" "name = zst_name n"
    "GetObject C b name w' = Inr (zstd_bytes L (level_of lv) bytes, True)"
proof -
  obtain err bytes where p: "pack_source L s src base = (err, bytes)" by fastforce
  obtain r w1 where put: "PutObject C b (zst_name n) (zstd_bytes L (level_of lv) bytes, err) w = (r, w1)" by fastforce
  with assms(1) p have r: "r = None" by (cases r) (simp_all add: compress_upload_def Let_def)
  then have "name = zst_name n" "w1 = w'" using assms(1) p put by (simp_all add: compress_upload_def Let_def)
  with store_put[OF assms(2)] put r p that show thesis by blast
qed

lemma pack_single:
  assumes "pack_source L s src base = (None, bytes)" "Stat s src = Inr (AFile m c)" "ReadFile s src = Inr c"
  shows "bytes = c"
  using assms by (simp add: pack_source_def)

section \<open>The entry of the directory itself\<close>

lemma path_rel_self: "path_rel p p = Some ''.''"
  by (simp add: path_rel_def Let_def)

text \<open>The archive of a directory relative to itself begins with an entry named by a dot.\<close>

lemma pack_self_first:
  assumes "pack_source L s src src = (None, bytes)" "Lstat s src = Inr (ADir m)" "Stat s src = Inr (ADir m)"
  shows "\<exists>h rest. bytes = tar_bytes L ((h, []) # rest) \<and> Name h = ''.''"
proof -
  obtain tw where w: "Walk (\<lambda>_. s) (pack_path s src) src [] = (None, tw)" and b: "bytes = tar_bytes L tw"
    using assms by (auto simp: pack_source_def split: prod.splits option.splits)
  have "Walk (\<lambda>_. s) (pack_path s src) src []
      = for_each (\<lambda>v. pack_path s src (fst v) (snd v)) (Visits s src) []"
    by (rule Walk_Visits[where get = "\<lambda>_. s" and fn = "pack_path s src"]) (rule refl)
  then have loop: "for_each (\<lambda>v. pack_path s src (fst v) (snd v)) (Visits s src) [] = (None, tw)"
    by (rule trans[OF sym w])
  show ?thesis
  proof (cases "ReadDir s src")
    case (Inl e)
    then have "Visits s src = [(src, Inl e)]" using assms(2) by (simp add: Visits_def visits.simps[of s src])
    then show ?thesis using loop by (simp add: pack_path_def)
  next
    case (Inr names)
    then obtain vs where vs: "Visits s src = (src, Inr (ADir m)) # vs"
      using assms(2) by (simp add: Visits_def visits.simps[of s src])
    let ?h = "FileInfoHeader (ADir m) ''.''"
    have first: "pack_path s src src (Inr (ADir m)) [] = (None, [(?h, [])])"
      by (simp add: pack_path_def path_rel_self Let_def)
    have grow: "\<exists>y. c = a @ [y] \<and> True" if "pack_path s src (fst x) (snd x) a = (None, c)" for x a c
      using pack_path_packs[OF that] by blast
    have "for_each (\<lambda>v. pack_path s src (fst v) (snd v)) vs [(?h, [])] = (None, tw)"
      using loop vs first by simp
    then have "\<exists>ys. tw = [(?h, [])] @ ys \<and> list_all2 (\<lambda>_ _. True) vs ys"
      by (rule for_each_appends[where f = "\<lambda>v. pack_path s src (fst v) (snd v)" and R = "\<lambda>_ _. True", rotated])
        (rule grow)
    then show ?thesis using b by auto
  qed
qed

lemma join_dot: "is_rooted d \<Longrightarrow> path_join [d, ''.''] = path_clean d"
proof -
  assume rt: "is_rooted d"
  have "path_elems True (d @ ''/.'') = path_elems True d"
    using split_char_sep[of "CHR ''/''" d "''.''"] by (simp add: path_elems_def push_elem_def)
  then show ?thesis
    using path_join_rooted[OF rt, of "''.''"] rt rooted_nonempty by (simp add: path_clean_def)
qed

lemma dot_refused:
  assumes "is_rooted d" "Name h = ''.''"
  shows "unpack_item d (h, b, k) s = (Some (IllegalPath (path_clean d)), s)"
proof -
  have "\<not> has_prefix (path_clean d) (path_clean d @ ''/'')"
    by (auto simp: has_prefix_iff)
  then show ?thesis using assms join_dot by (simp add: unpack_item_def)
qed

end
