(* ===== verification/ArchiveSpec.thy ===== *)
theory ArchiveSpec
  imports Upload
begin

text \<open>
  The properties of the archive functions, with an executable instance of the formats: strings are
  written with a mark before every byte and one at the end.
\<close>

section \<open>Formats in memory\<close>

fun enc_str :: "string \<Rightarrow> string" where
  "enc_str [] = ''1''"
| "enc_str (c # s) = CHR ''0'' # c # enc_str s"

fun dec_str :: "string \<Rightarrow> (string \<times> string) option" where
  "dec_str [] = None"
| "dec_str (k # r) =
     (if k = CHR ''1'' then Some ([], r)
      else (case r of [] \<Rightarrow> None
            | c # r \<Rightarrow> (case dec_str r of None \<Rightarrow> None | Some (s, t) \<Rightarrow> Some (c # s, t))))"

lemma dec_enc_str [simp]: "dec_str (enc_str s @ r) = Some (s, r)"
  by (induction s) simp_all

definition enc_flag :: "typeflag \<Rightarrow> string" where
  "enc_flag f = (case f of TypeReg \<Rightarrow> ''r'' | TypeDir \<Rightarrow> ''d'' | TypeSymlink \<Rightarrow> ''l'' | TypeOther \<Rightarrow> ''o'')"

definition dec_flag :: "string \<Rightarrow> typeflag" where
  "dec_flag s = (if s = ''r'' then TypeReg else if s = ''d'' then TypeDir else if s = ''l'' then TypeSymlink else TypeOther)"

lemma dec_enc_flag [simp]: "dec_flag (enc_flag f) = f"
  by (cases f) (simp_all add: enc_flag_def dec_flag_def)

definition enc_header :: "tar_header \<Rightarrow> string" where
  "enc_header h = enc_str (Name h) @ enc_str (itoa (sint (Mode h))) @ enc_str (enc_flag (Typeflag h))
     @ enc_str (Linkname h) @ enc_str (digits_nat (Size h))"

definition dec_header :: "string \<Rightarrow> (tar_header \<times> string) option" where
  "dec_header b =
     (case dec_str b of None \<Rightarrow> None | Some (n, b) \<Rightarrow>
      (case dec_str b of None \<Rightarrow> None | Some (m, b) \<Rightarrow>
       (case parse_int64 m of None \<Rightarrow> None | Some mode \<Rightarrow>
        (case dec_str b of None \<Rightarrow> None | Some (f, b) \<Rightarrow>
         (case dec_str b of None \<Rightarrow> None | Some (l, b) \<Rightarrow>
          (case dec_str b of None \<Rightarrow> None | Some (z, b) \<Rightarrow>
             Some (\<lparr>Name = n, Mode = mode, Typeflag = dec_flag f, Linkname = l, Size = digits_val z\<rparr>, b)))))))"

lemma dec_enc_header [simp]: "dec_header (enc_header h @ r) = Some (h, r)"
  by (simp add: dec_header_def enc_header_def parse_itoa digits_nat_props)

fun enc_entries :: "(tar_header \<times> string) list \<Rightarrow> string" where
  "enc_entries [] = []"
| "enc_entries ((h, c) # es) = enc_header h @ enc_str c @ enc_entries es"

definition dec_entry :: "string \<Rightarrow> ((tar_header \<times> string) \<times> string) option" where
  "dec_entry b =
     (case dec_header b of None \<Rightarrow> None | Some (h, b) \<Rightarrow>
      (case dec_str b of None \<Rightarrow> None | Some (c, b) \<Rightarrow> Some ((h, c), b)))"

fun dec_entries :: "nat \<Rightarrow> string \<Rightarrow> tar_item list \<times> bool" where
  "dec_entries 0 b = ([], b = [])"
| "dec_entries (Suc n) b =
     (if b = [] then ([], True)
      else (case dec_entry b of
              None \<Rightarrow> ([], False)
            | Some ((h, c), b) \<Rightarrow> (case dec_entries n b of (is, ok) \<Rightarrow> ((h, c, True) # is, ok))))"

lemma dec_entry_enc [simp]: "dec_entry (enc_header h @ enc_str c @ r) = Some ((h, c), r)"
  by (simp add: dec_entry_def)

lemma enc_str_nonempty: "0 < length (enc_str s)"
  by (cases s) simp_all

lemma enc_header_nonempty: "0 < length (enc_header h)"
  using enc_str_nonempty by (simp add: enc_header_def)

lemma dec_enc_entries: "length (enc_entries es) \<le> n \<Longrightarrow> dec_entries n (enc_entries es) = (map (\<lambda>(h, c). (h, c, True)) es, True)"
proof (induction es arbitrary: n)
  case Nil
  then show ?case by (cases n) simp_all
next
  case (Cons e es)
  obtain h c where e: "e = (h, c)" by fastforce
  with Cons.prems enc_header_nonempty[of h] obtain k where n: "n = Suc k" by (cases n) auto
  have "length (enc_entries (e # es)) = length (enc_header h) + length (enc_str c) + length (enc_entries es)"
    using e by simp
  then have "length (enc_entries es) \<le> k" using Cons.prems n enc_header_nonempty[of h] by linarith
  moreover have "enc_entries (e # es) \<noteq> []" using e enc_header_nonempty[of h] by auto
  ultimately show ?case using Cons.IH[of k] e n by simp
qed

fun enc_files :: "(string \<times> string) list \<Rightarrow> string" where
  "enc_files [] = []"
| "enc_files ((n, c) # fs) = enc_str n @ enc_str c @ enc_files fs"

fun dec_files :: "nat \<Rightarrow> string \<Rightarrow> (string \<times> bool \<times> stream option) list option" where
  "dec_files 0 b = (if b = [] then Some [] else None)"
| "dec_files (Suc k) b =
     (if b = [] then Some []
      else (case dec_str b of None \<Rightarrow> None | Some (n, b) \<Rightarrow>
            (case dec_str b of None \<Rightarrow> None | Some (c, b) \<Rightarrow>
             map_option ((#) (n, False, Some (c, True))) (dec_files k b))))"

lemma dec_enc_files:
  "length (enc_files fs) \<le> n \<Longrightarrow> dec_files n (enc_files fs) = Some (map (\<lambda>(n, c). (n, False, Some (c, True))) fs)"
proof (induction fs arbitrary: n)
  case Nil
  then show ?case by (cases n) simp_all
next
  case (Cons e es)
  obtain m c where e: "e = (m, c)" by fastforce
  have len: "length (enc_files (e # es)) = length (enc_str m) + length (enc_str c) + length (enc_files es)"
    using e by simp
  with Cons.prems enc_str_nonempty[of m] obtain k where n: "n = Suc k" by (cases n) auto
  have "length (enc_files es) \<le> k" using Cons.prems len n enc_str_nonempty[of m] by linarith
  moreover have "enc_files (e # es) \<noteq> []" using len enc_str_nonempty[of m] by auto
  ultimately show ?case using Cons.IH[of k] e n by simp
qed

definition mem_peek :: "string \<Rightarrow> bool \<times> string" where
  "mem_peek b =
     (case dec_entry b of
        None \<Rightarrow> (False, drop 512 b)
      | Some ((h, c), r) \<Rightarrow> (True, if c = [] then r else enc_str c @ r))"

definition mem_lib :: archlib where
  "mem_lib = \<lparr>tar_bytes = enc_entries,
     tar_read = \<lambda>(b, ok). (case dec_entries (length b) b of (is, fin) \<Rightarrow> (is, fin \<and> ok)),
     tar_peek = mem_peek,
     gzip_bytes = \<lambda>b. CHR ''g'' # b,
     gzip_read = \<lambda>b. (case b of c # r \<Rightarrow> if c = CHR ''g'' then Some (r, True) else None | [] \<Rightarrow> None),
     zstd_bytes = \<lambda>_ b. CHR ''z'' # b,
     zstd_read = \<lambda>b. (case b of c # r \<Rightarrow> if c = CHR ''z'' then Some (r, True) else None | [] \<Rightarrow> None),
     zip_bytes = enc_files,
     zip_read = \<lambda>b. dec_files (length b) b\<rparr>"

lemma mem_lib_zip: "zip_read mem_lib (zip_bytes mem_lib fs) = Some (map (\<lambda>(n, c). (n, False, Some (c, True))) fs)"
  by (simp add: mem_lib_def dec_enc_files)

lemma mem_lib_law: "arch_law mem_lib"
proof -
  have first: "fst (mem_peek b) \<longleftrightarrow> fst (tar_read mem_lib (b, True)) \<noteq> []" for b
    by (cases b; cases "dec_entry b")
      (auto simp: mem_peek_def mem_lib_def dec_entry_def dec_header_def split: prod.splits)
  have rest: "\<exists>k. min 512 (length b) \<le> k \<and> snd (mem_peek b) = drop k b" if "\<not> fst (mem_peek b)" for b
    using that by (auto simp: mem_peek_def split: option.splits if_splits intro!: exI[of _ 512])
  have peek: "snd (mem_peek (enc_entries ((h, []) # es))) = enc_entries es" for h es
    using dec_entry_enc[of h "[]" "enc_entries es"] by (simp add: mem_peek_def)
  have lib: "tar_peek mem_lib = mem_peek" "tar_bytes mem_lib = enc_entries" by (simp_all add: mem_lib_def)
  have codecs: "zstd_read mem_lib (zstd_bytes mem_lib l b) = Some (b, True)"
    "gzip_read mem_lib (gzip_bytes mem_lib b) = Some (b, True)"
    "tar_read mem_lib (enc_entries es, True) = (map (\<lambda>(h, c). (h, c, True)) es, True)" for l b es
    by (simp_all add: mem_lib_def dec_enc_entries)
  show ?thesis unfolding arch_law_def lib using codecs first rest peek by blast
qed

section \<open>A store in memory\<close>

type_synonym mem_store = "(string \<times> string) \<Rightarrow> string option"

definition mem_client :: "mem_store store_client" where
  "mem_client = \<lparr>PutObject = \<lambda>b n (bytes, err) w.
       (if err \<noteq> None then (Some ''upload'', w) else (None, w((b, n) \<mapsto> bytes))),
     GetObject = \<lambda>b n w. (case w (b, n) of None \<Rightarrow> Inl ''missing'' | Some bytes \<Rightarrow> Inr (bytes, True))\<rparr>"

lemma mem_client_law: "store_law mem_client"
  by (auto simp: store_law_def mem_client_def)

section \<open>Properties\<close>

text \<open>C22. In a tree without symbolic links, unpacking a zstd archive below an absolute directory changes
  nothing outside this directory except missing directories on the way to it, whatever the archive holds
  and whether the call succeeds: the check of the names holds back every path that leaves the
  directory.\<close>

theorem DecompressZstd_confined:
  assumes "plain_os s" "straight dstDir" "DecompressZstd L srcPath dstDir s = (r, s')"
  shows "plain_os s' \<and> confined (abs_elems dstDir) (tree s) (tree s')"
proof (cases "\<exists>q b d. Open s srcPath = Inr q \<and> read_all s q = Inr b \<and> zstd_read L b = Some (d, True)")
  case True
  then obtain q b d where o: "Open s srcPath = Inr q" "read_all s q = Inr b" "zstd_read L b = Some (d, True)" by blast
  obtain r1 s1 where u: "unpack_data L dstDir d s = (r1, s1)" by fastforce
  then have "s' = s1" using assms(3) o by (cases r1) (simp_all add: DecompressZstd_def)
  then show ?thesis using unpack_data_confined[OF u assms(1,2)] by simp
next
  case False
  then have "s' = s"
    using assms(3)
    by (cases "Open s srcPath"; cases "read_all s (projr (Open s srcPath))";
        cases "zstd_read L (projr (read_all s (projr (Open s srcPath))))")
      (auto simp: DecompressZstd_def)
  then show ?thesis using assms(1) by simp
qed

text \<open>The small tree with an archive of one file: \<open>/z.zst\<close> holds \<open>d/g\<close>.\<close>

definition reg_entry :: "string \<Rightarrow> tar_header" where
  "reg_entry n = \<lparr>Name = n, Mode = 420, Typeflag = TypeReg, Linkname = [], Size = 1\<rparr>"

definition with_file :: "string \<Rightarrow> string \<Rightarrow> osys" where
  "with_file n c = small_tree\<lparr>tree := (case tree small_tree of Dir m es \<Rightarrow> Dir m ((n, File 420 c) # es) | t \<Rightarrow> t)\<rparr>"

lemma with_file_plain: "valid_name n \<Longrightarrow> n \<noteq> ''a'' \<Longrightarrow> plain_os (with_file n c)"
  using small_tree_plain
  by (auto simp: plain_os_def wf_os_def with_file_def small_tree_def intro!: link_free_Dir)

definition zst_file :: "string \<Rightarrow> osys" where
  "zst_file n = with_file ''z.zst'' (zstd_bytes mem_lib 5 (tar_bytes mem_lib [(reg_entry n, ''y'')]))"

lemma zst_file_plain: "plain_os (zst_file n)"
  unfolding zst_file_def by (rule with_file_plain) (simp_all add: valid_name_def)

theorem DecompressZstd_confined_witness:
  "confined [''out''] (tree (zst_file ''d/g'')) (tree (snd (DecompressZstd mem_lib ''/z.zst'' ''/out'' (zst_file ''d/g''))))"
proof -
  have "straight ''/out''" "abs_elems ''/out'' = [''out'']" by code_simp+
  moreover have "DecompressZstd mem_lib ''/z.zst'' ''/out'' (zst_file ''d/g'')
      = (fst (DecompressZstd mem_lib ''/z.zst'' ''/out'' (zst_file ''d/g'')),
         snd (DecompressZstd mem_lib ''/z.zst'' ''/out'' (zst_file ''d/g'')))" by simp
  ultimately show ?thesis using DecompressZstd_confined[OF zst_file_plain] by metis
qed


text \<open>The run on the small tree: what is packed, and that it can be unpacked whatever the bytes are.\<close>

definition small_packed :: "(tar_header \<times> string) list" where
  "small_packed =
     [(\<lparr>Name = ''a'', Mode = 493, Typeflag = TypeDir, Linkname = [], Size = 0\<rparr>, []),
      (\<lparr>Name = ''a/d'', Mode = 448, Typeflag = TypeDir, Linkname = [], Size = 0\<rparr>, []),
      (\<lparr>Name = ''a/d/g'', Mode = 384, Typeflag = TypeReg, Linkname = [], Size = 1\<rparr>, ''y''),
      (\<lparr>Name = ''a/f'', Mode = 420, Typeflag = TypeReg, Linkname = [], Size = 1\<rparr>, ''x'')]"

definition small_created :: osys where
  "small_created = snd (Create small_tree ''/z.zst'')"

lemma small_pack:
  "Create small_tree ''/z.zst'' = (Inr [''z.zst''], small_created)"
  "Stat small_created (path_join [''/'', ''a'']) = Inr (ADir 493)"
  "Walk (\<lambda>_. small_created) (pack_path small_created (path_dir (path_join [''/'', ''a'']))) (path_join [''/'', ''a'']) []
    = (None, small_packed)"
  "zst_name ''/z'' = ''/z.zst''"
  by code_simp+

lemma small_unpack:
  "Open (set_content [''z.zst''] X small_created) ''/z.zst'' = Inr [''z.zst'']"
  "read_all (set_content [''z.zst''] X small_created) [''z.zst''] = Inr X"
  "fst (MkdirAll (set_content [''z.zst''] X small_created) ''/out'' 493) = None"
  "fst (for_each (unpack_item ''/out'') (map (\<lambda>(h, c). (h, c, True)) small_packed)
     (snd (MkdirAll (set_content [''z.zst''] X small_created) ''/out'' 493))) = None"
  by code_simp+

lemma small_compress:
  "CompressZstd L (path_join [''/'', ''a'']) ''/z'' [] small_tree
   = (Inr ''/z.zst'', set_content [''z.zst''] (zstd_bytes L 5 (tar_bytes L small_packed)) small_created)"
  using small_pack by (simp add: CompressZstd_def pack_source_def level_of_def Let_def)

lemma small_decompress:
  assumes "arch_law L"
  shows "fst (DecompressZstd L ''/z.zst'' ''/out''
    (set_content [''z.zst''] (zstd_bytes L 5 (tar_bytes L small_packed)) small_created)) = Inr ''/out''"
proof -
  let ?X = "zstd_bytes L 5 (tar_bytes L small_packed)"
  let ?s = "set_content [''z.zst''] ?X small_created"
  have rd: "tar_read L (tar_bytes L small_packed, True) = (map (\<lambda>(h, c). (h, c, True)) small_packed, True)"
    using arch_lawD(3)[OF assms] .
  then have pk: "fst (tar_peek L (tar_bytes L small_packed))"
    using arch_lawD(4)[OF assms] by (simp add: small_packed_def)
  obtain s1 where s1: "MkdirAll ?s ''/out'' 493 = (None, s1)" using pair_of_fst[OF small_unpack(3)] by blast
  obtain s2 where "for_each (unpack_item ''/out'') (map (\<lambda>(h, c). (h, c, True)) small_packed) s1 = (None, s2)"
    using pair_of_fst[OF small_unpack(4)[of ?X]] s1 by fastforce
  then show ?thesis
    using small_unpack(1,2)[of ?X] arch_lawD(1)[OF assms] rd pk s1
    by (simp add: DecompressZstd_def unpack_data_def unpack_all_def)
qed


text \<open>C24. An entry named \<open>../n\<close> is written beside the target directory by the functions for tar.gz and
  zip archives, which do not look at the names; the unpacking of zstd archives refuses it.\<close>

theorem parent_entry_escapes:
  assumes "plain_os s" "straight dst" "valid_name n" "abs_elems dst = D @ [y]" "n \<noteq> y"
    and "Name h = ''../'' @ n" "Typeflag h = TypeReg"
    and tgz: "ReadFile s f = Inr b" "gzip_read L b = Some str" "tar_read L str = ([(h, body, True)], True)"
      "DecompressTarGz L f dst s = (None, s1)"
    and zip: "MkdirAll s dst ModePerm = (None, s0)" "ReadFile s0 g = Inr z"
      "zip_read L z = Some [(''../'' @ n, False, Some (body, True))]" "UnzipDir L g dst s = (None, s2)"
  shows "(\<exists>k. look (tree s1) (D @ [n]) = Some (AFile k body))
    \<and> (\<exists>k. look (tree s2) (D @ [n]) = Some (AFile k body))
    \<and> \<not> below (abs_elems dst) (D @ [n])
    \<and> unpack_item dst (h, body, True) s = (Some (IllegalPath (path_join [dst, Name h])), s)"
proof -
  have rt: "is_rooted dst" using assms(2) straight_rooted by blast
  have T: "abs_elems (path_join [dst, ''../'' @ n]) = D @ [n]"
    using parent_elems[OF rt assms(3)] assms(4) by simp
  have nb: "\<not> below (abs_elems dst) (D @ [n])" using assms(4,5) by (simp add: below_def)
  have "untar_item dst (h, body, True) s = (None, s1)"
    using tgz by (auto simp: DecompressTarGz_def split: option.splits prod.splits)
  then have 1: "\<exists>k. look (tree s1) (D @ [n]) = Some (AFile k body)"
    using untar_item_plain[OF _ assms(1) rt assms(7)] T assms(6) by simp
  have "unzip_item dst (''../'' @ n, False, Some (body, True)) s0 = (None, s2)"
    using zip by (auto simp: UnzipDir_def split: option.splits prod.splits)
  then have 2: "\<exists>k. look (tree s2) (D @ [n]) = Some (AFile k body)"
    using unzip_item_plain[OF _ plain_MkdirAll[OF zip(1) assms(1)] rt] T by fastforce
  show ?thesis using 1 2 nb parent_refused[OF rt assms(3,4,6)] by blast
qed

text \<open>A tree with an archive of either kind whose entry leads out of \<open>/d\<close>.\<close>

definition two_archives :: "string \<Rightarrow> string \<Rightarrow> osys" where
  "two_archives X Y = \<lparr>tree = Dir 493 [(''d'', Dir 493 []), (''t'', File 420 X), (''z'', File 420 Y)], cwd = [], umask = 18\<rparr>"

lemma two_archives_plain: "plain_os (two_archives X Y)"
  by (auto simp: plain_os_def wf_os_def two_archives_def valid_name_def intro!: link_free_Dir)

lemma two_archives_reads:
  "ReadFile (two_archives X Y) ''/t'' = Inr X" "ReadFile (two_archives X Y) ''/z'' = Inr Y"
  "MkdirAll (two_archives X Y) ''/d'' ModePerm = (None, two_archives X Y)"
  by code_simp+

lemma two_archives_untar:
  "fst (untar_item ''/d'' (reg_entry ''../n'', ''y'', True) (two_archives X Y)) = None"
  by code_simp

lemma two_archives_unzip:
  "fst (unzip_item ''/d'' (''../n'', False, Some (''y'', True)) (two_archives X Y)) = None"
  by code_simp

definition escape_os :: osys where
  "escape_os = two_archives (gzip_bytes mem_lib (tar_bytes mem_lib [(reg_entry ''../n'', ''y'')]))
     (zip_bytes mem_lib [(''../n'', ''y'')])"

lemma escape_items:
  shows escape_untar: "fst (untar_item ''/d'' (reg_entry ''../n'', ''y'', True) escape_os) = None"
    and escape_unzip: "fst (unzip_item ''/d'' (''../n'', False, Some (''y'', True)) escape_os) = None"
    and escape_mkdir: "MkdirAll escape_os ''/d'' ModePerm = (None, escape_os)"
  unfolding escape_os_def by (rule two_archives_untar two_archives_unzip two_archives_reads(3))+

lemma escape_reads:
  "ReadFile escape_os ''/t'' = Inr (gzip_bytes mem_lib (tar_bytes mem_lib [(reg_entry ''../n'', ''y'')]))"
  "ReadFile escape_os ''/z'' = Inr (zip_bytes mem_lib [(''../n'', ''y'')])"
  "tar_read mem_lib (tar_bytes mem_lib [(reg_entry ''../n'', ''y'')], True) = ([(reg_entry ''../n'', ''y'', True)], True)"
  "zip_read mem_lib (zip_bytes mem_lib [(''../n'', ''y'')]) = Some [(''../n'', False, Some (''y'', True))]"
  proof -
  show "ReadFile escape_os ''/t'' = Inr (gzip_bytes mem_lib (tar_bytes mem_lib [(reg_entry ''../n'', ''y'')]))"
    "ReadFile escape_os ''/z'' = Inr (zip_bytes mem_lib [(''../n'', ''y'')])"
    unfolding escape_os_def by (rule two_archives_reads)+
  show "tar_read mem_lib (tar_bytes mem_lib [(reg_entry ''../n'', ''y'')], True) = ([(reg_entry ''../n'', ''y'', True)], True)"
    using arch_lawD(3)[OF mem_lib_law] by simp
  show "zip_read mem_lib (zip_bytes mem_lib [(''../n'', ''y'')]) = Some [(''../n'', False, Some (''y'', True))]"
    unfolding mem_lib_zip by simp
qed

lemma one_entry_runs:
  "ReadFile s f = Inr b \<Longrightarrow> gzip_read L b = Some str \<Longrightarrow> tar_read L str = ([i], True)
    \<Longrightarrow> fst (untar_item dst i s) = None \<Longrightarrow> fst (DecompressTarGz L f dst s) = None"
  "MkdirAll s dst ModePerm = (None, s) \<Longrightarrow> ReadFile s f = Inr b \<Longrightarrow> zip_read L b = Some [z]
    \<Longrightarrow> fst (unzip_item dst z s) = None \<Longrightarrow> fst (UnzipDir L f dst s) = None"
  by (auto simp: DecompressTarGz_def UnzipDir_def split: prod.splits option.splits)

lemma escape_runs:
  "fst (DecompressTarGz mem_lib ''/t'' ''/d'' escape_os) = None"
  "fst (UnzipDir mem_lib ''/z'' ''/d'' escape_os) = None"
proof -
  show "fst (DecompressTarGz mem_lib ''/t'' ''/d'' escape_os) = None"
    by (rule one_entry_runs(1)[OF escape_reads(1) arch_lawD(2)[OF mem_lib_law] escape_reads(3)
        escape_untar])
  show "fst (UnzipDir mem_lib ''/z'' ''/d'' escape_os) = None"
    by (rule one_entry_runs(2)[OF escape_mkdir escape_reads(2,4)
        escape_unzip])
qed

theorem parent_entry_escapes_witness:
  "\<exists>k. look (tree (snd (DecompressTarGz mem_lib ''/t'' ''/d'' escape_os))) [''n''] = Some (AFile k ''y'')"
proof -
  have pre: "straight ''/d''" "valid_name ''n''" "abs_elems ''/d'' = [] @ [''d'']" by code_simp+
  have pl: "plain_os escape_os" unfolding escape_os_def by (rule two_archives_plain)
  have hd: "Name (reg_entry ''../n'') = ''../'' @ ''n''" "Typeflag (reg_entry ''../n'') = TypeReg"
    by (simp_all add: reg_entry_def)
  have zr: "zip_read mem_lib (zip_bytes mem_lib [(''../n'', ''y'')]) = Some [(''../'' @ ''n'', False, Some (''y'', True))]"
    using escape_reads(4) by simp
  show ?thesis
    using parent_entry_escapes[OF pl pre _ hd escape_reads(1) arch_lawD(2)[OF mem_lib_law] escape_reads(3)
        pair_of_fst[OF escape_runs(1)] escape_mkdir escape_reads(2) zr pair_of_fst[OF escape_runs(2)]]
    by simp
qed

section \<open>Properties of the transfers\<close>

text \<open>A single file that is packed and uploaded comes back without its first block: the reader that
  looks for a tar header has taken at least 512 bytes, or all there are, from the stream before the
  content is copied; the call reports success.\<close>

theorem uploaded_file_loses_block:
  assumes "arch_law L" "store_law C" "Stat s src = Inr (AFile m c)" "ReadFile s src = Inr c" "\<not> fst (tar_peek L c)"
    and up: "CompressAndUpload L C s b src n lv w = (Inr name, w')"
    and "plain_os t" "straight dst"
    and down: "DownloadAndDecompress L C w' b name dst t = (Inr d, t')"
  shows "\<exists>k j. min 512 (length c) \<le> k \<and> look (tree t') (abs_elems dst) = Some (AFile j (drop k c))"
proof -
  obtain bytes where p: "pack_source L s src (path_dir src) = (None, bytes)"
    and g: "GetObject C b name w' = Inr (zstd_bytes L (level_of lv) bytes, True)"
    using upload_put[OF up[unfolded CompressAndUpload_def] assms(2)] by blast
  have bc: "bytes = c" using pack_single[OF p assms(3,4)] .
  obtain k where k: "min 512 (length c) \<le> k" "snd (tar_peek L c) = drop k c" using arch_lawD(5)[OF assms(1,5)] by blast
  obtain e t1 where ws: "write_single dst (drop k c) True t = (e, t1)" by fastforce
  have "e = None \<and> t1 = t'"
    using down g arch_lawD(1)[OF assms(1)] bc assms(5) k(2) ws
    by (cases "tar_peek L c"; cases e) (simp_all add: DownloadAndDecompress_def)
  then show ?thesis using write_single_confined[OF ws assms(7,8)] k(1) by blast
qed

lemma single_runs:
  "pack_source L small_tree ''/a/f'' (path_dir ''/a/f'') = (None, ''x'')"
  "Stat small_tree ''/a/f'' = Inr (AFile 420 ''x'')" "ReadFile small_tree ''/a/f'' = Inr ''x''"
  "zst_name ''o'' = ''o.zst''"
  "fst (write_single ''/out'' [] True small_tree) = None"
  "straight ''/out''" "abs_elems ''/out'' = [''out'']"
  by code_simp+

lemma single_peek: "tar_peek mem_lib ''x'' = (False, [])"
  by (simp add: mem_lib_def mem_peek_def dec_entry_def dec_header_def)

lemma single_upload:
  "CompressAndUpload mem_lib mem_client small_tree ''b'' ''/a/f'' ''o'' lv w
   = (Inr ''o.zst'', w((''b'', ''o.zst'') \<mapsto> zstd_bytes mem_lib (level_of lv) ''x''))"
  by (simp add: CompressAndUpload_def compress_upload_def Let_def single_runs(1,4) mem_client_def)

lemma single_download:
  "fst (DownloadAndDecompress mem_lib mem_client (w((b, n) \<mapsto> zstd_bytes mem_lib l ''x'')) b n ''/out'' small_tree)
   = Inr ''/out''"
  using single_runs(5) arch_lawD(1)[OF mem_lib_law, of l "''x''"]
  by (auto simp: DownloadAndDecompress_def single_peek mem_client_def split: prod.splits option.splits)

theorem uploaded_file_loses_block_witness:
  "\<exists>j. look (tree (snd (DownloadAndDecompress mem_lib mem_client
       (snd (CompressAndUpload mem_lib mem_client small_tree ''b'' ''/a/f'' ''o'' [] Map.empty)) ''b'' ''o.zst'' ''/out'' small_tree)))
     [''out''] = Some (AFile j [])"
proof -
  have "\<not> fst (tar_peek mem_lib ''x'')" by (simp add: single_peek)
  from uploaded_file_loses_block[OF mem_lib_law mem_client_law single_runs(2,3) this single_upload[of "[]" Map.empty]
      small_tree_plain single_runs(6) pair_of_fst[OF single_download]]
  obtain k j where "1 \<le> k" and r: "look (tree (snd (DownloadAndDecompress mem_lib mem_client
       [(''b'', ''o.zst'') \<mapsto> zstd_bytes mem_lib (level_of []) ''x''] ''b'' ''o.zst'' ''/out'' small_tree)))
     [''out''] = Some (AFile j (drop k ''x''))" unfolding single_runs(7) by auto
  then have "drop k ''x'' = []" by simp
  then show ?thesis using r unfolding single_upload by (metis snd_conv)
qed

text \<open>The archive of a directory relative to itself begins with an entry for the directory, named by
  a dot. DecompressZstd refuses such an archive for every target directory. DownloadAndDecompress drops
  the first entry unseen and unpacks exactly the others.\<close>

theorem self_archive_first_entry:
  assumes "arch_law L" "store_law C" "Lstat s src = Inr (ADir m)" "Stat s src = Inr (ADir m)"
    and "CompressAndUploadSelf L C s b src n lv w = (Inr name, w')" "GetObject C b name w' = Inr (bytes, ok)"
  shows "\<exists>rest. (\<forall>f q dst t. Open t f = Inr q \<longrightarrow> read_all t q = Inr bytes \<longrightarrow> is_rooted dst \<longrightarrow>
        fst (DecompressZstd L f dst t) \<noteq> Inr dst)
    \<and> (\<forall>dst t t'. DownloadAndDecompress L C w' b name dst t = (Inr dst, t') \<longrightarrow>
        (\<exists>t1. MkdirAll t dst 493 = (None, t1)
          \<and> for_each (download_item dst) (map (\<lambda>(h, c). (h, c, True)) rest) t1 = (None, t')))
    \<and> (\<exists>h. zstd_read L bytes = Some (tar_bytes L ((h, []) # rest), True) \<and> Name h = ''.'')"
proof -
  obtain data where p: "pack_source L s src src = (None, data)"
    and g: "GetObject C b name w' = Inr (zstd_bytes L (level_of lv) data, True)"
    using upload_put[OF assms(5)[unfolded CompressAndUploadSelf_def] assms(2)] by blast
  obtain h rest where d: "data = tar_bytes L ((h, []) # rest)" "Name h = ''.''"
    using pack_self_first[OF p assms(3,4)] by blast
  have z: "zstd_read L bytes = Some (data, True)" using g assms(6) arch_lawD(1)[OF assms(1)] by simp
  have rd: "tar_read L (data, True) = ((h, [], True) # map (\<lambda>(h, c). (h, c, True)) rest, True)"
    using arch_lawD(3)[OF assms(1)] d by simp
  then have pk: "fst (tar_peek L data)" using arch_lawD(4)[OF assms(1)] by simp
  have rest: "snd (tar_peek L data) = tar_bytes L rest" using arch_lawD(6)[OF assms(1)] d by simp
  have "fst (DecompressZstd L f dst t) \<noteq> Inr dst"
    if "Open t f = Inr q" "read_all t q = Inr bytes" "is_rooted dst" for f q dst t
  proof -
    obtain r1 t1 where mk: "MkdirAll t dst 493 = (r1, t1)" by fastforce
    then show ?thesis
      using that z pk rd dot_refused[OF that(3) d(2)]
      by (cases r1) (simp_all add: DecompressZstd_def unpack_data_def unpack_all_def)
  qed
  moreover have "\<exists>t1. MkdirAll t dst 493 = (None, t1)
      \<and> for_each (download_item dst) (map (\<lambda>(h, c). (h, c, True)) rest) t1 = (None, t')"
    if down: "DownloadAndDecompress L C w' b name dst t = (Inr dst, t')" for dst t t'
  proof -
    obtain r1 t1 where mk: "MkdirAll t dst 493 = (r1, t1)" by fastforce
    obtain r2 t2 where fe: "for_each (download_item dst) (map (\<lambda>(h, c). (h, c, True)) rest) t1 = (r2, t2)" by fastforce
    have rr: "tar_read L (tar_bytes L rest, True) = (map (\<lambda>(h, c). (h, c, True)) rest, True)"
      using arch_lawD(3)[OF assms(1)] .
    have "tar_peek L data = (True, tar_bytes L rest)" using pk rest by (cases "tar_peek L data") simp
    then show ?thesis
      using down assms(6) z mk fe rr g
      by (cases r1; cases r2) (simp_all add: DownloadAndDecompress_def)
  qed
  ultimately show ?thesis using z d by blast
qed

definition self_packed :: "(tar_header \<times> string) list" where
  "self_packed =
     [(\<lparr>Name = ''.'', Mode = 493, Typeflag = TypeDir, Linkname = [], Size = 0\<rparr>, []),
      (\<lparr>Name = ''d'', Mode = 448, Typeflag = TypeDir, Linkname = [], Size = 0\<rparr>, []),
      (\<lparr>Name = ''d/g'', Mode = 384, Typeflag = TypeReg, Linkname = [], Size = 1\<rparr>, ''y''),
      (\<lparr>Name = ''f'', Mode = 420, Typeflag = TypeReg, Linkname = [], Size = 1\<rparr>, ''x'')]"

lemma self_runs:
  "Walk (\<lambda>_. small_tree) (pack_path small_tree ''/a'') ''/a'' [] = (None, self_packed)"
  "Stat small_tree ''/a'' = Inr (ADir 493)" "Lstat small_tree ''/a'' = Inr (ADir 493)" "is_rooted ''/out''"
  "Open (with_file ''z.zst'' X) ''/z.zst'' = Inr [''z.zst'']" "read_all (with_file ''z.zst'' X) [''z.zst''] = Inr X"
  by code_simp+

lemma self_upload:
  "CompressAndUploadSelf mem_lib mem_client small_tree ''b'' ''/a'' ''o'' lv w
   = (Inr ''o.zst'', w((''b'', ''o.zst'') \<mapsto> zstd_bytes mem_lib (level_of lv) (tar_bytes mem_lib self_packed)))"
  by (simp add: CompressAndUploadSelf_def compress_upload_def pack_source_def Let_def self_runs single_runs(4) mem_client_def)

theorem self_archive_first_entry_witness:
  "fst (DecompressZstd mem_lib ''/z.zst'' ''/out''
     (with_file ''z.zst'' (zstd_bytes mem_lib 5 (tar_bytes mem_lib self_packed)))) \<noteq> Inr ''/out''"
proof -
  let ?X = "zstd_bytes mem_lib (level_of []) (tar_bytes mem_lib self_packed)"
  have "GetObject mem_client ''b'' ''o.zst'' (Map.empty((''b'', ''o.zst'') \<mapsto> ?X)) = Inr (?X, True)"
    by (simp add: mem_client_def)
  from self_archive_first_entry[OF mem_lib_law mem_client_law self_runs(3,2) self_upload[of "[]" Map.empty] this]
  have "fst (DecompressZstd mem_lib f dst t) \<noteq> Inr dst"
    if "Open t f = Inr q" "read_all t q = Inr ?X" "is_rooted dst" for f q dst t
    using that by blast
  from this[OF self_runs(5,6,4)] show ?thesis by (simp only: level_of_def list.size less_irrefl if_False not_False_eq_True)
qed

end
