(* ===== verification/Pathx.thy ===== *)
theory Pathx
  imports ArchiveFacts
begin

text \<open>
  The package \<open>pathx\<close> (\<open>pathx/file.go\<close>, \<open>path.go\<close>, \<open>readlink.go\<close>): existence tests, homes, renaming,
  counting, the search for the root of a module and the destination of a link. The environment of the
  process (\<open>HOME\<close>, \<open>GOPATH\<close>, random names) and the MD5 function are arguments. A loop or a recursion
  that need not end has \<open>None\<close> for not returning.
\<close>

section \<open>Errors\<close>

datatype path_error =
    OsFail errno
  | AlreadyExists string
  | NotInGopath string
  | NoHome

type_synonym path_result = "path_error option \<times> osys"

definition os_fail :: "errno option \<times> osys \<Rightarrow> path_result" where
  "os_fail r = (case r of (e, s) \<Rightarrow> (map_option OsFail e, s))"

section \<open>Files\<close>

definition FileExists :: "osys \<Rightarrow> string \<Rightarrow> bool" where
  "FileExists s file = (case Stat s file of Inl _ \<Rightarrow> False | Inr _ \<Rightarrow> True)"

definition CreateIfNotExist :: "string \<Rightarrow> osys \<Rightarrow> (path_error + string list) \<times> osys" where
  "CreateIfNotExist file s =
     (let exists = (case Stat s file of Inl e \<Rightarrow> \<not> is_not_exist e | Inr _ \<Rightarrow> True) in
      if exists then (Inl (AlreadyExists file), s)
      else (case Create s file of
              (Inl e, s) \<Rightarrow> (Inl (OsFail e), s)
            | (Inr f, s) \<Rightarrow> (Inr f, s)))"

definition RemoveIfExist :: "string \<Rightarrow> osys \<Rightarrow> path_result" where
  "RemoveIfExist filename s = (if \<not> FileExists s filename then (None, s) else os_fail (Remove s filename))"

text \<open>The question is printed and a line is read; the answer does not matter.\<close>

definition RemoveOrQuit :: "string \<Rightarrow> osys \<Rightarrow> path_result" where
  "RemoveOrQuit filename s = (if \<not> FileExists s filename then (None, s) else os_fail (Remove s filename))"

definition FileNameWithoutExt :: "string \<Rightarrow> string" where
  "FileNameWithoutExt file = trim_suffix file (path_ext file)"

definition MkdirIfNotExist :: "string \<Rightarrow> osys \<Rightarrow> path_result" where
  "MkdirIfNotExist dir s =
     (if length dir = 0 then (None, s)
      else (case Stat s dir of
              Inl e \<Rightarrow> if is_not_exist e then os_fail (MkdirAll s dir ModePerm) else (None, s)
            | Inr _ \<Rightarrow> (None, s)))"

text \<open>Two paths are the same file when they lead to the same place of the tree.\<close>

definition SameFile :: "osys \<Rightarrow> string \<Rightarrow> string \<Rightarrow> path_error + bool" where
  "SameFile s path1 path2 =
     (case Open s path1 of
        Inl e \<Rightarrow> Inl (OsFail e)
      | Inr q1 \<Rightarrow> (case Open s path2 of Inl e \<Rightarrow> Inl (OsFail e) | Inr q2 \<Rightarrow> Inr (q1 = q2)))"

definition CreateFile :: "string \<Rightarrow> string \<Rightarrow> bool \<Rightarrow> osys \<Rightarrow> path_result" where
  "CreateFile file content force s =
     (if FileExists s file \<and> \<not> force then (None, s)
      else (case Create s file of
              (Inl e, s) \<Rightarrow> (Some (OsFail e), s)
            | (Inr f, s) \<Rightarrow> (None, set_content f content s)))"

definition Copy :: "string \<Rightarrow> string \<Rightarrow> osys \<Rightarrow> path_result" where
  "Copy src dest s =
     (case Open s src of
        Inl e \<Rightarrow> (Some (OsFail e), s)
      | Inr f \<Rightarrow>
          (case MkdirIfNotExist (path_dir dest) s of
             (Some e, s) \<Rightarrow> (Some e, s)
           | (None, s) \<Rightarrow>
               (case Create s dest of
                  (Inl e, s) \<Rightarrow> (Some (OsFail e), s)
                | (Inr w, s) \<Rightarrow>
                    (let s = change_node (chmod_node ModePerm) w s in
                     case read_all s f of
                       Inl e \<Rightarrow> (Some (OsFail e), s)
                     | Inr content \<Rightarrow> (None, set_content w content s)))))"

definition Hash :: "(string \<Rightarrow> string) \<Rightarrow> osys \<Rightarrow> string \<Rightarrow> path_error + string" where
  "Hash md5 s file =
     (case Open s file of
        Inl e \<Rightarrow> Inl (OsFail e)
      | Inr f \<Rightarrow> (case read_all s f of Inl e \<Rightarrow> Inl (OsFail e) | Inr c \<Rightarrow> Inr (hex_string 97 (md5 c))))"

text \<open>The random names \<open>MkdirTemp\<close> tries, at most 10000; \<open>None\<close> is the end of the program.\<close>

fun mkdir_temp :: "string \<Rightarrow> string list \<Rightarrow> osys \<Rightarrow> string option \<times> osys" where
  "mkdir_temp tmp [] s = (None, s)"
| "mkdir_temp tmp (n # ns) s =
     (case Mkdir s (path_join [tmp, n]) 448 of
        (None, s) \<Rightarrow> (Some (path_join [tmp, n]), s)
      | (Some e, s) \<Rightarrow> if e = EEXIST then mkdir_temp tmp ns s else (None, s))"

definition MustTempDir :: "string \<Rightarrow> string list \<Rightarrow> osys \<Rightarrow> string option \<times> osys" where
  "MustTempDir tmp names s = mkdir_temp tmp (take 10000 names) s"

section \<open>Homes\<close>

definition RegisterGoctlHome :: "string \<Rightarrow> string \<Rightarrow> string" where
  "RegisterGoctlHome home goctlHome = home"

definition GetDefaultGoctlHome :: "string \<Rightarrow> path_error + string" where
  "GetDefaultGoctlHome env = (if env = [] then Inl NoHome else Inr (path_join [env, ''.goctl'']))"

definition GetGoctlHome :: "string \<Rightarrow> string \<Rightarrow> osys \<Rightarrow> (path_error + string) \<times> osys" where
  "GetGoctlHome env goctlHome s =
     (case (if length goctlHome \<noteq> 0 then Inr goctlHome else GetDefaultGoctlHome env) of
        Inl e \<Rightarrow> (Inl e, s)
      | Inr home \<Rightarrow>
          (Inr home,
           (case Stat s home of
              Inr info \<Rightarrow>
                if \<not> is_dir info then snd (MkdirIfNotExist home (snd (Rename s home (home @ ''.old'')))) else s
            | Inl _ \<Rightarrow> s)))"

definition home_join :: "string \<Rightarrow> string \<Rightarrow> string \<Rightarrow> osys \<Rightarrow> (path_error + string) \<times> osys" where
  "home_join sub env goctlHome s =
     (case GetGoctlHome env goctlHome s of
        (Inl e, s) \<Rightarrow> (Inl e, s)
      | (Inr goctlH, s) \<Rightarrow> (Inr (path_join [goctlH, sub]), s))"

definition GetGitHome :: "string \<Rightarrow> string \<Rightarrow> osys \<Rightarrow> (path_error + string) \<times> osys" where
  "GetGitHome env goctlHome s = home_join ''.git'' env goctlHome s"

definition GetAutoCompleteHome :: "string \<Rightarrow> string \<Rightarrow> osys \<Rightarrow> (path_error + string) \<times> osys" where
  "GetAutoCompleteHome env goctlHome s = home_join ''.auto_complete'' env goctlHome s"

definition GetCacheDir :: "string \<Rightarrow> string \<Rightarrow> osys \<Rightarrow> (path_error + string) \<times> osys" where
  "GetCacheDir env goctlHome s = home_join ''cache'' env goctlHome s"

section \<open>Renaming and counting\<close>

definition new_name :: "string \<Rightarrow> string \<Rightarrow> string \<Rightarrow> string" where
  "new_name prefix suffix name =
     (let fileExt = path_ext name; fileBase = trim_suffix name fileExt
      in prefix @ fileBase @ suffix @ fileExt)"

function RenameFilesWithPrefixAndSuffix :: "string \<Rightarrow> string \<Rightarrow> string \<Rightarrow> osys \<Rightarrow> path_result" where
  "RenameFilesWithPrefixAndSuffix dir prefix suffix s =
     (case ReadDir s dir of
        Inl e \<Rightarrow> (Some (OsFail e), s)
      | Inr files \<Rightarrow>
          for_each (\<lambda>file s.
            let filePath = path_join [dir, fst file] in
            if is_dir (snd file) then RenameFilesWithPrefixAndSuffix filePath prefix suffix s
            else os_fail (Rename s filePath (path_join [dir, new_name prefix suffix (fst file)]))) files s)"
  by pat_completeness auto
termination
  by (relation "measure (\<lambda>(dir, _, _, _). path_room dir)") (auto dest!: ReadDir_names intro!: path_room_join)

declare RenameFilesWithPrefixAndSuffix.simps [simp del]

definition RenameFilesAndDirWithPrefixAndSuffix :: "string \<Rightarrow> string \<Rightarrow> string \<Rightarrow> osys \<Rightarrow> path_result" where
  "RenameFilesAndDirWithPrefixAndSuffix dir prefix suffix s =
     (case ReadDir s dir of
        Inl e \<Rightarrow> (Some (OsFail e), s)
      | Inr files \<Rightarrow>
          for_each (\<lambda>file s.
            let filePath = path_join [dir, fst file] in
            if is_dir (snd file) then
              let newDirPath = path_join [dir, prefix @ fst file @ suffix] in
              case Rename s filePath newDirPath of
                (Some e, s) \<Rightarrow> (Some (OsFail e), s)
              | (None, s) \<Rightarrow> RenameFilesWithPrefixAndSuffix newDirPath prefix suffix s
            else os_fail (Rename s filePath (path_join [dir, new_name prefix suffix (fst file)]))) files s)"

definition count_path :: "string \<Rightarrow> errno + entry \<Rightarrow> int64 \<Rightarrow> errno option \<times> int64" where
  "count_path path info count =
     (case info of
        Inl e \<Rightarrow> (Some e, count)
      | Inr fi \<Rightarrow> (None, if \<not> is_dir fi then count + 1 else count))"

definition CountFiles :: "osys \<Rightarrow> string \<Rightarrow> int64 \<times> errno option" where
  "CountFiles s path = (case Walk (\<lambda>_. s) count_path path 0 of (err, count) \<Rightarrow> (count, err))"

section \<open>Modules\<close>

definition JoinPackages :: "string list \<Rightarrow> string" where
  "JoinPackages pkgs = join pkgs ''/''"

text \<open>\<open>None\<close> is a panic: the slice starts behind the end of the working directory.\<close>

definition PathFromGoSrc :: "string \<Rightarrow> string \<Rightarrow> string \<Rightarrow> (path_error + string) option" where
  "PathFromGoSrc dir gopath projName =
     (let parent = path_join [gopath, ''src'', projName] in
      case index_of dir parent of
        None \<Rightarrow> Some (Inl (NotInGopath dir))
      | Some _ \<Rightarrow> map_option Inr (slice dir (length parent + 1) (length dir)))"

partial_function (option) find_go_mod :: "osys \<Rightarrow> string \<Rightarrow> string \<Rightarrow> string option option" where
  "find_go_mod s absDir tempPath =
     (if FileExists s (path_join [tempPath, ''go.mod'']) then
        Some (Some (trim_prefix (drop (length tempPath) absDir) ''/''))
      else if tempPath = path_dir tempPath then Some None
      else (let tempPath = path_dir tempPath in
            if tempPath = ''/'' then Some None else find_go_mod s absDir tempPath))"

definition FindGoModPath :: "osys \<Rightarrow> string \<Rightarrow> (string \<times> bool) option" where
  "FindGoModPath s dir =
     (let absDir = replace None (Abs s dir) [CHR 0x5C] ''/'' in
      map_option (\<lambda>r. case r of Some rootPath \<Rightarrow> (rootPath, True) | None \<Rightarrow> ([], False)) (find_go_mod s absDir absDir))"

partial_function (option) find_project :: "osys \<Rightarrow> string \<Rightarrow> (string \<times> bool) option" where
  "find_project s dir =
     (if FileExists s (path_join [dir, ''go.mod'']) then Some (dir, True)
      else (let dir = path_dir dir in if dir = ''/'' then Some ([], False) else find_project s dir))"

definition FindProjectPath :: "osys \<Rightarrow> string \<Rightarrow> (string \<times> bool) option" where
  "FindProjectPath s loc = find_project s (if is_rooted loc then loc else path_join [Getwd s, loc])"

section \<open>Links\<close>

definition isLink :: "osys \<Rightarrow> string \<Rightarrow> errno + bool" where
  "isLink s name = (case Lstat s name of Inl e \<Rightarrow> Inl e | Inr fi \<Rightarrow> Inr (is_link fi))"

text \<open>On Windows \<open>readlink+polyfill.go\<close> has a version that does not look at the file system.\<close>

definition ReadLink_windows :: "string \<Rightarrow> errno + string" where
  "ReadLink_windows name = Inr name"

partial_function (option) ReadLink :: "osys \<Rightarrow> string \<Rightarrow> (errno + string) option" where
  "ReadLink s name =
     (let name = Abs s name in
      case Lstat s name of
        Inl _ \<Rightarrow> Some (Inr name)
      | Inr _ \<Rightarrow>
          if name = ''/'' \<or> name = ''/var'' then Some (Inr name)
          else (case isLink s name of
              Inl e \<Rightarrow> Some (Inl e)
            | Inr islink \<Rightarrow>
                if \<not> islink then
                  Option.bind (ReadLink s (path_clean (fst (path_split name)))) (\<lambda>r.
                    case r of Inl e \<Rightarrow> Some (Inl e) | Inr dir \<Rightarrow> Some (Inr (path_join [dir, snd (path_split name)])))
                else (case Readlink s name of
                    Inl e \<Rightarrow> Some (Inl e)
                  | Inr link \<Rightarrow>
                      Option.bind (ReadLink s (path_dir (fst (path_split link)))) (\<lambda>r.
                        case r of Inl e \<Rightarrow> Some (Inl e) | Inr dir \<Rightarrow> Some (Inr (path_join [dir, snd (path_split link)]))))))"

section \<open>Absolute paths\<close>

text \<open>The clean path of a list of elements.\<close>

definition abs_path :: "string list \<Rightarrow> string" where
  "abs_path D = CHR ''/'' # join D ''/''"

definition clean_elems :: "string list \<Rightarrow> bool" where
  "clean_elems D \<longleftrightarrow> kept_ok True (rev D)"

lemma clean_elems_snoc: "clean_elems (D @ [x]) \<Longrightarrow> clean_elems D \<and> x \<noteq> [] \<and> CHR ''/'' \<notin> set x"
  by (simp add: clean_elems_def)

lemma clean_elems_take: "clean_elems (D @ E) \<Longrightarrow> clean_elems D"
  by (induction E rule: rev_induct) (auto simp: clean_elems_def simp flip: append_assoc)

lemma clean_elems_abs [simp]: "clean_elems (abs_elems p)"
  by (simp add: clean_elems_def abs_elems_def path_elems_kept_ok)

lemma abs_path_Nil [simp]: "abs_path [] = ''/''"
  by (simp add: abs_path_def)

lemma abs_path_rooted [simp]: "is_rooted (abs_path D)"
  by (simp add: abs_path_def is_rooted_def)

lemma abs_path_snoc: "abs_path (D @ [x]) = (if D = [] then ''/'' else abs_path D @ ''/'') @ x"
  by (simp add: abs_path_def join_snoc)

lemma abs_path_elems: "clean_elems D \<Longrightarrow> abs_elems (abs_path D) = D"
  by (simp add: abs_path_def clean_elems_def abs_elems_def path_elems_join_kept)

lemma abs_path_clean: "clean_elems D \<Longrightarrow> path_clean (abs_path D) = abs_path D"
  using abs_path_elems by (simp add: clean_rooted) (simp add: abs_path_def)

lemma clean_abs_path: "is_rooted p \<Longrightarrow> path_clean p = abs_path (abs_elems p)"
  by (simp add: clean_rooted abs_path_def)

lemma abs_path_slash: "clean_elems D \<Longrightarrow> path_clean (abs_path D @ ''/'') = abs_path D"
  using clean_abs_path[of "abs_path D @ ''/''"] abs_path_elems[of D]
  by (simp add: abs_elems_def path_elems_snoc_slash) (simp add: is_rooted_def abs_path_def)

lemma abs_path_inject: "clean_elems D \<Longrightarrow> clean_elems E \<Longrightarrow> abs_path D = abs_path E \<longleftrightarrow> D = E"
  using abs_path_elems by metis

lemma last_split:
  "CHR ''/'' \<notin> set x \<Longrightarrow> dropWhile (\<lambda>c. c \<noteq> CHR ''/'') (rev (u @ CHR ''/'' # x)) = CHR ''/'' # rev u"
  "CHR ''/'' \<notin> set x \<Longrightarrow> takeWhile (\<lambda>c. c \<noteq> CHR ''/'') (rev (u @ CHR ''/'' # x)) = rev x"
  by (induction x rule: rev_induct) (auto simp: dropWhile_append takeWhile_append)

lemma path_dir_split: "CHR ''/'' \<notin> set x \<Longrightarrow> path_dir (u @ CHR ''/'' # x) = path_clean (u @ ''/'')"
  unfolding path_dir_def last_split(1) by simp

lemma path_split_split: "CHR ''/'' \<notin> set x \<Longrightarrow> path_split (u @ CHR ''/'' # x) = (u @ ''/'', x)"
  unfolding path_split_def last_split(2) by simp

lemma abs_path_last:
  assumes "clean_elems (D @ [x])"
  shows "path_dir (abs_path (D @ [x])) = abs_path D"
    "path_split (abs_path (D @ [x])) = (if D = [] then ''/'' else abs_path D @ ''/'', x)"
proof -
  have x: "CHR ''/'' \<notin> set x" and D: "clean_elems D" using clean_elems_snoc[OF assms] by auto
  obtain u where u: "abs_path (D @ [x]) = u @ CHR ''/'' # x" "u = (if D = [] then [] else abs_path D)"
    by (simp add: abs_path_snoc)
  have "path_clean ''/'' = ''/''" by (simp add: path_clean_def is_rooted_def path_elems_def push_elem_def)
  then show "path_dir (abs_path (D @ [x])) = abs_path D"
    unfolding u(1) path_dir_split[OF x] using u(2) abs_path_slash[OF D] by simp
  show "path_split (abs_path (D @ [x])) = (if D = [] then ''/'' else abs_path D @ ''/'', x)"
    unfolding u(1) path_split_split[OF x] using u(2) by simp
qed

lemma abs_path_join:
  assumes "clean_elems (D @ [x])"
  shows "path_join [abs_path D, x] = abs_path (D @ [x])"
proof -
  have D: "clean_elems D" and x: "x \<noteq> []" using clean_elems_snoc[OF assms] by auto
  have "path_join [abs_path D, x] = path_clean (abs_path D @ ''/'' @ x)"
    by (simp add: path_join_def abs_path_def)
  also have "\<dots> = abs_path (D @ [x])"
  proof (cases "D = []")
    case True
    then have "path_elems True x = [x]" using abs_path_elems[OF assms] by (simp add: abs_elems_def abs_path_def)
    then show ?thesis using True clean_abs_path[of "''//'' @ x"] by (simp add: abs_path_snoc is_rooted_def abs_elems_def)
  next
    case False
    then show ?thesis using abs_path_clean[OF assms] by (simp add: abs_path_snoc)
  qed
  finally show ?thesis .
qed

lemma path_dir_root [simp]: "path_dir ''/'' = ''/''"
  by (simp add: path_dir_def path_clean_def is_rooted_def path_elems_def push_elem_def)

section \<open>The root of a module\<close>

definition has_mod :: "osys \<Rightarrow> string list \<Rightarrow> bool" where
  "has_mod s P = FileExists s (path_join [abs_path P, ''go.mod''])"

text \<open>The nearest directory with a module file above a path, the path reversed; the root is left out.\<close>

fun nearest :: "(string list \<Rightarrow> bool) \<Rightarrow> string list \<Rightarrow> string list option" where
  "nearest m [] = None"
| "nearest m (x # r) = (if m (rev (x # r)) then Some (rev (x # r)) else nearest m r)"

lemma nearest_props:
  "nearest m r = Some P \<Longrightarrow> P \<noteq> [] \<and> m P \<and> (\<exists>Q. rev r = P @ Q)
     \<and> (\<forall>P' Q'. rev r = P' @ Q' \<longrightarrow> length P < length P' \<longrightarrow> \<not> m P')"
  "nearest m r = None \<Longrightarrow> rev r = P @ Q \<Longrightarrow> P \<noteq> [] \<Longrightarrow> \<not> m P"
proof (induction r arbitrary: P Q)
  case (Cons x r)
  have split: "P' = rev (x # r) \<or> (\<exists>Q''. rev r = P' @ Q'')" if "rev (x # r) = P' @ Q'" for P' Q'
    using that by (cases Q' rule: rev_cases) auto
  {
    case 1
    show ?case
    proof (cases "m (rev (x # r))")
      case True
      with 1 show ?thesis by auto
    next
      case False
      with 1 have n: "nearest m r = Some P" by simp
      note IH = Cons.IH(1)[OF n]
      have "\<not> m P'" if "rev (x # r) = P' @ Q'" "length P < length P'" for P' Q'
        using split[OF that(1)] False IH that(2) by auto
      moreover obtain Q where "rev r = P @ Q" using IH by blast
      then have "rev (x # r) = P @ Q @ [x]" by simp
      ultimately show ?thesis using IH by blast
    qed
  next
    case 2
    then have n: "nearest m r = None" "\<not> m (rev (x # r))" by (auto split: if_splits)
    from split[OF 2(2)] show ?case using n Cons.IH(2)[OF n(1) _ 2(3)] by auto
  }
qed auto

lemma find_project_at:
  "clean_elems (rev r) \<Longrightarrow> r \<noteq> [] \<Longrightarrow> find_project s (abs_path (rev r)) =
     Some (case nearest (has_mod s) r of Some P \<Rightarrow> (abs_path P, True) | None \<Rightarrow> ([], False))"
proof (induction r)
  case (Cons x r)
  have cl: "clean_elems (rev r @ [x])" using Cons.prems by simp
  have up: "path_dir (abs_path (rev (x # r))) = abs_path (rev r)" using abs_path_last(1)[OF cl] by simp
  have top: "abs_path (rev r) = ''/'' \<longleftrightarrow> r = []"
    using abs_path_inject[of "rev r" "[]"] clean_elems_snoc[OF cl] by (simp add: clean_elems_def)
  show ?case
  proof (cases "has_mod s (rev (x # r))")
    case True
    then show ?thesis by (subst find_project.simps) (simp add: has_mod_def)
  next
    case False
    then have "find_project s (abs_path (rev (x # r)))
        = (if r = [] then Some ([], False) else find_project s (abs_path (rev r)))"
      using up top by (subst find_project.simps) (simp add: has_mod_def Let_def)
    then show ?thesis using Cons False clean_elems_snoc[OF cl] by auto
  qed
qed simp

lemma join_append:
  "join (A @ E) sep = (if A = [] then join E sep else if E = [] then join A sep else join A sep @ sep @ join E sep)"
proof (induction A)
  case (Cons a A)
  then show ?case by (cases "A = []"; cases "E = []") (auto simp: join_Cons)
qed simp

lemma rest_of_path:
  assumes "A \<noteq> []" "clean_elems (A @ E)"
  shows "trim_prefix (drop (length (abs_path A)) (abs_path (A @ E))) ''/'' = join E ''/''"
proof (cases E)
  case (Cons e E')
  then show ?thesis using assms(1) by (simp add: abs_path_def join_append trim_prefix_def has_prefix_def)
qed (simp add: trim_prefix_def has_prefix_def)

lemma find_go_mod_at:
  "clean_elems (rev r @ E) \<Longrightarrow> r \<noteq> [] \<Longrightarrow> find_go_mod s (abs_path (rev r @ E)) (abs_path (rev r)) =
     Some (case nearest (has_mod s) r of Some P \<Rightarrow> Some (join (drop (length P) (rev r @ E)) ''/'') | None \<Rightarrow> None)"
proof (induction r arbitrary: E)
  case (Cons x r)
  have cl: "clean_elems (rev r @ [x])" using Cons.prems(1) clean_elems_take[of "rev r @ [x]" E] by simp
  have up: "path_dir (abs_path (rev (x # r))) = abs_path (rev r)" using abs_path_last(1)[OF cl] by simp
  have top: "abs_path (rev r) = ''/'' \<longleftrightarrow> r = []" and ne: "abs_path (rev (x # r)) \<noteq> abs_path (rev r)"
    using abs_path_inject[of "rev r" "[]"] abs_path_inject[OF cl, of "rev r"] clean_elems_snoc[OF cl]
    by (simp_all add: clean_elems_def)
  show ?case
  proof (cases "has_mod s (rev (x # r))")
    case True
    then show ?thesis using rest_of_path[of "rev (x # r)" E] Cons.prems
      by (subst find_go_mod.simps) (simp add: has_mod_def)
  next
    case False
    then have "find_go_mod s (abs_path (rev (x # r) @ E)) (abs_path (rev (x # r)))
        = (if r = [] then Some None else find_go_mod s (abs_path (rev r @ (x # E))) (abs_path (rev r)))"
      using up top ne by (subst find_go_mod.simps) (simp add: has_mod_def Let_def)
    moreover have eq: "rev r @ (x # E) = rev (x # r) @ E" by simp
    moreover have "nearest (has_mod s) (x # r) = nearest (has_mod s) r" using False by simp
    moreover have "find_go_mod s (abs_path (rev (x # r) @ E)) (abs_path (rev r))
        = Some (case nearest (has_mod s) r of Some P \<Rightarrow> Some (join (drop (length P) (rev (x # r) @ E)) ''/'') | None \<Rightarrow> None)"
      if "r \<noteq> []"
      using Cons.IH[of "x # E"] Cons.prems(1) that unfolding eq by blast
    ultimately show ?thesis by (cases "r = []") (simp_all only: eq if_True if_False nearest.simps option.case not_False_eq_True simp_thms)
  qed
qed simp

lemma replace_absent: "c \<notin> set s \<Longrightarrow> replace_from n [c] d s = s"
proof (induction s)
  case (Cons a s)
  then have "a \<noteq> c" "replace_from n [c] d s = s" by auto
  then show ?case by (subst replace_from.simps) (simp add: has_prefix_def)
qed (simp add: replace_from.simps)

lemma FindGoModPath_at:
  assumes "clean_elems D" "D \<noteq> []" "CHR 0x5C \<notin> set (abs_path D)"
  shows "FindGoModPath s (abs_path D) =
    Some (case nearest (has_mod s) (rev D) of Some P \<Rightarrow> (join (drop (length P) D) ''/'', True) | None \<Rightarrow> ([], False))"
proof -
  have "Abs s (abs_path D) = abs_path D" using abs_path_clean[OF assms(1)] by (simp add: Abs_def)
  then show ?thesis
    using find_go_mod_at[of "rev D" "[]" s] assms replace_absent[OF assms(3)]
    by (simp add: FindGoModPath_def replace_def split: option.splits)
qed

lemma FindProjectPath_at:
  assumes "clean_elems D" "D \<noteq> []"
  shows "FindProjectPath s (abs_path D) =
    Some (case nearest (has_mod s) (rev D) of Some P \<Rightarrow> (abs_path P, True) | None \<Rightarrow> ([], False))"
  using find_project_at[of "rev D" s] assms by (simp add: FindProjectPath_def)


definition mod_os :: osys where
  "mod_os = \<lparr>tree = Dir 493 [(''a'', Dir 493 [(''go.mod'', File 420 []), (''b'', Dir 493 [])])], cwd = [], umask = 18\<rparr>"


lemma rooted_dir: "is_rooted p \<Longrightarrow> is_rooted (path_dir p)"
proof -
  assume "is_rooted p"
  then obtain c where "p = CHR ''/'' # c" by (cases p) (auto simp: is_rooted_def)
  then have "is_rooted (rev (dropWhile (\<lambda>c. c \<noteq> CHR ''/'') (rev p)))"
    by (simp add: dropWhile_append is_rooted_def hd_append)
  then show ?thesis by (simp add: path_dir_def)
qed

lemma go_mod_ends: "clean_elems (rev r) \<Longrightarrow> find_go_mod s a (abs_path (rev r)) \<noteq> None"
proof (induction r)
  case (Cons x r)
  have "clean_elems (rev r @ [x])" using Cons.prems by simp
  then have up: "path_dir (abs_path (rev (x # r))) = abs_path (rev r)" and cl: "clean_elems (rev r)"
    using abs_path_last(1)[of "rev r" x] clean_elems_snoc[of "rev r" x] by auto
  from Cons.IH[OF cl] show ?case
    unfolding find_go_mod.simps[of s a "abs_path (rev (x # r))"] up by (simp add: Let_def)
qed (simp add: find_go_mod.simps[of s a "''/''"])

lemma project_ends: "clean_elems (rev r) \<Longrightarrow> find_project s (abs_path (rev r)) \<noteq> None"
  using find_project_at[of r s] by (cases "r = []") (auto simp: find_project.simps[of s "''/''"] Let_def)

lemma find_ends:
  assumes "is_rooted p"
  shows "find_project s p \<noteq> None" "find_go_mod s a p \<noteq> None"
proof -
  have d: "path_dir p = abs_path (abs_elems (path_dir p))"
    using clean_abs_path[OF rooted_dir[OF assms]] by (simp add: path_dir_def)
  have "find_project s (path_dir p) \<noteq> None" "find_go_mod s a (path_dir p) \<noteq> None"
    using project_ends[of "rev (abs_elems (path_dir p))" s] go_mod_ends[of "rev (abs_elems (path_dir p))" s a] d
    by simp_all
  then show "find_project s p \<noteq> None" "find_go_mod s a p \<noteq> None"
    by (auto simp: find_project.simps[of s p] find_go_mod.simps[of s a p] Let_def)
qed

lemma replace_rooted: "is_rooted p \<Longrightarrow> is_rooted (replace None p [CHR 0x5C] ''/'')"
  by (cases p) (auto simp: replace_def replace_from.simps is_rooted_def has_prefix_def)

lemma Abs_rooted: "is_rooted (Abs s p)"
proof -
  have "is_rooted (Getwd s)" by (simp add: Getwd_def is_rooted_def)
  then have "is_rooted (path_clean (Getwd s @ q))" for q
    using rooted_nonempty by simp
  then have "is_rooted (path_join [Getwd s, p])" by (simp add: path_join_def Getwd_def)
  then show ?thesis by (simp add: Abs_def)
qed

text \<open>The searches for the root of a module end for every argument: each step shortens the path, and
  both stop at the root directory.\<close>

theorem module_search_ends:
  "(\<exists>r. FindProjectPath s loc = Some r) \<and> (\<exists>r. FindGoModPath s dir = Some r)"
proof -
  have "is_rooted (path_join [Getwd s, loc])" if "\<not> is_rooted loc" using Abs_rooted[of s loc] that by (simp add: Abs_def)
  then show ?thesis
    using find_ends(1)[of "if is_rooted loc then loc else path_join [Getwd s, loc]" s]
      find_ends(2)[OF replace_rooted[OF Abs_rooted[of s dir]], of s "replace None (Abs s dir) [CHR 0x5C] ''/''"]
    by (auto simp: FindProjectPath_def FindGoModPath_def Let_def)
qed

section \<open>The destination of a link\<close>

lemma Abs_abs_path: "clean_elems D \<Longrightarrow> Abs s (abs_path D) = abs_path D"
  by (simp add: Abs_def abs_path_clean)

lemma Lstat_link: "link_free (tree s) \<Longrightarrow> Lstat s p \<noteq> Inr (ALink t)"
  by (auto simp: Lstat_def stat_at_def link_free_def split: sum.splits option.splits)

lemma ReadLink_link_free:
  "link_free (tree s) \<Longrightarrow> clean_elems (rev r) \<Longrightarrow> ReadLink s (abs_path (rev r)) = Some (Inr (abs_path (rev r)))"
proof (induction r)
  case Nil
  have "Abs s ''/'' = ''/''" using Abs_abs_path[of "[]" s] by (simp add: clean_elems_def)
  then show ?case by (subst ReadLink.simps) (simp add: Let_def split: sum.split)
next
  case (Cons x r)
  have cl: "clean_elems (rev r @ [x])" using Cons.prems by simp
  note pc = clean_elems_snoc[OF cl]
  have IH: "ReadLink s (abs_path (rev r)) = Some (Inr (abs_path (rev r)))" using Cons pc by simp
  have sp: "path_clean (fst (path_split (abs_path (rev (x # r))))) = abs_path (rev r)"
    "snd (path_split (abs_path (rev (x # r)))) = x"
    using abs_path_last(2)[OF cl] abs_path_slash[of "rev r"] pc abs_path_clean[of "[]"] by (simp_all add: clean_elems_def)
  have "isLink s (abs_path (rev (x # r))) = Inr False" if "Lstat s (abs_path (rev (x # r))) = Inr e" for e
    using that Lstat_link[OF Cons.prems(1)] by (cases e) (auto simp: isLink_def)
  then show ?case
    using IH sp abs_path_join[OF cl] Abs_abs_path[OF Cons.prems(2)]
    by (subst ReadLink.simps) (auto simp: Let_def split: sum.split)
qed

lemma Abs_abs_elems: "Abs s p = abs_path (abs_elems (Abs s p))"
proof -
  have "path_clean (Abs s p) = Abs s p"
  proof (cases "is_rooted p")
    case False
    then show ?thesis by (simp add: Abs_def path_join_def Getwd_def)
  qed (simp add: Abs_def)
  then show ?thesis using clean_abs_path[OF Abs_rooted[of s p]] by simp
qed

text \<open>A link whose target lies in the link itself: the recursion comes back to the same call.\<close>

lemma ReadLink_loop:
  assumes "clean_elems D" "D \<noteq> []" "abs_path D \<noteq> ''/var''" "CHR ''/'' \<notin> set x"
    "Lstat s (abs_path D) = Inr (ALink (abs_path D @ CHR ''/'' # x))"
  shows "ReadLink s (abs_path D) = None"
proof -
  let ?p = "abs_path D"
  have top: "?p \<noteq> ''/''" using abs_path_inject[of D "[]"] assms(1,2) by (simp add: clean_elems_def)
  have link: "isLink s ?p = Inr True" "Readlink s ?p = Inr (?p @ CHR ''/'' # x)"
    using assms(5) by (auto simp: isLink_def Readlink_def Lstat_def stat_at_def split: sum.splits option.splits)
  have "fst (path_split (?p @ CHR ''/'' # x)) = ?p @ ''/''" using path_split_split[OF assms(4)] by simp
  moreover have "path_dir (?p @ ''/'') = ?p" using path_dir_split[of "[]" ?p] abs_path_slash[OF assms(1)] by simp
  ultimately have again: "path_dir (fst (path_split (?p @ CHR ''/'' # x))) = ?p" by simp
  have "s' = s \<longrightarrow> n \<noteq> ?p" if "ReadLink s' n = Some y" for s' n y
  proof (rule ReadLink.raw_induct[where P = "\<lambda>s' n y. s' = s \<longrightarrow> n \<noteq> ?p", OF _ that])
    fix rec s' n y
    assume IH: "\<And>s' n y. rec s' n = Some y \<Longrightarrow> s' = s \<longrightarrow> n \<noteq> ?p"
      and run: "(let name = Abs s' n in
        case Lstat s' name of
          Inl _ \<Rightarrow> Some (Inr name)
        | Inr _ \<Rightarrow>
            if name = ''/'' \<or> name = ''/var'' then Some (Inr name)
            else (case isLink s' name of
                Inl e \<Rightarrow> Some (Inl e)
              | Inr islink \<Rightarrow>
                  if \<not> islink then
                    Option.bind (rec s' (path_clean (fst (path_split name)))) (\<lambda>r.
                      case r of Inl e \<Rightarrow> Some (Inl e) | Inr dir \<Rightarrow> Some (Inr (path_join [dir, snd (path_split name)])))
                  else (case Readlink s' name of
                      Inl e \<Rightarrow> Some (Inl e)
                    | Inr link \<Rightarrow>
                        Option.bind (rec s' (path_dir (fst (path_split link)))) (\<lambda>r.
                          case r of Inl e \<Rightarrow> Some (Inl e) | Inr dir \<Rightarrow> Some (Inr (path_join [dir, snd (path_split link)])))))) = Some y"
    have "rec s ?p \<noteq> None" if "s' = s" "n = ?p"
      using run that top assms(3,5) link again Abs_abs_path[OF assms(1)] by (cases "rec s ?p") (simp_all add: Let_def)
    with IH[of s ?p] show "s' = s \<longrightarrow> n \<noteq> ?p" by auto
  qed
  then show ?thesis by (cases "ReadLink s ?p") auto
qed

text \<open>A relative target is taken from the working directory, not from the directory of the link.\<close>

lemma ReadLink_relative:
  assumes "clean_elems D" "D \<noteq> []" "abs_path D \<noteq> ''/var''" "CHR ''/'' \<notin> set t"
    "Lstat s (abs_path D) = Inr (ALink t)" "ReadLink s ''.'' = Some (Inr w)"
  shows "ReadLink s (abs_path D) = Some (Inr (path_join [w, t]))"
proof -
  have top: "abs_path D \<noteq> ''/''" using abs_path_inject[of D "[]"] assms(1,2) by (simp add: clean_elems_def)
  have link: "isLink s (abs_path D) = Inr True" "Readlink s (abs_path D) = Inr t"
    using assms(5) by (auto simp: isLink_def Readlink_def Lstat_def stat_at_def split: sum.splits option.splits)
  have tw: "takeWhile (\<lambda>c. c \<noteq> CHR ''/'') (rev t) = rev t" unfolding takeWhile_eq_all_conv using assms(4) by auto
  have sp: "path_split t = ([], t)" unfolding path_split_def tw by simp
  have "path_dir [] = ''.''" by (simp add: path_dir_def path_clean_def is_rooted_def path_elems_def push_elem_def)
  then show ?thesis
    using top link sp assms(3,5,6) Abs_abs_path[OF assms(1)]
    by (subst ReadLink.simps) (simp add: Let_def)
qed

text \<open>C26. Without symbolic links ReadLink gives the absolute path, whether it exists or not. A link whose
  target is a name below the link itself is never resolved: the recursion on the directory of the target
  comes back to the link, although each look-up succeeds.\<close>

theorem ReadLink_ends_or_not:
  assumes "link_free (tree s)"
    and "clean_elems D" "D \<noteq> []" "abs_path D \<noteq> ''/var''" "CHR ''/'' \<notin> set x"
      "Lstat s' (abs_path D) = Inr (ALink (abs_path D @ CHR ''/'' # x))"
  shows "ReadLink s p = Some (Inr (Abs s p)) \<and> ReadLink s' (abs_path D) = None"
proof -
  have "ReadLink s p = ReadLink s (Abs s p)"
  proof -
    have "Abs s (Abs s p) = Abs s p" using Abs_abs_path[OF clean_elems_abs, of s "Abs s p"] Abs_abs_elems[of s p] by simp
    then show ?thesis by (simp add: ReadLink.simps[of s p] ReadLink.simps[of s "Abs s p"])
  qed
  then show ?thesis
    using ReadLink_link_free[OF assms(1), of "rev (abs_elems (Abs s p))"] Abs_abs_elems[of s p] ReadLink_loop[OF assms(2-6)]
    by simp
qed

definition loop_os :: osys where
  "loop_os = \<lparr>tree = Dir 493 [(''l'', Link ''/l/x'')], cwd = [], umask = 18\<rparr>"

theorem ReadLink_ends_or_not_witness:
  "ReadLink small_tree ''/a/../a/f'' = Some (Inr ''/a/f'') \<and> ReadLink loop_os ''/l'' = None"
proof -
  have "clean_elems [''l'']" "abs_path [''l''] = ''/l''" "Lstat loop_os ''/l'' = Inr (ALink ''/l/x'')"
    "Abs small_tree ''/a/../a/f'' = ''/a/f''"
    by code_simp+
  then show ?thesis
    using ReadLink_ends_or_not[of small_tree "[''l'']" "''x''" loop_os "''/a/../a/f''"] small_tree_plain
    by (simp add: plain_os_def)
qed

section \<open>Counting files\<close>

fun files_in :: "node \<Rightarrow> nat" where
  "files_in (Dir m es) = sum_list (map (\<lambda>e. files_in (snd e)) es)"
| "files_in n = 1"

definition not_dir :: "string \<times> (errno + entry) \<Rightarrow> bool" where
  "not_dir v = (case snd v of Inl _ \<Rightarrow> False | Inr e \<Rightarrow> \<not> is_dir e)"

lemma count_loop:
  "for_each (\<lambda>v. count_path (fst v) (snd v)) vs c = (None, c') \<Longrightarrow>
   (\<forall>v \<in> set vs. \<exists>e. snd v = Inr e) \<and> c' = c + of_nat (length (filter not_dir vs))"
proof (induction vs arbitrary: c)
  case (Cons v vs)
  obtain e where e: "snd v = Inr e" using Cons.prems by (cases "snd v") (auto simp: count_path_def)
  let ?c = "if \<not> is_dir e then c + 1 else c"
  have "count_path (fst v) (snd v) c = (None, ?c)" using e by (simp add: count_path_def)
  then have "for_each (\<lambda>v. count_path (fst v) (snd v)) vs ?c = (None, c')" using Cons.prems by simp
  from Cons.IH[OF this] show ?case using e by (simp add: not_dir_def)
qed simp

lemma sum_list_sort: "sum_list (map f (sort xs)) = sum_list (map (f :: 'a :: linorder \<Rightarrow> nat) xs)"
proof (induction xs)
  case (Cons x xs)
  have "sum_list (map f (insort x ys)) = f x + sum_list (map f ys)" for ys by (induction ys) auto
  then show ?case using Cons by simp
qed simp

lemma sum_over_names:
  assumes "distinct (map fst es)" "list_all (\<lambda>e. valid_name (fst e)) es"
  shows "sum_list (map (\<lambda>n. f (fst n)) (node_entries (Dir m es))) = sum_list (map (\<lambda>e. (f (fst e) :: nat)) es)"
proof -
  have "filter valid_name (map fst es) = map fst es" using assms(2) by (auto simp: list_all_iff filter_id_conv)
  then have "sum_list (map (\<lambda>n. f (fst n)) (node_entries (Dir m es))) = sum_list (map f (sort (map fst es)))"
    by (simp add: o_def)
  also have "\<dots> = sum_list (map f (map fst es))"
    by (rule sum_list_sort)
  finally show ?thesis by (simp add: o_def)
qed

lemma visits_count:
  "plain_os s \<Longrightarrow> is_rooted path \<Longrightarrow> lookup (tree s) (abs_elems path) = Some n \<Longrightarrow> info = shallow n
   \<Longrightarrow> \<forall>v \<in> set (visits s path info). \<exists>e. snd v = Inr e
   \<Longrightarrow> length (filter not_dir (visits s path info)) = files_in n"
proof (induction s path info arbitrary: n rule: visits.induct)
  case (1 s path info)
  show ?case
  proof (cases n)
    case (Dir m es)
    then have dir: "is_dir info" using "1.prems"(4) by simp
    then obtain names where names: "ReadDir s path = Inr names"
      using "1.prems"(5) by (cases "ReadDir s path") (auto simp: visits.simps[of s path])
    then obtain q where "locate s True path = Inr q" by (auto simp: ReadDir_def split: sum.splits)
    then have q: "names = node_entries n"
      using names plain_locate[of s path True q] "1.prems" by (auto simp: ReadDir_def plain_os_def split: if_splits)
    let ?h = "\<lambda>n. case Lstat s (path_join [path, fst n]) of
        Inl e \<Rightarrow> [(path_join [path, fst n], Inl e)] | Inr i \<Rightarrow> visits s (path_join [path, fst n]) i"
    have eq: "visits s path info = (path, Inr info) # concat (map ?h names)"
      using dir names by (simp add: visits.simps[of s path] Let_def)
    have wf: "wf_node n" using wf_lookup[OF _ "1.prems"(3)] "1.prems"(1) by (simp add: plain_os_def wf_os_def)
    have sub: "length (filter not_dir (?h x)) = files_in (the (map_of es (fst x)))" if x: "x \<in> set names" for x
    proof -
      have vn: "valid_name (fst x)" using ReadDir_names[OF names x] by simp
      let ?p = "path_join [path, fst x]"
      have j: "abs_elems ?p = abs_elems path @ [fst x]" "is_rooted ?p" using vn "1.prems"(2) rooted_nonempty by simp_all
      have ok: "\<forall>v \<in> set (?h x). \<exists>e. snd v = Inr e" using "1.prems"(5) x unfolding eq by auto
      then obtain i where L: "Lstat s ?p = Inr i" by (cases "Lstat s ?p") auto
      obtain c where c: "map_of es (fst x) = Some c" "lookup (tree s) (abs_elems ?p) = Some c" "i = shallow c"
        using Lstat_plain[OF "1.prems"(1) j(2) L] "1.prems"(3) Dir j(1)
        by (auto simp: look_def lookup_append split: option.splits)
      show ?thesis
        using "1.IH"[OF _ names x refl L "1.prems"(1) j(2) c(2,3)] ok L dir c(1) by simp
    qed
    have "length (filter not_dir (visits s path info)) = sum_list (map (\<lambda>x. length (filter not_dir (?h x))) names)"
      using dir by (simp add: eq not_dir_def filter_concat length_concat o_def)
    also have "\<dots> = sum_list (map (\<lambda>x. files_in (the (map_of es (fst x)))) names)"
      using sub by (metis (no_types, lifting) map_cong)
    also have "\<dots> = sum_list (map (\<lambda>e. files_in (the (map_of es (fst e)))) es)"
      using sum_over_names[of es "\<lambda>x. files_in (the (map_of es x))" m] wf q Dir by (auto simp: list_all_iff)
    also have "\<dots> = sum_list (map (\<lambda>e. files_in (snd e)) es)"
      using wf Dir by (auto intro!: arg_cong[where f = sum_list] map_cong simp: map_of_is_SomeI)
    finally show ?thesis using Dir by simp
  qed (use "1.prems" in \<open>simp_all add: visits.simps[of s path] not_dir_def\<close>)
qed

text \<open>CountFiles gives the number of files of the tree below the path, directories not counted, when
  it reports no error.\<close>

theorem CountFiles_counts:
  assumes "plain_os s" "is_rooted path" "lookup (tree s) (abs_elems path) = Some n" "CountFiles s path = (k, None)"
  shows "k = of_nat (files_in n)"
proof -
  have "Walk (\<lambda>_. s) count_path path 0 = (None, k)" using assms(4) by (auto simp: CountFiles_def split: prod.splits)
  then have loop: "for_each (\<lambda>v. count_path (fst v) (snd v)) (Visits s path) 0 = (None, k)"
    using Walk_Visits[where get = "\<lambda>_. s" and fn = count_path] by simp
  note c = count_loop[OF loop]
  show ?thesis
  proof (cases "Lstat s path")
    case (Inl e)
    then show ?thesis using c by (simp add: Visits_def)
  next
    case (Inr i)
    then have "i = shallow n" using Lstat_plain[OF assms(1,2) Inr] assms(3) by (simp add: look_def)
    then show ?thesis using c visits_count[OF assms(1-3)] Inr by (simp add: Visits_def)
  qed
qed

theorem CountFiles_counts_witness: "fst (CountFiles small_tree ''/a'') = 2"
proof -
  have "is_rooted ''/a''" "snd (CountFiles small_tree ''/a'') = None"
    "lookup (tree small_tree) (abs_elems ''/a'') = Some (Dir 493 [(''f'', File 420 ''x''), (''d'', Dir 448 [(''g'', File 384 ''y'')])])"
    by code_simp+
  then show ?thesis
    using CountFiles_counts[OF small_tree_plain, of "''/a''" _ "fst (CountFiles small_tree ''/a'')"]
    by (simp add: prod_eq_iff)
qed

section \<open>Renaming files\<close>

lemma Rename_in_dir:
  assumes "Rename s a b = (None, s')" "plain_os s" "is_rooted a" "is_rooted b"
    and "abs_elems a = D @ [x]" "abs_elems b = D @ [y]" "x \<noteq> y" "look (tree s) (D @ [x]) = Some (AFile m c)"
  shows "plain_os s' \<and> (\<forall>p. look (tree s') p =
    (if p = D @ [y] then Some (AFile m c) else if p = D @ [x] then None else look (tree s) p))"
proof -
  have lf: "link_free (tree s)" and wf: "wf_os s" using assms(2) by (auto simp: plain_os_def)
  from assms(1) obtain q1 q2 where q: "locate s False a = Inr q1" "locate s False b = Inr q2" "rename_at s q1 q2 = (None, s')"
    by (rule Rename_cases) auto
  have qe: "q1 = D @ [x]" "q2 = D @ [y]"
    using plain_locate[OF lf assms(3) q(1)] plain_locate[OF lf assms(4) q(2)] assms(5,6) by simp_all
  obtain n where n: "lookup (tree s) (D @ [x]) = Some n" "shallow n = AFile m c" using look_lookup[OF assms(8)] by blast
  then have nf: "n = File m c" by (cases n) auto
  have nb: "\<not> below (D @ [x]) (D @ [y])" "\<not> below (D @ [x]) D" using assms(7) by (auto simp: below_iff)
  have s': "s' = put_node (D @ [y]) n (drop_node (D @ [x]) s)" and nd: "\<And>k. look (tree s) (D @ [y]) \<noteq> Some (ADir k)"
    using q(3) n(1) nb(1) assms(7) unfolding qe by (auto simp: rename_at_def nf split: option.splits if_splits)
  have dr: "look (tree (drop_node (D @ [x]) s)) p = (if below (D @ [x]) p then None else look (tree s) p)" for p
    using look_drop_node[of s "D @ [x]" p] locate_physical[OF wf q(1)] unfolding qe by simp
  obtain k where "look (tree s) D = Some (ADir k)" using look_snoc_Some[OF assms(8)] by blast
  then have "look (tree (drop_node (D @ [x]) s)) (butlast (D @ [y])) = Some (ADir k)" using dr[of D] nb(2) by simp
  then have put: "look (tree s') p = (if below (D @ [y]) p then look n (drop (length (D @ [y])) p)
      else look (tree (drop_node (D @ [x]) s)) p)" for p
    unfolding s' put_node_def by (simp add: look_set_at)
  have leaf: "look (tree s) (D @ z # w # r) = None" if "\<And>k. look (tree s) (D @ [z]) \<noteq> Some (ADir k)" for z w r
    using look_dir_prefix[of "tree s" "D @ [z]" w r] that by (cases "look (tree s) (D @ z # w # r)") (auto simp: is_dir_iff)
  have main: "look (tree s') p = (if p = D @ [y] then Some (AFile m c) else if p = D @ [x] then None else look (tree s) p)" for p
  proof (cases "below (D @ [y]) p")
    case True
    then obtain r where r: "p = D @ y # r" by (auto simp: below_iff)
    then show ?thesis using put[of p] True leaf[OF nd] assms(7) by (cases r) (auto simp: nf n(2))
  next
    case False
    then have ny: "p \<noteq> D @ [y]" by auto
    show ?thesis
    proof (cases "below (D @ [x]) p")
      case True
      then obtain r where r: "p = D @ x # r" by (auto simp: below_iff)
      then show ?thesis using put[of p] False True dr[of p] ny leaf[of x] assms(8) by (cases r) auto
    next
      case F: False
      then have "p \<noteq> D @ [x]" by auto
      then show ?thesis using put[of p] False F dr[of p] ny by simp
    qed
  qed
  moreover have "link_free (tree s')" unfolding link_free_def using main lf by (auto simp: link_free_def)
  moreover have "wf_os s'" using wf_Rename[OF assms(1) wf] .
  ultimately show ?thesis by (simp add: plain_os_def)
qed

definition rename_entry :: "string \<Rightarrow> (string \<Rightarrow> string) \<Rightarrow> string \<times> entry \<Rightarrow> osys \<Rightarrow> path_result" where
  "rename_entry dir g file s = os_fail (Rename s (path_join [dir, fst file]) (path_join [dir, g (fst file)]))"

lemma rename_loop:
  assumes "is_rooted dir"
  shows "for_each (rename_entry dir g) xs a = (None, s') \<Longrightarrow> plain_os a \<Longrightarrow> distinct (map fst xs)
    \<Longrightarrow> inj_on g (fst ` set xs) \<Longrightarrow> g ` fst ` set xs \<inter> fst ` set xs = {}
    \<Longrightarrow> \<forall>f \<in> set xs. valid_name (fst f) \<and> valid_name (g (fst f)) \<and> is_regular (snd f)
          \<and> look (tree a) (abs_elems dir @ [fst f]) = Some (snd f)
    \<Longrightarrow> (\<forall>f \<in> set xs. look (tree s') (abs_elems dir @ [g (fst f)]) = Some (snd f)
            \<and> look (tree s') (abs_elems dir @ [fst f]) = None)
      \<and> (\<forall>p. (\<forall>f \<in> set xs. p \<noteq> abs_elems dir @ [fst f] \<and> p \<noteq> abs_elems dir @ [g (fst f)])
            \<longrightarrow> look (tree s') p = look (tree a) p)"
proof (induction xs arbitrary: a)
  case (Cons f xs)
  let ?D = "abs_elems dir" and ?x = "fst f"
  have f: "valid_name ?x" "valid_name (g ?x)" "look (tree a) (?D @ [?x]) = Some (snd f)" "is_regular (snd f)"
    using Cons.prems(6) by simp_all
  then obtain m c where mc: "snd f = AFile m c" by (cases "snd f") auto
  have ne: "?x \<noteq> g ?x" using Cons.prems(5) by auto
  obtain r1 b where rn: "Rename a (path_join [dir, ?x]) (path_join [dir, g ?x]) = (r1, b)" by fastforce
  then have "rename_entry dir g f a = (map_option OsFail r1, b)" by (simp add: rename_entry_def os_fail_def)
  then have "r1 = None" and rest: "for_each (rename_entry dir g) xs b = (None, s')"
    using Cons.prems(1) by (cases r1; simp)+
  then have b: "Rename a (path_join [dir, ?x]) (path_join [dir, g ?x]) = (None, b)" using rn by simp
  note R = Rename_in_dir[OF b Cons.prems(2) rooted_join[OF f(1) assms] rooted_join[OF f(2) assms]
      abs_elems_join[OF f(1) rooted_nonempty[OF assms] assms] abs_elems_join[OF f(2) rooted_nonempty[OF assms] assms] ne
      f(3)[unfolded mc]]
  have look: "look (tree b) p = (if p = ?D @ [g ?x] then Some (snd f) else if p = ?D @ [?x] then None else look (tree a) p)" for p
    using R mc by simp
  have apart: "fst h \<noteq> ?x" "fst h \<noteq> g ?x" "g (fst h) \<noteq> ?x" "g (fst h) \<noteq> g ?x" if h: "h \<in> set xs" for h
  proof -
    have m: "fst h \<in> fst ` set (f # xs)" "?x \<in> fst ` set (f # xs)" using h by auto
    have c: "g u \<noteq> v" if "u \<in> fst ` set (f # xs)" "v \<in> fst ` set (f # xs)" for u v
      using Cons.prems(5) that by blast
    show n: "fst h \<noteq> ?x"
    proof
      assume "fst h = ?x"
      moreover have "fst h \<in> fst ` set xs" using h by (rule imageI)
      ultimately show False using Cons.prems(3) by simp
    qed
    show "fst h \<noteq> g ?x" "g (fst h) \<noteq> ?x" using c[OF m(2,1)] c[OF m] by simp_all
    show "g (fst h) \<noteq> g ?x" using inj_onD[OF Cons.prems(4) _ m] n by blast
  qed
  have inj: "inj_on g (fst ` set xs)" and clash: "g ` fst ` set xs \<inter> fst ` set xs = {}"
    using Cons.prems(4,5) by (auto simp: inj_on_def)
  have "\<forall>h \<in> set xs. valid_name (fst h) \<and> valid_name (g (fst h)) \<and> is_regular (snd h) \<and> look (tree b) (?D @ [fst h]) = Some (snd h)"
    using Cons.prems(6) look apart by simp
  note IH = Cons.IH[OF rest conjunct1[OF R] _ inj clash this]
  have keep: "look (tree s') (?D @ [z]) = look (tree b) (?D @ [z])" if "z = ?x \<or> z = g ?x" for z
    using IH[THEN conjunct2, rule_format, of "?D @ [z]"] Cons.prems(3) apart that by fastforce
  have "look (tree s') p = look (tree a) p" if "\<forall>h \<in> set (f # xs). p \<noteq> ?D @ [fst h] \<and> p \<noteq> ?D @ [g (fst h)]" for p
    using IH that look[of p] Cons.prems(3) by simp
  moreover have "look (tree s') (?D @ [g ?x]) = Some (snd f) \<and> look (tree s') (?D @ [?x]) = None"
    using keep look ne by simp
  ultimately show ?case using IH Cons.prems(3) by simp
qed simp

lemma path_ext_suffix: "\<exists>b. x = b @ path_ext x"
proof -
  define u where "u = takeWhile (\<lambda>c. c \<noteq> CHR ''.'' \<and> c \<noteq> CHR ''/'') (rev x)"
  define rest where "rest = drop (length u) (rev x)"
  have split: "rev x = u @ rest" unfolding rest_def u_def by (simp flip: dropWhile_eq_drop)
  have ext: "path_ext x = (if rest \<noteq> [] \<and> hd rest = CHR ''.'' then CHR ''.'' # rev u else [])"
    by (simp add: path_ext_def Let_def rest_def u_def)
  show ?thesis
  proof (cases "rest \<noteq> [] \<and> hd rest = CHR ''.''")
    case True
    then obtain k where "rest = CHR ''.'' # k" by (cases rest) auto
    then have "x = rev k @ CHR ''.'' # rev u" using rev_split[OF split] by simp
    then show ?thesis using ext True by auto
  qed (use ext in auto)
qed

lemma new_name_parts: "x = b @ path_ext x \<Longrightarrow> new_name prefix suffix x = prefix @ b @ suffix @ path_ext x"
proof -
  assume b: "x = b @ path_ext x"
  have "trim_suffix (b @ e) e = b" for e by (simp add: trim_suffix_def has_suffix_def)
  from this[of "path_ext x"] show ?thesis unfolding b[symmetric] by (simp add: new_name_def Let_def)
qed

lemma new_name_valid:
  assumes "valid_name x" "CHR ''/'' \<notin> set prefix" "CHR ''/'' \<notin> set suffix" "length (new_name prefix suffix x) \<le> 255"
  shows "valid_name (new_name prefix suffix x)"
proof -
  obtain b where b: "x = b @ path_ext x" using path_ext_suffix by blast
  have n: "new_name prefix suffix x = prefix @ b @ suffix @ path_ext x" using new_name_parts[OF b] .
  have sx: "set x = set b \<union> set (path_ext x)" and lx: "length x = length b + length (path_ext x)"
    using arg_cong[OF b, of set] arg_cong[OF b, of length] by simp_all
  have "x \<in> {[], ''.'', ''..''}" if "set (new_name prefix suffix x) \<subseteq> {CHR ''.''}" "length (new_name prefix suffix x) \<le> 2"
  proof -
    have "set x \<subseteq> {CHR ''.''}" "length x \<le> 2" using that sx lx n by auto
    then have "x = replicate (length x) (CHR ''.'')" by (intro replicate_eqI) auto
    moreover have "length x = 0 \<or> length x = 1 \<or> length x = 2" using \<open>length x \<le> 2\<close> by arith
    ultimately show ?thesis by (elim disjE) (simp_all add: numeral_2_eq_2)
  qed
  moreover have v: "x \<notin> {[], ''.'', ''..''}" "CHR ''/'' \<notin> set x" using assms(1) by (auto simp: valid_name_def)
  moreover have "set y \<subseteq> {CHR ''.''} \<and> length y \<le> 2" if "y \<in> {[], ''.'', ''..''}" for y using that by auto
  ultimately have "new_name prefix suffix x \<notin> {[], ''.'', ''..''}" by blast
  moreover have "CHR ''/'' \<notin> set (new_name prefix suffix x)" using v(2) assms(2,3) sx n by simp
  ultimately show ?thesis using assms(4) by (simp add: valid_name_def)
qed

text \<open>RenameFilesWithPrefixAndSuffix gives every file of a directory without sub-directories its new
  name, with prefix, base, suffix and extension in this order, and leaves everything else alone, provided
  no new name is the name of a file of the directory or belongs to two files.\<close>

theorem RenameFiles_renames:
  assumes "plain_os s" "is_rooted dir" "ReadDir s dir = Inr files" "\<forall>f \<in> set files. \<not> is_dir (snd f)"
    and "CHR ''/'' \<notin> set prefix" "CHR ''/'' \<notin> set suffix"
    and "\<forall>f \<in> set files. length (new_name prefix suffix (fst f)) \<le> 255
          \<and> new_name prefix suffix (fst f) \<notin> fst ` set files"
    and "inj_on (new_name prefix suffix) (fst ` set files)"
    and "RenameFilesWithPrefixAndSuffix dir prefix suffix s = (None, s')"
  shows "(\<forall>f \<in> set files. look (tree s') (abs_elems dir @ [new_name prefix suffix (fst f)]) = Some (snd f)
          \<and> look (tree s') (abs_elems dir @ [fst f]) = None)
    \<and> (\<forall>p. (\<forall>f \<in> set files. p \<noteq> abs_elems dir @ [fst f] \<and> p \<noteq> abs_elems dir @ [new_name prefix suffix (fst f)])
          \<longrightarrow> look (tree s') p = look (tree s) p)"
proof (rule rename_loop[OF assms(2)])
  let ?f = "\<lambda>file s. if is_dir (snd file) then RenameFilesWithPrefixAndSuffix (path_join [dir, fst file]) prefix suffix s
      else os_fail (Rename s (path_join [dir, fst file]) (path_join [dir, new_name prefix suffix (fst file)]))"
  have "for_each ?f files s = (None, s')"
    using assms(9) assms(3) by (simp add: RenameFilesWithPrefixAndSuffix.simps[of dir] Let_def)
  moreover have "for_each ?f files s = for_each (rename_entry dir (new_name prefix suffix)) files s"
    by (rule for_each_cong) (use assms(4) in \<open>simp_all add: rename_entry_def\<close>)
  ultimately show "for_each (rename_entry dir (new_name prefix suffix)) files s = (None, s')" by simp
  note rd = ReadDir_plain[OF assms(3,1,2)]
  show "distinct (map fst files)" by (rule rd(1))
  show "\<forall>f \<in> set files. valid_name (fst f) \<and> valid_name (new_name prefix suffix (fst f)) \<and> is_regular (snd f)
      \<and> look (tree s) (abs_elems dir @ [fst f]) = Some (snd f)"
  proof
    fix f assume f: "f \<in> set files"
    then have v: "valid_name (fst f)" using ReadDir_names[OF assms(3)] by blast
    moreover have l: "look (tree s) (abs_elems dir @ [fst f]) = Some (snd f)" using rd(2) f by blast
    moreover have "is_regular (snd f)"
      using l assms(1,4) f by (cases "snd f") (auto simp: plain_os_def link_free_def)
    ultimately show "valid_name (fst f) \<and> valid_name (new_name prefix suffix (fst f)) \<and> is_regular (snd f)
        \<and> look (tree s) (abs_elems dir @ [fst f]) = Some (snd f)"
      using new_name_valid[OF v assms(5,6)] assms(7) f by blast
  qed
qed (use assms in auto)

definition two_files :: "string \<Rightarrow> osys" where
  "two_files n = \<lparr>tree = Dir 493 [(''d'', Dir 493 [(''a.c'', File 420 ''x''), (n, File 420 ''y'')])], cwd = [], umask = 18\<rparr>"

theorem RenameFiles_renames_witness:
  "look (tree (snd (RenameFilesWithPrefixAndSuffix ''/d'' ''p'' ''s'' (two_files ''b'')))) [''d'', ''pas.c'']
   = Some (AFile 420 ''x'')"
proof -
  have pl: "plain_os (two_files ''b'')"
    by (auto simp: plain_os_def wf_os_def two_files_def valid_name_def intro!: link_free_Dir)
  have run: "RenameFilesWithPrefixAndSuffix ''/d'' ''p'' ''s'' (two_files ''b'')
      = (None, snd (RenameFilesWithPrefixAndSuffix ''/d'' ''p'' ''s'' (two_files ''b'')))"
    by (rule pair_of_fst) code_simp
  have rd: "ReadDir (two_files ''b'') ''/d'' = Inr [(''a.c'', AFile 420 ''x''), (''b'', AFile 420 ''y'')]" by code_simp
  have nn: "new_name ''p'' ''s'' ''a.c'' = ''pas.c''" "new_name ''p'' ''s'' ''b'' = ''pbs''" "is_rooted ''/d''"
    "abs_elems ''/d'' = [''d'']"
    by code_simp+
  have ok: "\<forall>f \<in> set [(''a.c'', AFile 420 ''x''), (''b'', AFile 420 ''y'')]. length (new_name ''p'' ''s'' (fst f)) \<le> 255
      \<and> new_name ''p'' ''s'' (fst f) \<notin> fst ` set [(''a.c'', AFile 420 ''x''), (''b'', AFile 420 ''y'')]"
    using nn by simp
  show ?thesis
    using RenameFiles_renames[OF pl nn(3) rd _ _ _ ok _ run] nn by (simp add: inj_on_def)
qed

text \<open>Without the provision a file is lost: the first file takes the place of the second and is renamed
  again.\<close>

lemma rename_collision:
  "tree (snd (RenameFilesWithPrefixAndSuffix ''/d'' ''p'' [] (two_files ''pa.c'')))
   = Dir 493 [(''d'', Dir 493 [(''ppa.c'', File 420 ''x'')])]"
  "fst (RenameFilesWithPrefixAndSuffix ''/d'' ''p'' [] (two_files ''pa.c'')) = None"
  by code_simp+

section \<open>Paths below a project\<close>

text \<open>PathFromGoSrc cuts the first \<open>length parent + 1\<close> bytes off the working directory whenever the
  directory of the project occurs anywhere in it. Below the directory this is the relative path; in the
  directory itself the slice panics; a directory that only has it further inside gives another piece of
  the path.\<close>

theorem PathFromGoSrc_cases:
  assumes "parent = path_join [gopath, ''src'', projName]"
  shows "PathFromGoSrc (parent @ ''/'' @ rest) gopath projName = Some (Inr rest)
    \<and> PathFromGoSrc parent gopath projName = None
    \<and> (\<not> contains dir parent \<longrightarrow> PathFromGoSrc dir gopath projName = Some (Inl (NotInGopath dir)))
    \<and> PathFromGoSrc (a @ parent @ c # rest) gopath projName = Some (Inr (drop (Suc (length parent)) (a @ parent @ c # rest)))"
proof -
  have i: "\<exists>i. index_of (a @ parent @ b) parent = Some i" for a b using index_of_append[of a parent b] by blast
  obtain j where j: "index_of (a @ parent @ c # rest) parent = Some j" using i by blast
  have "index_of parent parent \<noteq> None" "index_of (parent @ ''/'' @ rest) parent \<noteq> None"
    using i[of "[]" "[]"] i[of "[]" "''/'' @ rest"] by auto
  then show ?thesis using j assms
    by (auto simp: PathFromGoSrc_def slice_def Let_def contains_def)
qed

theorem PathFromGoSrc_cases_witness: "PathFromGoSrc ''/go/src/p'' ''/go'' ''p'' = None"
proof -
  have "''/go/src/p'' = path_join [''/go'', ''src'', ''p'']" by code_simp
  from PathFromGoSrc_cases[OF this] show ?thesis by blast
qed

end
