(* ===== verification/Templates.thy ===== *)
theory Templates
  imports Pathx
begin

text \<open>
  Templates that are compiled into the program are copied to a directory (\<open>pathx/fs.go\<close>). An embedded
  file system is a tree of files and directories; it is read by slash-separated names, and its names are
  those of the files it was made from.
\<close>

section \<open>Embedded file systems\<close>

definition fs_find :: "node \<Rightarrow> string \<Rightarrow> node option" where
  "fs_find t name =
     (if name = ''.'' then Some t
      else if list_all valid_name (split_char (CHR ''/'') name) then lookup t (split_char (CHR ''/'') name)
      else None)"

definition fs_ReadDir :: "node \<Rightarrow> string \<Rightarrow> errno + (string \<times> entry) list" where
  "fs_ReadDir t name =
     (case fs_find t name of
        None \<Rightarrow> Inl ENOENT
      | Some n \<Rightarrow> if is_dir (shallow n) then Inr (node_entries n) else Inl ENOTDIR)"

definition fs_ReadFile :: "node \<Rightarrow> string \<Rightarrow> errno + string" where
  "fs_ReadFile t name =
     (case fs_find t name of
        Some (File m c) \<Rightarrow> Inr c
      | Some _ \<Rightarrow> Inl EISDIR
      | None \<Rightarrow> Inl ENOENT)"

lemma fs_find_join:
  assumes "fs_find t src = Some n" "valid_name x"
  shows "fs_find t (path_join [src, x]) = lookup n [x]"
proof (cases "src = ''.''")
  case True
  have "path_elems False (''./'' @ x) = [x]"
    using path_elems_snoc[OF assms(2), of False "''.''"] by (simp add: path_elems_def push_elem_def)
  then have "path_join [src, x] = x"
    using True assms(2) by (simp add: path_join_name[OF assms(2)] is_rooted_def path_elems_def push_elem_def)
  moreover have "split_char (CHR ''/'') x = [x]" using assms(2) by (simp add: valid_name_def split_char_no_sep)
  ultimately show ?thesis using True assms by (simp add: fs_find_def valid_name_def)
next
  case False
  let ?es = "split_char (CHR ''/'') src"
  from assms(1) False have es: "list_all valid_name ?es" "lookup t ?es = Some n"
    by (auto simp: fs_find_def split: if_splits)
  have js: "join ?es ''/'' = src" using join_split_char[of "CHR ''/''" src] by simp
  have ne: "src \<noteq> []" "\<not> is_rooted src"
  proof -
    have "valid_name (hd ?es)" using es(1) by (cases ?es) auto
    then show "src \<noteq> []" "\<not> is_rooted src" by (cases src; auto simp: valid_name_def is_rooted_def)+
  qed
  have "path_elems False src = ?es" using path_elems_of_join[OF es(1), of False] js by simp
  then have j: "path_join [src, x] = join (?es @ [x]) ''/''" using path_join_name[OF assms(2) ne(1)] ne(2) by simp
  have "\<forall>e \<in> set (?es @ [x]). CHR ''/'' \<notin> set e" using es(1) assms(2) by (auto simp: list_all_iff valid_name_def)
  then have sp: "split_char (CHR ''/'') (join (?es @ [x]) ''/'') = ?es @ [x]" by (intro split_char_join) auto
  moreover have "join (?es @ [x]) ''/'' \<noteq> ''.''"
  proof
    assume "join (?es @ [x]) ''/'' = ''.''"
    then have "?es @ [x] = [''.'']" using sp by simp
    then show False by simp
  qed
  ultimately show ?thesis using es assms(2) unfolding j fs_find_def by (simp add: lookup_append)
qed

lemma size_child: "map_of es x = Some n \<Longrightarrow> size n < size (Dir m es)"
proof -
  assume "map_of es x = Some n"
  then have "(x, n) \<in> set es" by (rule map_of_SomeD)
  then show ?thesis by (induction es) (auto simp: less_Suc_eq_le trans_le_add1)
qed

definition fs_size :: "node \<Rightarrow> string \<Rightarrow> nat" where
  "fs_size t src = (case fs_find t src of None \<Rightarrow> 0 | Some n \<Rightarrow> Suc (size n))"

lemma fs_ReadDir_Dir: "fs_ReadDir t src = Inr names \<Longrightarrow> \<exists>m es. fs_find t src = Some (Dir m es) \<and> names = node_entries (Dir m es)"
  by (auto simp: fs_ReadDir_def is_dir_iff dest!: shallow_Dir split: option.splits if_splits)

lemma node_entries_valid: "x \<in> set (node_entries n) \<Longrightarrow> valid_name (fst x)"
  by (cases n) auto

lemma fs_size_join:
  assumes "fs_ReadDir t src = Inr names" "x \<in> set names"
  shows "fs_size t (path_join [src, fst x]) < fs_size t src"
proof -
  obtain m es where f: "fs_find t src = Some (Dir m es)" "names = node_entries (Dir m es)"
    using fs_ReadDir_Dir[OF assms(1)] by blast
  have "fs_find t (path_join [src, fst x]) = lookup (Dir m es) [fst x]"
    using fs_find_join[OF f(1)] node_entries_valid assms(2) f(2) by blast
  then show ?thesis using f(1) size_child[of es "fst x" _ m] by (auto simp: fs_size_def split: option.splits)
qed

section \<open>Copying\<close>

datatype tpl_step =
    ListDir | CopyingDir | CopyingFile | ReadingFile | WritingFile | ReadingDir | MakingDir | SubDir | SubFile

datatype tpl_error = TplOs errno | In tpl_step tpl_error

type_synonym tpl_result = "tpl_error option \<times> osys"

definition in_step :: "tpl_step \<Rightarrow> tpl_result \<Rightarrow> tpl_result" where
  "in_step st r = (case r of (e, s) \<Rightarrow> (map_option (In st) e, s))"

text \<open>The result of making the directory is dropped.\<close>

definition CopyFsFile :: "node \<Rightarrow> string \<Rightarrow> string \<Rightarrow> osys \<Rightarrow> tpl_result" where
  "CopyFsFile srcFS src dst s =
     (case fs_ReadFile srcFS src of
        Inl e \<Rightarrow> (Some (In ReadingFile (TplOs e)), s)
      | Inr data \<Rightarrow>
          (case WriteFile (snd (MkdirIfNotExist (path_dir dst) s)) dst data 420 of
             (Some e, s) \<Rightarrow> (Some (In WritingFile (TplOs e)), s)
           | (None, s) \<Rightarrow> (None, s)))"

function CopyFsDir :: "node \<Rightarrow> string \<Rightarrow> string \<Rightarrow> osys \<Rightarrow> tpl_result" where
  "CopyFsDir srcFS src dst s =
     (case fs_ReadDir srcFS src of
        Inl e \<Rightarrow> (Some (In ReadingDir (TplOs e)), s)
      | Inr srcInfo \<Rightarrow>
          (case MkdirAll s dst 493 of
             (Some e, s) \<Rightarrow> (Some (In MakingDir (TplOs e)), s)
           | (None, s) \<Rightarrow>
               for_each (\<lambda>entry s.
                 let entryPath = path_join [src, fst entry]; targetPath = path_join [dst, fst entry] in
                 if is_dir (snd entry) then in_step SubDir (CopyFsDir srcFS entryPath targetPath s)
                 else in_step SubFile (CopyFsFile srcFS entryPath targetPath s)) srcInfo s))"
  by pat_completeness auto
termination
  by (relation "measure (\<lambda>(t, src, _, _). fs_size t src)") (auto simp: fs_size_join)

declare CopyFsDir.simps [simp del]

definition CopyTpl :: "node \<Rightarrow> string \<Rightarrow> string \<Rightarrow> osys \<Rightarrow> tpl_result" where
  "CopyTpl srcFS src dst s =
     (case fs_ReadDir srcFS src of
        Inl e \<Rightarrow> (Some (In ListDir (TplOs e)), s)
      | Inr entries \<Rightarrow>
          for_each (\<lambda>entry s.
            let srcPath = path_join [src, fst entry]; dstPath = path_join [dst, fst entry] in
            if is_dir (snd entry) then in_step CopyingDir (CopyFsDir srcFS srcPath dstPath s)
            else in_step CopyingFile (CopyFsFile srcFS srcPath dstPath s)) entries s)"

section \<open>What a copy changes\<close>

lemma OpenFile_content:
  assumes "OpenFile s p c t m = (Inr q, s')" "plain_os s" "is_rooted p"
  shows "q = abs_elems p" "plain_os s'" "plain_os (set_content q b s')"
    "\<exists>k. look (tree (set_content q b s')) q = Some (AFile k b)"
    "\<And>x. x \<noteq> q \<Longrightarrow> look (tree (set_content q b s')) x = look (tree s) x"
proof -
  have w: "wf_os s" and lf: "link_free (tree s)" using assms(2) by (auto simp: plain_os_def)
  note o = OpenFile_Inr[OF assms(1) w]
  show "q = abs_elems p" using plain_locate[OF lf assms(3) o(1)] .
  show "\<exists>k. look (tree (set_content q b s')) q = Some (AFile k b)" using o(4) by auto
  show "look (tree (set_content q b s')) x = look (tree s) x" if "x \<noteq> q" for x using o(3) that by simp
  show p: "plain_os s'" using wf_OpenFile[OF assms(1) w] link_free_OpenFile[OF assms(1) w lf] by (simp add: plain_os_def)
  show "plain_os (set_content q b s')"
    using p wf_set_content locate_names[OF w o(1)] link_free_set_content by (auto simp: plain_os_def)
qed

lemma MkdirIfNotExist_upto:
  assumes "MkdirIfNotExist d s = (r, s')" "plain_os s" "straight d"
  shows "plain_os s' \<and> dirs_upto (abs_elems d) (tree s) (tree s')"
proof -
  obtain e s1 where mk: "MkdirAll s d ModePerm = (e, s1)" by fastforce
  have "s' = s \<or> s' = s1"
    using assms(1) mk by (auto simp: MkdirIfNotExist_def os_fail_def split: if_splits sum.splits)
  then show ?thesis using plain_MkdirAll[OF mk assms(2)] plain_upto[OF mk assms(2,3)] assms(2) by auto
qed

lemma CopyFsFile_copies:
  assumes "CopyFsFile t src dst s = (r, s')" "plain_os s" "straight dst"
  shows "plain_os s' \<and> confined (abs_elems dst) (tree s) (tree s')
    \<and> (r = None \<longrightarrow> (\<exists>m c k. fs_find t src = Some (File m c) \<and> look (tree s') (abs_elems dst) = Some (AFile k c)))"
proof (cases "fs_ReadFile t src")
  case (Inr data)
  obtain e1 s1 where mk: "MkdirIfNotExist (path_dir dst) s = (e1, s1)" by fastforce
  note pd = path_dir_below[OF assms(3)]
  have p1: "plain_os s1" "confined (abs_elems dst) (tree s) (tree s1)"
    using MkdirIfNotExist_upto[OF mk assms(2)] pd dirs_upto_below dirs_upto_confined by blast+
  obtain m where f: "fs_find t src = Some (File m data)"
    using Inr by (auto simp: fs_ReadFile_def split: option.splits node.splits)
  obtain e2 s2 where o: "OpenFile s1 dst True True 420 = (e2, s2)" by fastforce
  show ?thesis
  proof (cases e2)
    case (Inl e)
    then have "s' = s1 \<and> r \<noteq> None"
      using assms(1) Inr mk o OpenFile_Inl[of s1 dst True True 420 e s2] by (auto simp: CopyFsFile_def WriteFile_def)
    then show ?thesis using p1 by auto
  next
    case I2: (Inr q)
    note at = OpenFile_content(1)[OF o[unfolded I2] p1(1) straight_rooted[OF assms(3)]]
      OpenFile_content(3-5)[OF o[unfolded I2] p1(1) straight_rooted[OF assms(3)], where b = data]
    have s': "s' = set_content q data s2" using assms(1) Inr mk o I2 by (simp add: CopyFsFile_def WriteFile_def)
    have "confined (abs_elems dst) (tree s1) (tree s')" using at(1,4) s' by (intro confined_at[of q]) auto
    then show ?thesis using at(1-3) s' p1(2) confined_trans f by blast
  qed
qed (use assms in \<open>auto simp: CopyFsFile_def\<close>)

text \<open>The loop over the entries, as CopyFsDir and CopyTpl share it.\<close>

definition tpl_entry :: "tpl_step \<Rightarrow> tpl_step \<Rightarrow> node \<Rightarrow> string \<Rightarrow> string \<Rightarrow> string \<times> entry \<Rightarrow> osys \<Rightarrow> tpl_result" where
  "tpl_entry d f t src dst entry s =
     (if is_dir (snd entry) then in_step d (CopyFsDir t (path_join [src, fst entry]) (path_join [dst, fst entry]) s)
      else in_step f (CopyFsFile t (path_join [src, fst entry]) (path_join [dst, fst entry]) s))"

lemma tpl_entry_abs:
  "tpl_entry d f t src dst = (\<lambda>entry s.
     if is_dir (snd entry) then in_step d (CopyFsDir t (path_join [src, fst entry]) (path_join [dst, fst entry]) s)
     else in_step f (CopyFsFile t (path_join [src, fst entry]) (path_join [dst, fst entry]) s))"
  by (intro ext) (simp add: tpl_entry_def)

lemma CopyTpl_loop:
  "CopyTpl t src dst s =
     (case fs_ReadDir t src of
        Inl e \<Rightarrow> (Some (In ListDir (TplOs e)), s)
      | Inr entries \<Rightarrow> for_each (tpl_entry CopyingDir CopyingFile t src dst) entries s)"
  unfolding CopyTpl_def tpl_entry_abs Let_def ..

lemma CopyFsDir_loop:
  "CopyFsDir t src dst s =
     (case fs_ReadDir t src of
        Inl e \<Rightarrow> (Some (In ReadingDir (TplOs e)), s)
      | Inr entries \<Rightarrow>
          (case MkdirAll s dst 493 of
             (Some e, s) \<Rightarrow> (Some (In MakingDir (TplOs e)), s)
           | (None, s) \<Rightarrow> for_each (tpl_entry SubDir SubFile t src dst) entries s))"
  unfolding CopyFsDir.simps[of t src dst s] tpl_entry_abs Let_def ..

text \<open>\<open>tpl_copied\<close>: every file of the node is below the path, with its content.\<close>

definition tpl_copied :: "node \<Rightarrow> node \<Rightarrow> string list \<Rightarrow> bool" where
  "tpl_copied n t' D \<longleftrightarrow> (\<forall>r m c. look n r = Some (AFile m c) \<longrightarrow> (\<exists>k. look t' (D @ r) = Some (AFile k c)))"

definition entry_done :: "node \<Rightarrow> string list \<Rightarrow> string \<times> entry \<Rightarrow> osys \<Rightarrow> bool" where
  "entry_done n D x a \<longleftrightarrow> (\<exists>k. lookup n [fst x] = Some k \<and> tpl_copied k (tree a) (D @ [fst x]))"

lemma entry_done_keep:
  assumes "entry_done n D y a" "confined (D @ [fst x]) (tree a) (tree b)" "fst x \<noteq> fst y"
  shows "entry_done n D y b"
proof -
  have "look (tree b) ((D @ [fst y]) @ r) = look (tree a) ((D @ [fst y]) @ r)" for r
    using confined_apart[OF assms(2) apart_snoc[OF assms(3)]] .
  then show ?thesis using assms(1) by (auto simp: entry_done_def tpl_copied_def)
qed

lemma tpl_loop:
  assumes step: "\<And>x a e b. x \<in> set es \<Longrightarrow> plain_os a \<Longrightarrow> f x a = (e, b)
      \<Longrightarrow> plain_os b \<and> confined (D @ [fst x]) (tree a) (tree b) \<and> (e = None \<longrightarrow> entry_done n D x b)"
    and run: "for_each f es s = (r, s')" and "plain_os s" "distinct (map fst es)"
  shows "plain_os s' \<and> confined D (tree s) (tree s') \<and> (r = None \<longrightarrow> (\<forall>x \<in> set es. entry_done n D x s'))"
proof -
  have up: "below D (D @ [x])" for x by (simp add: below_iff)
  have inv: "plain_os b \<and> confined D (tree s) (tree b)"
    if "x \<in> set es" "plain_os a \<and> confined D (tree s) (tree a)" "f x a = (e, b)" for x a e b
  proof -
    have st: "plain_os b" "confined (D @ [fst x]) (tree a) (tree b)" using step[OF that(1) _ that(3)] that(2) by blast+
    show ?thesis using st(1) confined_trans[OF conjunct2[OF that(2)] confined_below[OF st(2) up]] ..
  qed
  have main: "plain_os s' \<and> confined D (tree s) (tree s')"
  proof (rule for_each_invariant[where I = "\<lambda>a. plain_os a \<and> confined D (tree s) (tree a)" and f = f and xs = es, OF _ run])
    show "plain_os s \<and> confined D (tree s) (tree s)" using assms(3) by simp
  qed (rule inv)
  have "\<forall>x \<in> set es. x \<in> set es \<longrightarrow> entry_done n D x s'" if r: "r = None"
  proof -
    have "plain_os s' \<and> (\<forall>x \<in> set es. x \<in> set es \<longrightarrow> entry_done n D x s')"
    proof (rule for_each_progress[where I = plain_os and Q = "\<lambda>x a. x \<in> set es \<longrightarrow> entry_done n D x a", OF run[unfolded r] assms(3)])
      show "distinct es" using assms(4) by (simp add: distinct_map)
      show "plain_os b \<and> (x \<in> set es \<longrightarrow> entry_done n D x b)" if "x \<in> set es" "plain_os a" "f x a = (None, b)" for x a b
        using step[OF that] by blast
      show "y \<in> set es \<longrightarrow> entry_done n D y b"
        if "x \<in> set es" "x \<noteq> y" "plain_os a" "y \<in> set es \<longrightarrow> entry_done n D y a" "f x a = (None, b)" for x y a b
      proof
        assume y: "y \<in> set es"
        then have "fst x \<noteq> fst y" using assms(4) that(1,2) by (metis distinct_map inj_onD)
        then show "entry_done n D y b" using entry_done_keep that(4) y step[OF that(1,3,5)] by blast
      qed
    qed
    then show ?thesis by blast
  qed
  with main show ?thesis by blast
qed

lemma entries_copied:
  assumes "wf_node (Dir m es)" "\<forall>x \<in> set (node_entries (Dir m es)). entry_done (Dir m es) D x a"
  shows "tpl_copied (Dir m es) (tree a) D"
  unfolding tpl_copied_def
proof (intro allI impI)
  fix r k c assume l: "look (Dir m es) r = Some (AFile k c)"
  then obtain y ys where r: "r = y # ys" by (cases r) auto
  with l obtain n where n: "map_of es y = Some n" "look n ys = Some (AFile k c)" by (auto split: option.splits)
  then have "(y, shallow n) \<in> set (node_entries (Dir m es))"
    using node_entries_props[OF assms(1)] by simp
  then have "tpl_copied n (tree a) (D @ [y])" using assms(2) n(1) by (fastforce simp: entry_done_def)
  then show "\<exists>k. look (tree a) (D @ r) = Some (AFile k c)" using n(2) r by (auto simp: tpl_copied_def)
qed

lemma fs_find_wf: "fs_find t src = Some n \<Longrightarrow> wf_node t \<Longrightarrow> wf_node n"
  using wf_lookup[of t "split_char (CHR ''/'') src" n] by (auto simp: fs_find_def split: if_splits)

lemma tpl_entry_step:
  assumes dirs: "\<And>a r b. is_dir (snd x) \<Longrightarrow> plain_os a \<Longrightarrow>
      CopyFsDir t (path_join [src, fst x]) (path_join [dst, fst x]) a = (r, b) \<Longrightarrow>
      plain_os b \<and> confined (abs_elems (path_join [dst, fst x])) (tree a) (tree b)
      \<and> (r = None \<longrightarrow> (\<exists>n. fs_find t (path_join [src, fst x]) = Some n
            \<and> tpl_copied n (tree b) (abs_elems (path_join [dst, fst x]))))"
    and "fs_find t src = Some n" "valid_name (fst x)" "is_rooted dst" "plain_os a"
    and run: "tpl_entry d f t src dst x a = (e, b)"
  shows "plain_os b \<and> confined (abs_elems dst @ [fst x]) (tree a) (tree b)
    \<and> (e = None \<longrightarrow> entry_done n (abs_elems dst) x b)"
proof -
  let ?s = "path_join [src, fst x]" and ?d = "path_join [dst, fst x]"
  have d: "abs_elems ?d = abs_elems dst @ [fst x]" "straight ?d"
    using abs_elems_join[OF assms(3) rooted_nonempty[OF assms(4)] assms(4)] straight_join[OF assms(3,4)] by simp_all
  have c: "fs_find t ?s = lookup n [fst x]" by (rule fs_find_join[OF assms(2,3)])
  show ?thesis
  proof (cases "is_dir (snd x)")
    case True
    obtain r0 b0 where r0: "CopyFsDir t ?s ?d a = (r0, b0)" by fastforce
    then have "b = b0" "e = None \<Longrightarrow> r0 = None" using run True by (auto simp: tpl_entry_def in_step_def)
    then show ?thesis using dirs[OF True assms(5) r0] d(1) c by (auto simp: entry_done_def)
  next
    case False
    obtain r0 b0 where r0: "CopyFsFile t ?s ?d a = (r0, b0)" by fastforce
    then have b0: "b = b0" "e = None \<Longrightarrow> r0 = None" using run False by (auto simp: tpl_entry_def in_step_def)
    have leaf: "tpl_copied (File m c0) t' D" if "look t' D = Some (AFile k c0)" for m c0 t' D k
      using that look_leaf(1)[of m c0] unfolding tpl_copied_def by (metis append_Nil2 entry.inject(1) look_Nil neq_Nil_conv option.distinct(1) option.inject shallow.simps(1))
    show ?thesis using CopyFsFile_copies[OF r0 assms(5) d(2)] b0 d(1) c leaf by (auto simp: entry_done_def)
  qed
qed

lemma CopyFsDir_copies:
  "CopyFsDir t src dst s = (r, s') \<Longrightarrow> wf_node t \<Longrightarrow> plain_os s \<Longrightarrow> straight dst
   \<Longrightarrow> plain_os s' \<and> confined (abs_elems dst) (tree s) (tree s')
     \<and> (r = None \<longrightarrow> (\<exists>n. fs_find t src = Some n \<and> tpl_copied n (tree s') (abs_elems dst)))"
proof (induction t src dst s arbitrary: r s' rule: CopyFsDir.induct)
  case (1 t src dst s)
  show ?case
  proof (cases "fs_ReadDir t src")
    case (Inr es)
    obtain m ds where f: "fs_find t src = Some (Dir m ds)" and es: "es = node_entries (Dir m ds)"
      using fs_ReadDir_Dir[OF Inr] by blast
    have wf: "wf_node (Dir m ds)" using fs_find_wf[OF f "1.prems"(2)] .
    obtain r1 s1 where mk: "MkdirAll s dst 493 = (r1, s1)" by fastforce
    have p1: "plain_os s1" "confined (abs_elems dst) (tree s) (tree s1)"
      using plain_MkdirAll[OF mk "1.prems"(3)] plain_upto[OF mk "1.prems"(3,4)] dirs_upto_confined by blast+
    show ?thesis
    proof (cases r1)
      case (Some e)
      then show ?thesis using "1.prems"(1) Inr mk p1 by (auto simp: CopyFsDir_loop[of t src dst s])
    next
      case None
      then have loop: "for_each (tpl_entry SubDir SubFile t src dst) es s1 = (r, s')"
        using "1.prems"(1) Inr mk by (simp add: CopyFsDir_loop[of t src dst s])
      have step: "plain_os b \<and> confined (abs_elems dst @ [fst x]) (tree a) (tree b)
          \<and> (e = None \<longrightarrow> entry_done (Dir m ds) (abs_elems dst) x b)"
        if x: "x \<in> set es" and a: "plain_os a" and run: "tpl_entry SubDir SubFile t src dst x a = (e, b)" for x a e b
      proof (rule tpl_entry_step[OF _ f _ straight_rooted[OF "1.prems"(4)] a run])
        show v: "valid_name (fst x)" using node_entries_valid x es by blast
        show "plain_os b' \<and> confined (abs_elems (path_join [dst, fst x])) (tree a') (tree b')
            \<and> (r' = None \<longrightarrow> (\<exists>n. fs_find t (path_join [src, fst x]) = Some n
                \<and> tpl_copied n (tree b') (abs_elems (path_join [dst, fst x]))))"
          if "is_dir (snd x)" "plain_os a'" "CopyFsDir t (path_join [src, fst x]) (path_join [dst, fst x]) a' = (r', b')"
          for a' r' b'
          by (rule "1.IH"[OF Inr mk[unfolded None, symmetric] refl x refl refl that(1,3) "1.prems"(2) that(2)
                straight_join[OF v straight_rooted[OF "1.prems"(4)]]])
      qed
      have d: "distinct (map fst es)" using node_entries_props(1)[OF wf] es by simp
      note L = tpl_loop[where f = "tpl_entry SubDir SubFile t src dst" and D = "abs_elems dst" and n = "Dir m ds", OF step loop p1(1) d]
      then show ?thesis using f es entries_copied[OF wf] confined_trans[OF p1(2)] by blast
    qed
  qed (use "1.prems" in \<open>auto simp: CopyFsDir_loop[of t src dst s]\<close>)
qed

text \<open>C27. When CopyTpl succeeds, every file of the embedded directory, at any depth, is below the
  destination with its content; whether it succeeds or not, nothing outside the destination changes except
  missing directories on the way to it.\<close>

theorem CopyTpl_copies:
  assumes "wf_node srcFS" "plain_os s" "straight dst" "CopyTpl srcFS src dst s = (r, s')"
  shows "confined (abs_elems dst) (tree s) (tree s')
    \<and> (r = None \<longrightarrow> (\<exists>n. fs_find srcFS src = Some n
        \<and> (\<forall>p m c. look n p = Some (AFile m c) \<longrightarrow> (\<exists>k. look (tree s') (abs_elems dst @ p) = Some (AFile k c)))))"
proof (cases "fs_ReadDir srcFS src")
  case (Inr es)
  obtain m ds where f: "fs_find srcFS src = Some (Dir m ds)" and es: "es = node_entries (Dir m ds)"
    using fs_ReadDir_Dir[OF Inr] by blast
  have wf: "wf_node (Dir m ds)" using fs_find_wf[OF f assms(1)] .
  have loop: "for_each (tpl_entry CopyingDir CopyingFile srcFS src dst) es s = (r, s')"
    using assms(4) Inr by (simp add: CopyTpl_loop)
  have rt: "is_rooted dst" using assms(3) by (rule straight_rooted)
  have step: "plain_os b \<and> confined (abs_elems dst @ [fst x]) (tree a) (tree b)
      \<and> (e = None \<longrightarrow> entry_done (Dir m ds) (abs_elems dst) x b)"
    if x: "x \<in> set es" and a: "plain_os a" and run: "tpl_entry CopyingDir CopyingFile srcFS src dst x a = (e, b)" for x a e b
  proof (rule tpl_entry_step[OF _ f _ rt a run])
    show v: "valid_name (fst x)" using node_entries_valid x es by blast
  qed (use CopyFsDir_copies[OF _ assms(1)] straight_join rt node_entries_valid x es in blast)
  have d: "distinct (map fst es)" using node_entries_props(1)[OF wf] es by simp
  note L = tpl_loop[where f = "tpl_entry CopyingDir CopyingFile srcFS src dst" and D = "abs_elems dst" and n = "Dir m ds",
      OF step loop assms(2) d]
  then show ?thesis using f es entries_copied[OF wf, of "abs_elems dst" s'] unfolding tpl_copied_def by blast
qed (use assms in \<open>auto simp: CopyTpl_loop\<close>)

definition small_fs :: node where
  "small_fs = Dir 365 [(''tpl'', Dir 365 [(''a'', File 292 ''x''), (''d'', Dir 365 [(''b'', File 292 ''y'')])])]"

theorem CopyTpl_copies_witness:
  "\<exists>k. look (tree (snd (CopyTpl small_fs ''tpl'' ''/a/t'' small_tree))) [''a'', ''t'', ''d'', ''b''] = Some (AFile k ''y'')"
proof -
  have w: "wf_node small_fs" by (simp add: small_fs_def valid_name_def)
  have run: "CopyTpl small_fs ''tpl'' ''/a/t'' small_tree = (None, snd (CopyTpl small_fs ''tpl'' ''/a/t'' small_tree))"
    by (rule pair_of_fst) code_simp
  have s: "straight ''/a/t''" "abs_elems ''/a/t'' = [''a'', ''t'']"
    and f: "fs_find small_fs ''tpl'' = Some (Dir 365 [(''a'', File 292 ''x''), (''d'', Dir 365 [(''b'', File 292 ''y'')])])"
    by code_simp+
  from CopyTpl_copies[OF w small_tree_plain s(1) run] f s(2)
  have c: "\<forall>p m c. look (Dir 365 [(''a'', File 292 ''x''), (''d'', Dir 365 [(''b'', File 292 ''y'')])]) p = Some (AFile m c)
      \<longrightarrow> (\<exists>k. look (tree (snd (CopyTpl small_fs ''tpl'' ''/a/t'' small_tree))) ([''a'', ''t''] @ p) = Some (AFile k c))"
    by simp
  from spec[OF spec[OF spec[OF c, of "[''d'', ''b'']"], of 292], of "''y''"] show ?thesis by simp
qed

end
