(* ===== verification/Cryptx.thy ===== *)
theory Cryptx
  imports GoStrings
begin

text \<open>
  The package \<open>cryptx\<close> (\<open>cryptx/cryptx.go\<close>, \<open>decode.go\<close>). The random sources, MD5, scrypt and the GBK
  decoder are arguments: \<open>read n\<close> gives \<open>n\<close> random bytes or fails, \<open>intn i m\<close> is the \<open>i\<close>-th draw below
  \<open>m\<close>. \<open>None\<close> is a panic.
\<close>

section \<open>Random strings\<close>

definition sources :: string where
  "sources = ''0123456789abcdefghijklmnopqrstuvwxyzABCDEFGHIJKLMNOPQRSTUVWXYZ''"

definition RandString :: "(nat \<Rightarrow> nat \<Rightarrow> nat) \<Rightarrow> int64 \<Rightarrow> string" where
  "RandString intn len = map (\<lambda>i. sources ! intn i (length sources)) [0..<nat (sint len)]"

definition RandAuthToken :: "(nat \<Rightarrow> string option) \<Rightarrow> (nat \<Rightarrow> nat \<Rightarrow> nat) \<Rightarrow> string" where
  "RandAuthToken read intn =
     (case read 32 of
        None \<Rightarrow> RandString intn 64
      | Some buf \<Rightarrow> hex_string 65 buf)"

definition charset :: string where
  "charset = ''0123456789ABCDEFGHIJKLMNOPQRSTUVWXYZabcdefghijklmnopqrstuvwxyz''"

definition SecureRandString :: "(nat \<Rightarrow> string option) \<Rightarrow> (nat \<Rightarrow> nat \<Rightarrow> nat) \<Rightarrow> int64 \<Rightarrow> string option" where
  "SecureRandString read intn len =
     (if sint len < 0 then None
      else (case read (nat (sint len)) of
              None \<Rightarrow> Some (RandString intn len)
            | Some randomBytes \<Rightarrow>
                Some (map (\<lambda>i. charset ! (code (randomBytes ! i) mod length charset)) [0..<nat (sint len)])))"

definition RandNumber :: "(nat \<Rightarrow> nat \<Rightarrow> nat) \<Rightarrow> int64 \<Rightarrow> int64 option" where
  "RandNumber intn m = (if sint m \<le> 0 then None else Some (of_nat (intn 0 (nat (sint m)))))"

section \<open>Digests and encodings\<close>

definition Md5 :: "(string \<Rightarrow> string) \<Rightarrow> string \<Rightarrow> string" where
  "Md5 md5 str = hex_string 97 (md5 str)"

text \<open>The parameters of scrypt are fixed; an error gives no key.\<close>

definition PasswordEncrypt ::
  "(string \<Rightarrow> string \<Rightarrow> nat \<Rightarrow> nat \<Rightarrow> nat \<Rightarrow> nat \<Rightarrow> string option) \<Rightarrow> string \<Rightarrow> string \<Rightarrow> string" where
  "PasswordEncrypt key salt password =
     hex_string 97 (case key password salt 32768 8 1 32 of None \<Rightarrow> [] | Some dk \<Rightarrow> dk)"

definition GBK2UTF8 :: "(string \<Rightarrow> string \<times> bool) \<Rightarrow> string \<Rightarrow> string \<times> bool" where
  "GBK2UTF8 gbk s = gbk s"

definition ConvertEncoding :: "(string \<Rightarrow> string \<times> bool) \<Rightarrow> string \<Rightarrow> string" where
  "ConvertEncoding gbk outputGBK =
     (case GBK2UTF8 gbk outputGBK of (outputUTF8, ok) \<Rightarrow> if ok then outputUTF8 else outputGBK)"

section \<open>Replacing\<close>

fun replace_each :: "string list \<Rightarrow> string list \<Rightarrow> string \<Rightarrow> string" where
  "replace_each (v # vs) (r # rs) s = replace_each vs rs (replace (Some 1000) s v r)"
| "replace_each vs rs s = s"

definition ReplaceStrings :: "string \<Rightarrow> string list \<Rightarrow> string list \<Rightarrow> string" where
  "ReplaceStrings s old new =
     (if s = [] then s
      else if length old \<noteq> length new then s
      else replace_each old new s)"

definition InStringSlice :: "string list \<Rightarrow> string \<Rightarrow> bool" where
  "InStringSlice xs element = (\<exists>v \<in> set xs. trim_space v = trim_space element)"

definition specialChars :: "string list" where
  "specialChars = [[CHR 0x5C], [CHR 0x08], [CHR 0x0C], [CHR 0x0A], [CHR 0x0D], [CHR 0x09], [CHR 0x22]]"

definition replaceChars :: "string list" where
  "replaceChars = [[CHR 0x5C, CHR 0x5C], [CHR 0x5C, CHR ''b''], [CHR 0x5C, CHR ''f''], [CHR 0x5C, CHR ''n''],
     [CHR 0x5C, CHR ''r''], [CHR 0x5C, CHR ''t''], [CHR 0x5C, CHR 0x22]]"

definition EscapeJson :: "string \<Rightarrow> string" where
  "EscapeJson s = ReplaceStrings s specialChars replaceChars"

section \<open>One character replaced\<close>

definition subst_char :: "char \<Rightarrow> string \<Rightarrow> string \<Rightarrow> string" where
  "subst_char c r s = concat (map (\<lambda>x. if x = c then r else [x]) s)"

lemma subst_char_simps [simp]:
  "subst_char c r [] = []"
  "subst_char c r (x # s) = (if x = c then r else [x]) @ subst_char c r s"
  by (simp_all add: subst_char_def)

lemma replace_from_char:
  "count_list s c \<le> n \<Longrightarrow> replace_from (Some n) [c] r s = subst_char c r s"
proof (induction s arbitrary: n)
  case Nil
  then show ?case by (simp add: replace_from.simps)
next
  case (Cons x s)
  show ?case
  proof (cases "x = c")
    case True
    then obtain k where "n = Suc k" using Cons.prems by (cases n) auto
    then show ?thesis using Cons True
      by (subst replace_from.simps) (simp add: has_prefix_def)
  next
    case False
    show ?thesis
    proof (cases n)
      case 0
      then have "count_list s c = 0" using Cons.prems False by simp
      then have "subst_char c r s = s" by (induction s) (auto split: if_splits)
      then show ?thesis using 0 False by (subst replace_from.simps) simp
    next
      case (Suc k)
      then show ?thesis using Cons False by (subst replace_from.simps) (simp add: has_prefix_def)
    qed
  qed
qed

lemma replace_char: "count_list s c \<le> n \<Longrightarrow> replace (Some n) s [c] r = subst_char c r s"
  by (simp add: replace_def replace_from_char)

lemma count_subst_char:
  "d \<noteq> c \<Longrightarrow> count_list r d = 0 \<Longrightarrow> count_list (subst_char c r s) d = count_list s d"
  by (induction s) (auto simp: count_list_append)

text \<open>Replacing one after another is a single pass when no text put in is changed later.\<close>

definition escape_char :: "char \<Rightarrow> string" where
  "escape_char c =
     (if c = CHR 0x5C then [CHR 0x5C, CHR 0x5C]
      else if c = CHR 0x08 then [CHR 0x5C, CHR ''b'']
      else if c = CHR 0x0C then [CHR 0x5C, CHR ''f'']
      else if c = CHR 0x0A then [CHR 0x5C, CHR ''n'']
      else if c = CHR 0x0D then [CHR 0x5C, CHR ''r'']
      else if c = CHR 0x09 then [CHR 0x5C, CHR ''t'']
      else if c = CHR 0x22 then [CHR 0x5C, CHR 0x22]
      else [c])"

lemma subst_char_append: "subst_char c r (a @ b) = subst_char c r a @ subst_char c r b"
  by (simp add: subst_char_def)

lemma escape_passes:
  "subst_char (CHR 0x22) [CHR 0x5C, CHR 0x22] (subst_char (CHR 0x09) [CHR 0x5C, CHR ''t'']
    (subst_char (CHR 0x0D) [CHR 0x5C, CHR ''r''] (subst_char (CHR 0x0A) [CHR 0x5C, CHR ''n'']
    (subst_char (CHR 0x0C) [CHR 0x5C, CHR ''f''] (subst_char (CHR 0x08) [CHR 0x5C, CHR ''b'']
    (subst_char (CHR 0x5C) [CHR 0x5C, CHR 0x5C] s)))))) = concat (map escape_char s)"
  by (induction s) (simp_all add: subst_char_append escape_char_def)

lemma EscapeJson_few:
  assumes "\<forall>v \<in> set (concat specialChars). count_list s v \<le> 1000"
  shows "EscapeJson s = concat (map escape_char s)"
proof (cases "s = []")
  case False
  have "count_list s (CHR 0x5C) \<le> 1000" "count_list s (CHR 0x08) \<le> 1000" "count_list s (CHR 0x0C) \<le> 1000"
    "count_list s (CHR 0x0A) \<le> 1000" "count_list s (CHR 0x0D) \<le> 1000" "count_list s (CHR 0x09) \<le> 1000"
    "count_list s (CHR 0x22) \<le> 1000"
    using assms by (simp_all add: specialChars_def)
  with False show ?thesis
    by (simp add: EscapeJson_def ReplaceStrings_def specialChars_def replaceChars_def replace_char count_subst_char
        escape_passes)
qed (simp add: EscapeJson_def ReplaceStrings_def)

text \<open>What a reader of JSON does with the escapes.\<close>

fun unescape :: "string \<Rightarrow> string" where
  "unescape (a # b # s) =
     (if a = CHR 0x5C then
        (if b = CHR ''b'' then CHR 0x08 else if b = CHR ''f'' then CHR 0x0C else if b = CHR ''n'' then CHR 0x0A
         else if b = CHR ''r'' then CHR 0x0D else if b = CHR ''t'' then CHR 0x09 else b) # unescape s
      else a # unescape (b # s))"
| "unescape s = s"

lemma unescape_plain: "a \<noteq> CHR 0x5C \<Longrightarrow> unescape (a # s) = a # unescape s"
  by (cases s) simp_all

lemma unescape_escape: "unescape (concat (map escape_char s)) = s"
  by (induction s) (auto simp: escape_char_def unescape_plain)

text \<open>More quotes than the limit.\<close>

lemma subst_char_absent: "c \<notin> set s \<Longrightarrow> subst_char c r s = s"
  by (induction s) auto

lemma replace_quotes:
  "replace_from (Some m) [c] r (replicate n c) = concat (replicate (min n m) r) @ replicate (n - m) c"
proof (induction n arbitrary: m)
  case 0
  then show ?case by (simp add: replace_from.simps)
next
  case (Suc n)
  show ?case
  proof (cases m)
    case 0
    then show ?thesis by (simp add: replace_from.simps)
  next
    case m: (Suc k)
    then show ?thesis using Suc[of k] by (subst replace_from.simps) (simp add: has_prefix_def)
  qed
qed

lemma replace_absent_char: "d \<notin> set s \<Longrightarrow> replace (Some m) s [d] r = s"
  using replace_char[of s d m r] subst_char_absent[of d s r] by (simp add: count_notin)

lemma EscapeJson_quotes:
  "EscapeJson (replicate n (CHR 0x22))
   = concat (replicate (min n 1000) [CHR 0x5C, CHR 0x22]) @ replicate (n - 1000) (CHR 0x22)"
proof (cases "n = 0")
  case False
  have keep: "replace (Some 1000) (replicate n (CHR 0x22)) [d] r = replicate n (CHR 0x22)" if "d \<noteq> CHR 0x22" for d r
    by (rule replace_absent_char) (use that in \<open>simp add: in_set_replicate\<close>)
  have "EscapeJson (replicate n (CHR 0x22)) = replace (Some 1000) (replicate n (CHR 0x22)) [CHR 0x22] [CHR 0x5C, CHR 0x22]"
    unfolding EscapeJson_def ReplaceStrings_def specialChars_def replaceChars_def replace_each.simps
    using False by (simp add: keep del: replicate_Suc)
  then show ?thesis unfolding replace_def by (simp only: list.distinct if_False replace_quotes)
qed (simp add: EscapeJson_def ReplaceStrings_def)

section \<open>Properties\<close>

text \<open>C28. With at most 1000 occurrences of each special character EscapeJson is one pass over the string,
  and unescaping gives the string back. Beyond the limit of strings.Replace the occurrences stay as they
  are: of \<open>n\<close> quotes only the first 1000 are escaped.\<close>

theorem EscapeJson_limit:
  "((\<forall>v \<in> set (concat specialChars). count_list s v \<le> 1000)
      \<longrightarrow> EscapeJson s = concat (map escape_char s) \<and> unescape (EscapeJson s) = s)
   \<and> EscapeJson (replicate (1000 + n) (CHR 0x22)) = concat (replicate 1000 [CHR 0x5C, CHR 0x22]) @ replicate n (CHR 0x22)"
  using EscapeJson_few[of s] EscapeJson_quotes[of "1000 + n"] unescape_escape[of s] by auto

theorem EscapeJson_limit_witness: "unescape (EscapeJson [CHR 0x22, CHR 0x0A, CHR 0x5C]) = [CHR 0x22, CHR 0x0A, CHR 0x5C]"
proof -
  have "\<forall>v \<in> set (concat specialChars). count_list [CHR 0x22, CHR 0x0A, CHR 0x5C] v \<le> 1000"
    by (simp add: specialChars_def)
  then show ?thesis using EscapeJson_limit[of "[CHR 0x22, CHR 0x0A, CHR 0x5C]"] by blast
qed

lemma sources_ok: "length sources = 62" "length charset = 62" "distinct charset" "set charset = set sources"
  by code_simp+

lemma one_per_block:
  "m \<le> 62 \<Longrightarrow> length (filter (\<lambda>b. b mod 62 = i) [62 * k..<62 * k + m]) = (if i < m then 1 else 0)"
proof (induction m)
  case (Suc m)
  then have "(62 * k + m) mod 62 = m" by simp
  then show ?case using Suc by auto
qed simp

lemma block_ends:
  "62 * 0 = (0 :: nat)" "0 + 62 = (62 :: nat)" "62 * 1 = (62 :: nat)" "62 + 62 = (124 :: nat)" "62 * 2 = (124 :: nat)"
  "124 + 62 = (186 :: nat)" "62 * 3 = (186 :: nat)" "186 + 62 = (248 :: nat)" "62 * 4 = (248 :: nat)"
  "248 + 8 = (256 :: nat)" "8 \<le> (62 :: nat)"
  by simp_all

lemma bytes_per_char:
  assumes "i < 62"
  shows "length (filter (\<lambda>b. b mod 62 = i) [0..<256]) = (if i < 8 then 5 else 4)"
proof -
  let ?n = "\<lambda>a b. length (filter (\<lambda>b. b mod 62 = i) [a..<b])"
  have split: "?n a c = ?n a b + ?n b c" if "a \<le> b" "b \<le> c" for a b c
    using upt_add_eq_append[of a b "c - b"] that by simp
  have "?n 0 256 = ?n 0 62 + (?n 62 124 + (?n 124 186 + (?n 186 248 + ?n 248 256)))"
    using split[of 0 62 256] split[of 62 124 256] split[of 124 186 256] split[of 186 248 256] by linarith
  moreover have "?n 0 62 = 1" "?n 62 124 = 1" "?n 124 186 = 1" "?n 186 248 = 1" "?n 248 256 = (if i < 8 then 1 else 0)"
    using one_per_block[of 62 i 0, unfolded block_ends] one_per_block[of 62 i 1, unfolded block_ends]
      one_per_block[of 62 i 2, unfolded block_ends] one_per_block[of 62 i 3, unfolded block_ends]
      one_per_block[of 8 i 4, unfolded block_ends] assms
    by (simp_all only: if_True order.refl simp_thms block_ends)
  ultimately show ?thesis by (simp only: split: if_split) simp
qed

text \<open>A random string has the length that was asked for and only letters and digits; with the secure
  source every character of the alphabet is the image of four or five of the 256 bytes, the first eight of
  five.\<close>

theorem random_strings:
  assumes "\<And>n b. read n = Some b \<Longrightarrow> length b = n" "\<And>i m. 0 < m \<Longrightarrow> intn i m < m"
  shows "length (RandAuthToken read intn) = 64
    \<and> (0 \<le> sint len \<longrightarrow> (\<exists>s. SecureRandString read intn len = Some s \<and> length s = nat (sint len) \<and> set s \<subseteq> set charset))
    \<and> (sint len < 0 \<longrightarrow> SecureRandString read intn len = None \<and> RandString intn len = [])
    \<and> (\<forall>i < 62. length (filter (\<lambda>b. SecureRandString (\<lambda>_. Some [char_of b]) intn 1 = Some [charset ! i]) [0..<256])
         = (if i < 8 then 5 else 4))"
proof -
  have rs: "length (RandString intn l) = nat (sint l)" "set (RandString intn l) \<subseteq> set charset" for l
    using assms(2)[of 62] sources_ok by (auto simp: RandString_def)
  have s64: "nat (sint (64 :: int64)) = 64" "sint (1 :: int64) = 1" by simp_all
  have token: "length (RandAuthToken read intn) = 64"
    using assms(1)[of 32] rs(1)[of 64] s64 by (auto simp: RandAuthToken_def split: option.split)
  have secure: "\<exists>s. SecureRandString read intn len = Some s \<and> length s = nat (sint len) \<and> set s \<subseteq> set charset" if "0 \<le> sint len"
    using that rs[of len] sources_ok by (auto simp: SecureRandString_def split: option.split)
  have one: "SecureRandString (\<lambda>_. Some [char_of b]) intn 1 = Some [charset ! i] \<longleftrightarrow> b mod 62 = i"
    if "b < 256" "i < 62" for b i
    using that sources_ok s64 by (simp add: SecureRandString_def code_char_of nth_eq_iff_index_eq)
  have "length (filter (\<lambda>b. SecureRandString (\<lambda>_. Some [char_of b]) intn 1 = Some [charset ! i]) [0..<256])
      = (if i < 8 then 5 else 4)" if "i < 62" for i
  proof -
    have "filter (\<lambda>b. SecureRandString (\<lambda>_. Some [char_of b]) intn 1 = Some [charset ! i]) [0..<256]
        = filter (\<lambda>b. b mod 62 = i) [0..<256]"
      by (rule filter_cong) (use one that in auto)
    then show ?thesis using bytes_per_char[OF that] by simp
  qed
  then show ?thesis using token secure by (auto simp: SecureRandString_def RandString_def)
qed

theorem random_strings_witness:
  "length (RandAuthToken (\<lambda>n. Some (replicate n (CHR ''x''))) (\<lambda>i m. i mod m)) = 64"
  using random_strings[of "\<lambda>n. Some (replicate n (CHR ''x''))" "\<lambda>i m. i mod m" 0] by auto

end
