(* ===== verification/Filetools.thy ===== *)
theory Filetools
  imports Pathx
begin

text \<open>
  The file functions of the package \<open>toolx\<close> (\<open>toolx/file.go\<close>): inserting a line into a text file by way
  of a temporary file, and writing files. The GBK decoder is an argument.
\<close>

section \<open>Inserting lines\<close>

text \<open>\<open>ReadString\<close> gives the lines that end with a newline; what is left when the file ends comes with the
  error that ends the loop.\<close>

definition whole_lines :: "string \<Rightarrow> string list" where
  "whole_lines c = butlast (split_char (CHR 0x0A) c)"

definition copy_lines :: "(nat \<Rightarrow> string \<Rightarrow> bool) \<Rightarrow> string \<Rightarrow> string \<Rightarrow> string" where
  "copy_lines here insertInfo c =
     concat (map (\<lambda>(i, line). line @ [CHR 0x0A] @ (if here i line then insertInfo @ [CHR 0x0A] else []))
       (enumerate 0 (whole_lines c)))"

definition temp_dir :: "osys \<Rightarrow> string" where
  "temp_dir s = path_join [Getwd s, ''temp8hh8hhkjhjk'']"

text \<open>Both functions differ only in the line they look for.\<close>

definition insert_info :: "(nat \<Rightarrow> string \<Rightarrow> bool) \<Rightarrow> string \<Rightarrow> string \<Rightarrow> osys \<Rightarrow> file_error result" where
  "insert_info here fileName insertInfo s =
     (let tempPath = temp_dir s; tempFileName = path_join [tempPath, ''temp.temp''] in
      case OpenFile s fileName False False 356 of
        (Inl e, s) \<Rightarrow> (Some (OsError e), s)
      | (Inr file, s) \<Rightarrow>
          (case Create s tempFileName of
             (Inl e, s) \<Rightarrow> (Some (OsError e), s)
           | (Inr tempFile, s) \<Rightarrow>
               (case read_all s file of
                  Inl e \<Rightarrow> (Some (OsError e), s)
                | Inr c \<Rightarrow>
                    (case FileMove tempFileName fileName (set_content tempFile (copy_lines here insertInfo c) s) of
                       (Some e, s) \<Rightarrow> (Some e, s)
                     | (None, s) \<Rightarrow> (None, snd (RemoveAll s tempPath))))))"

definition FileInsertInfoSeek :: "string \<Rightarrow> string \<Rightarrow> string \<Rightarrow> osys \<Rightarrow> file_error result" where
  "FileInsertInfoSeek fileName insertInfo seekInfo s =
     insert_info (\<lambda>_ line. line = seekInfo) fileName insertInfo s"

definition FileInsertInfoLine :: "string \<Rightarrow> string \<Rightarrow> int64 \<Rightarrow> osys \<Rightarrow> file_error result" where
  "FileInsertInfoLine fileName insertInfo seekLine s =
     insert_info (\<lambda>i _. (of_nat i :: int64) = seekLine) fileName insertInfo s"

section \<open>Writing files\<close>

text \<open>The errors carry the path and the error of the system; \<open>errno_text\<close> is its text.\<close>

datatype write_error = CannotOpen string errno | CannotCreate string errno

fun string_error_text :: "(errno \<Rightarrow> string) \<Rightarrow> write_error \<Rightarrow> string" where
  "string_error_text errno_text (CannotOpen path e) = path @ '' '' @ encode [25171, 24320, 25991, 20214, 22833, 36133, 65281] @ errno_text e"
| "string_error_text errno_text (CannotCreate path e) = path @ '' '' @ encode [21019, 24314, 25991, 20214, 22833, 36133, 65281] @ errno_text e"

definition byte_error_text :: "(errno \<Rightarrow> string) \<Rightarrow> string \<Rightarrow> errno \<Rightarrow> string" where
  "byte_error_text errno_text path e = path @ '' '' @ encode [25171, 24320, 25991, 20214, 22833, 36133] @ '': '' @ errno_text e"

definition WriteFileString :: "string \<Rightarrow> string \<Rightarrow> bool \<Rightarrow> osys \<Rightarrow> write_error option \<times> osys" where
  "WriteFileString path info coverType s =
     (if FileExist s path then
        (case OpenFile s path False coverType 438 of
           (Inl e, s) \<Rightarrow> (Some (CannotOpen path e), s)
         | (Inr fl, s) \<Rightarrow> (None, add_content fl (info @ [CHR 0x0A]) s))
      else
        (case Create s path of
           (Inl e, s) \<Rightarrow> (Some (CannotCreate path e), s)
         | (Inr fl, s) \<Rightarrow> (None, add_content fl (info @ [CHR 0x0A]) s)))"

definition WriteFileByte :: "string \<Rightarrow> string \<Rightarrow> bool \<Rightarrow> osys \<Rightarrow> write_error option \<times> osys" where
  "WriteFileByte path info coverType s =
     (case OpenFile s path True coverType 438 of
        (Inl e, s) \<Rightarrow> (Some (CannotOpen path e), s)
      | (Inr fl, s) \<Rightarrow> (None, add_content fl info s))"

definition TrimPrefixPath :: "string \<Rightarrow> string \<Rightarrow> string" where
  "TrimPrefixPath fullPath prefix = dropWhile (\<lambda>c. c = CHR ''/'') (trim_prefix fullPath prefix)"

definition GBK2UTF8 :: "(string \<Rightarrow> string \<times> bool) \<Rightarrow> string \<Rightarrow> string \<times> bool" where
  "GBK2UTF8 gbk s = gbk s"

section \<open>Moving a file\<close>

lemma Rename_file:
  assumes "Rename s a b = (None, s')" "plain_os s" "is_rooted a" "is_rooted b"
    and "abs_elems a \<noteq> abs_elems b" "look (tree s) (abs_elems a) = Some (AFile m c)" "abs_elems b \<noteq> []"
  shows "look (tree s') (abs_elems b) = Some (AFile m c)" "plain_os s'"
proof -
  let ?A = "abs_elems a" and ?B = "abs_elems b"
  have lf: "link_free (tree s)" and wf: "wf_os s" using assms(2) by (auto simp: plain_os_def)
  from assms(1) obtain q1 q2 where q: "locate s False a = Inr q1" "locate s False b = Inr q2" "rename_at s q1 q2 = (None, s')"
    by (rule Rename_cases) auto
  have qe: "q1 = ?A" "q2 = ?B"
    using plain_locate[OF lf assms(3) q(1)] plain_locate[OF lf assms(4) q(2)] by simp_all
  obtain n where n: "lookup (tree s) ?A = Some n" "shallow n = AFile m c" using look_lookup[OF assms(6)] by blast
  then have nf: "n = File m c" by (cases n) auto
  have ne: "?A \<noteq> []"
    using assms(6) wf by (auto simp: wf_os_def)
  have nb: "\<not> below ?A ?B"
  proof
    assume "below ?A ?B"
    then obtain y ys where y: "?B = ?A @ y # ys" using assms(5) by (cases "drop (length ?A) ?B") (auto simp: below_iff)
    obtain k where "look (tree s) (butlast ?B) = Some (ADir k)"
      using physical_parent[OF locate_physical[OF wf q(2)]] assms(7) qe by auto
    moreover have "butlast ?B = ?A @ butlast (y # ys)" using y by (simp add: butlast_append)
    ultimately have "look (tree s) (?A @ butlast (y # ys)) = Some (ADir k)" by simp
    then show False using n(1) nf by (cases "butlast (y # ys)") (simp_all add: look_append)
  qed
  have s': "s' = put_node ?B n (drop_node ?A s)"
    using q(3) n(1) nb assms(5) ne assms(7) unfolding qe by (auto simp: rename_at_def nf split: option.splits if_splits)
  have dr: "look (tree (drop_node ?A s)) p = (if below ?A p then None else look (tree s) p)" for p
    using look_drop_node[of s ?A p] locate_physical[OF wf q(1)] ne unfolding qe by simp
  obtain k where k: "look (tree s) (butlast ?B) = Some (ADir k)"
    using physical_parent[OF locate_physical[OF wf q(2)]] assms(7) qe by auto
  have "\<not> below ?A (butlast ?B)"
  proof
    assume "below ?A (butlast ?B)"
    moreover have "below (butlast ?B) ?B" using append_butlast_last_id[OF assms(7)] by (metis below_iff)
    ultimately show False using nb below_trans by blast
  qed
  then have "look (tree (drop_node ?A s)) (butlast ?B) = Some (ADir k)" using dr[of "butlast ?B"] k by simp
  then have put: "look (tree s') p = (if below ?B p then look n (drop (length ?B) p) else look (tree (drop_node ?A s)) p)" for p
    unfolding s' put_node_def using look_set_at[of "tree (drop_node ?A s)" ?B k n p] assms(7) by simp
  show "look (tree s') ?B = Some (AFile m c)" using put[of ?B] n(2) by simp
  have "look (tree s') p \<noteq> Some (ALink tg)" for p tg
  proof (cases "below ?B p")
    case True
    then show ?thesis using put[of p] nf by (cases "drop (length ?B) p") auto
  next
    case False
    then show ?thesis using put[of p] dr[of p] lf by (auto simp: link_free_def)
  qed
  then have "link_free (tree s')" by (simp add: link_free_def)
  then show "plain_os s'" using wf_Rename[OF assms(1) wf] by (simp add: plain_os_def)
qed

declare abs_elems_clean [simp]

lemma FileMove_file:
  assumes "FileMove a b s = (None, s')" "plain_os s" "is_rooted a" "is_rooted b"
    and "abs_elems a \<noteq> abs_elems b" "look (tree s) (abs_elems a) = Some (AFile m c)" "abs_elems b \<noteq> []"
  shows "look (tree s') (abs_elems b) = Some (AFile m c)" "plain_os s'"
proof -
  define make where "make = (\<lambda>s. case Stat s (path_dir (path_clean b)) of
      Inr _ \<Rightarrow> (None, s) | Inl _ \<Rightarrow> MkdirAll s (path_dir (path_clean b)) 493)"
  have step: "plain_os u' \<and> look (tree u') (abs_elems a) = Some (AFile m c)"
    if "make u = (r, u')" "plain_os u" "look (tree u) (abs_elems a) = Some (AFile m c)" for u r u'
  proof -
    obtain r1 u1 where mk: "MkdirAll u (path_dir (path_clean b)) 493 = (r1, u1)" by fastforce
    have "u' = u \<or> u' = u1" using that(1) mk by (auto simp: make_def split: sum.splits)
    moreover have "look (tree u1) (abs_elems a) = Some (AFile m c)"
      using adds_dirs_Some[OF _ that(3)] MkdirAll_adds[OF mk] that(2) by (auto simp: plain_os_def)
    ultimately show ?thesis using that plain_MkdirAll[OF mk that(2)] by auto
  qed
  have ne: "b \<noteq> []" using assms(4) rooted_nonempty by blast
  obtain r1 s1 where m1: "make s = (r1, s1)" by fastforce
  obtain r2 s2 where m2: "make s1 = (r2, s2)" by fastforce
  obtain r3 s3 where rn: "Rename s2 (path_clean a) (path_clean b) = (r3, s3)" by fastforce
  have "FileMove a b s = (case make s of
      (Some e, s) \<Rightarrow> (Some (OsError e), s)
    | (None, s) \<Rightarrow> (case make s of
          (Some e, s) \<Rightarrow> (Some (OsError e), s)
        | (None, s) \<Rightarrow> os_result (Rename s (path_clean a) (path_clean b))))"
    unfolding FileMove_def Let_def Abs_def make_def using ne assms(3,4) by (simp only: if_False if_True simp_thms)
  then have "r1 = None" "r2 = None" "r3 = None" "s' = s3"
    using assms(1) m1 m2 rn by (cases r1; cases r2; cases r3; simp add: os_result_def)+
  moreover note s1 = step[OF m1 assms(2,6)]
  moreover note s2 = step[OF m2 conjunct1[OF s1] conjunct2[OF s1]]
  ultimately show "look (tree s') (abs_elems b) = Some (AFile m c)" "plain_os s'"
    using Rename_file[of s2 "path_clean a" "path_clean b" s' m c] rn assms(3-5,7) by simp_all
qed

section \<open>Properties\<close>

lemma temp_elems:
  "abs_elems (path_join [temp_dir s, ''temp.temp'']) = abs_elems (temp_dir s) @ [''temp.temp'']"
  "is_rooted (path_join [temp_dir s, ''temp.temp''])"
proof -
  have r: "is_rooted (Getwd s)" by (simp add: Getwd_def is_rooted_def)
  have v: "valid_name ''temp8hh8hhkjhjk''" "valid_name ''temp.temp''" by (simp_all add: valid_name_def)
  have "is_rooted (temp_dir s)" unfolding temp_dir_def by (rule rooted_join[OF v(1) r])
  then show "abs_elems (path_join [temp_dir s, ''temp.temp'']) = abs_elems (temp_dir s) @ [''temp.temp'']"
    "is_rooted (path_join [temp_dir s, ''temp.temp''])"
    using v(2) rooted_nonempty by simp_all
qed

lemma insert_info_effect:
  assumes "plain_os s" "is_rooted f" "look (tree s) (abs_elems f) = Some (AFile m c)"
    and "\<not> below (abs_elems (temp_dir s)) (abs_elems f)"
  shows "look (tree s) (abs_elems (temp_dir s)) = None \<Longrightarrow> \<exists>e. insert_info here f info s = (Some e, s)"
    "insert_info here f info s = (None, s') \<Longrightarrow> \<exists>k. look (tree s') (abs_elems f) = Some (AFile k (copy_lines here info c))"
proof -
  let ?T = "path_join [temp_dir s, ''temp.temp'']"
  have wf: "wf_os s" using assms(1) by (simp add: plain_os_def)
  obtain r0 s0 where o: "OpenFile s f False False 356 = (r0, s0)" by fastforce
  have s0: "s0 = s" using o by (auto simp: OpenFile_def split: if_splits sum.splits option.splits entry.splits)
  obtain r1 s1 where cr: "Create s ?T = (r1, s1)" by fastforce
  show "\<exists>e. insert_info here f info s = (Some e, s)" if none: "look (tree s) (abs_elems (temp_dir s)) = None"
  proof (cases r0)
    case (Inr q)
    have "\<exists>e. r1 = Inl e"
    proof (cases r1)
      case (Inr t)
      have l: "locate s True ?T = Inr t" using OpenFile_Inr(1)[OF cr[unfolded Create_def Inr] wf] .
      have "t = abs_elems (temp_dir s) @ [''temp.temp'']"
        using plain_locate[OF _ temp_elems(2) l] assms(1) temp_elems(1) by (simp add: plain_os_def)
      then show ?thesis using physical_parent[OF locate_physical[OF wf l]] none by simp
    qed simp
    then obtain e where e: "r1 = Inl e" by blast
    then have "s1 = s" using OpenFile_Inl cr by (metis Create_def)
    then show ?thesis using o s0 Inr cr e by (simp add: insert_info_def Let_def)
  qed (use o s0 in \<open>simp add: insert_info_def Let_def\<close>)
  show "\<exists>k. look (tree s') (abs_elems f) = Some (AFile k (copy_lines here info c))"
    if run: "insert_info here f info s = (None, s')"
  proof -
    from run o s0 obtain q where q: "r0 = Inr q" by (cases r0) (auto simp: insert_info_def Let_def)
    from run o s0 q cr obtain t where t: "r1 = Inr t" by (cases r1) (auto simp: insert_info_def Let_def)
    have qf: "q = abs_elems f"
      using plain_locate[OF _ assms(2) OpenFile_Inr(1)[OF o[unfolded q] wf]] assms(1) by (simp add: plain_os_def)
    let ?out = "copy_lines here info c"
    let ?s2 = "set_content t ?out s1"
    note at = Create_at(1)[OF cr[unfolded t] assms(1) temp_elems(2)] Create_at(2)[OF cr[unfolded t] assms(1) temp_elems(2), where c = ?out]
    have tt: "t = abs_elems (temp_dir s) @ [''temp.temp'']" using at(1) temp_elems(1) by simp
    have ne: "abs_elems f \<noteq> t" using assms(4) tt by (auto simp: below_iff)
    have "look (tree s1) (abs_elems f) = Some (AFile m c)"
      using Create_at(3)[OF cr[unfolded t] assms(1) temp_elems(2)] OpenFile_Inr(3)[OF cr[unfolded t Create_def] wf ne] assms(3) by simp
    then have rd: "read_all s1 q = Inr c" using qf by (simp add: read_all_def)
    obtain r3 s3 where mv: "FileMove ?T f ?s2 = (r3, s3)" by fastforce
    have r3: "r3 = None" and s': "s' = snd (RemoveAll s3 (temp_dir s))"
      using run o s0 q cr t rd mv by (cases r3; simp add: insert_info_def Let_def)+
    have p2: "plain_os ?s2" using plain_Create_content[OF cr[unfolded t] assms(1)] by blast
    obtain k where k: "look (tree ?s2) t = Some (AFile k ?out)" using at(2) by blast
    have fne: "abs_elems f \<noteq> []" using assms(3) wf by (auto simp: wf_os_def)
    have mv2: "look (tree s3) (abs_elems f) = Some (AFile k ?out)" "plain_os s3"
      using FileMove_file[OF mv[unfolded r3] p2 temp_elems(2) assms(2) _ _ fne] k ne at(1) by auto
    have "look (tree s') (abs_elems f) = look (tree s3) (abs_elems f)"
    proof (cases "\<exists>d. RemoveAll s3 (temp_dir s) = (None, drop_node d s3) \<and> d \<noteq> [] \<and> locate s3 False (temp_dir s) = Inr d")
      case True
      then obtain d where d: "RemoveAll s3 (temp_dir s) = (None, drop_node d s3)" "d \<noteq> []" "locate s3 False (temp_dir s) = Inr d"
        by blast
      have w3: "wf_os s3" using mv2(2) by (simp add: plain_os_def)
      have "is_rooted (temp_dir s)" unfolding temp_dir_def
        by (rule rooted_join) (simp_all add: valid_name_def Getwd_def is_rooted_def)
      then have "d = abs_elems (temp_dir s)" using plain_locate[OF _ _ d(3)] mv2(2) by (simp add: plain_os_def)
      then show ?thesis using look_drop_node[OF locate_physical[OF w3 d(3)] d(2)] assms(4) d(1) s' by simp
    next
      case False
      then have "s' = s3" using s' by (auto simp: RemoveAll_def split: if_splits sum.splits option.splits)
      then show ?thesis by simp
    qed
    then show ?thesis using mv2(1) by auto
  qed
qed

lemma copy_enumerate: "map f (enumerate 0 xs) = map (\<lambda>i. f (i, xs ! i)) [0..<length xs]"
  by (rule nth_equalityI) (simp_all add: nth_enumerate_eq)

lemma copy_seek:
  "copy_lines (\<lambda>_ line. line = seek) info c = concat (map (\<lambda>line.
      line @ [CHR 0x0A] @ (if line = seek then info @ [CHR 0x0A] else [])) (whole_lines c))"
proof -
  have "map (\<lambda>(i, x). f x) (enumerate n xs) = map f xs" for f :: "string \<Rightarrow> string" and n xs
    by (induction xs arbitrary: n) simp_all
  then show ?thesis unfolding copy_lines_def by metis
qed

lemma copy_at:
  "copy_lines (\<lambda>i _. (of_nat i :: int64) = n) info c = concat (map (\<lambda>i.
      whole_lines c ! i @ [CHR 0x0A] @ (if (of_nat i :: int64) = n then info @ [CHR 0x0A] else [])) [0..<length (whole_lines c)])"
  unfolding copy_lines_def copy_enumerate by (simp only: split_conv)

text \<open>C29. FileInsertInfoSeek and FileInsertInfoLine need a directory that nothing in the program makes: without
  it they fail and change nothing. When they succeed the file holds its lines with the new line after
  every matching one, or after the line with the given number counted from zero; a last line without a
  newline is lost.\<close>

theorem FileInsert_effect:
  assumes "plain_os s" "is_rooted f" "look (tree s) (abs_elems f) = Some (AFile m c)"
    and "\<not> below (abs_elems (temp_dir s)) (abs_elems f)"
  shows "(look (tree s) (abs_elems (temp_dir s)) = None \<longrightarrow>
        (\<exists>e. FileInsertInfoSeek f info seek s = (Some e, s)) \<and> (\<exists>e. FileInsertInfoLine f info n s = (Some e, s)))
    \<and> (FileInsertInfoSeek f info seek s = (None, s') \<longrightarrow>
        (\<exists>k. look (tree s') (abs_elems f) = Some (AFile k (concat (map (\<lambda>line.
            line @ [CHR 0x0A] @ (if line = seek then info @ [CHR 0x0A] else [])) (whole_lines c))))))
    \<and> (FileInsertInfoLine f info n s = (None, s') \<longrightarrow>
        (\<exists>k. look (tree s') (abs_elems f) = Some (AFile k (concat (map (\<lambda>i.
            whole_lines c ! i @ [CHR 0x0A] @ (if of_nat i = n then info @ [CHR 0x0A] else [])) [0..<length (whole_lines c)])))))"
proof -
  note a = copy_seek[of seek info c] and b = copy_at[of n info c]
  note i = insert_info_effect[OF assms]
  show ?thesis
    unfolding FileInsertInfoSeek_def FileInsertInfoLine_def a[symmetric] b[symmetric]
    by (intro conjI impI) (rule i(1), assumption | rule i(2), assumption)+
qed

definition text_os :: osys where
  "text_os = \<lparr>tree = Dir 493 [(''f'', File 420 (''a'' @ [CHR 0x0A] @ ''b'')), (''temp8hh8hhkjhjk'', Dir 493 [])], cwd = [], umask = 18\<rparr>"

theorem FileInsert_effect_witness:
  "\<exists>k. look (tree (snd (FileInsertInfoSeek ''/f'' ''x'' ''a'' text_os))) [''f'']
     = Some (AFile k (''a'' @ [CHR 0x0A] @ ''x'' @ [CHR 0x0A]))"
proof -
  have pl: "plain_os text_os"
    by (auto simp: plain_os_def wf_os_def text_os_def valid_name_def intro!: link_free_Dir)
  have f: "is_rooted ''/f''" "abs_elems ''/f'' = [''f'']" "abs_elems (temp_dir text_os) = [''temp8hh8hhkjhjk'']"
    "look (tree text_os) [''f''] = Some (AFile 420 (''a'' @ [CHR 0x0A] @ ''b''))"
    "whole_lines (''a'' @ [CHR 0x0A] @ ''b'') = [''a'']"
    by code_simp+
  have nb: "\<not> below [''temp8hh8hhkjhjk''] [''f'']" by simp
  have run: "FileInsertInfoSeek ''/f'' ''x'' ''a'' text_os = (None, snd (FileInsertInfoSeek ''/f'' ''x'' ''a'' text_os))"
    by (rule pair_of_fst) code_simp
  show ?thesis
    using FileInsert_effect[OF pl f(1), of 420 "''a'' @ [CHR 0x0A] @ ''b''" "''x''" "''a''" 0
        "snd (FileInsertInfoSeek ''/f'' ''x'' ''a'' text_os)"] f nb run
    by (simp del: append.simps)
qed

definition old_content :: "osys \<Rightarrow> string \<Rightarrow> string" where
  "old_content s p = (case look (tree s) (abs_elems p) of Some (AFile _ c) \<Rightarrow> c | _ \<Rightarrow> [])"

lemma resolve_follow: "link_free t \<Longrightarrow> resolve t l cur es f = resolve t l cur es g"
  by (induction t l cur es f rule: resolve.induct)
    (auto simp: resolve.simps(2) link_free_def split: option.splits entry.splits)

lemma locate_follow: "link_free (tree s) \<Longrightarrow> locate s False p = locate s True p"
  using resolve_follow[of "tree s" _ _ _ False True] by (simp add: locate_def)

lemma OpenFile_add:
  assumes "OpenFile s p cr cover m = (Inr q, s1)" "plain_os s" "is_rooted p"
  shows "\<exists>k. look (tree (add_content q b s1)) (abs_elems p) = Some (AFile k ((if cover then [] else old_content s p) @ b))"
    "x \<noteq> abs_elems p \<Longrightarrow> look (tree (add_content q b s1)) x = look (tree s) x"
proof -
  have wf: "wf_os s" and lf: "link_free (tree s)" using assms(2) by (auto simp: plain_os_def)
  note o = OpenFile_Inr[OF assms(1) wf]
  have q: "q = abs_elems p" using plain_locate[OF lf assms(3) o(1)] .
  show "\<exists>k. look (tree (add_content q b s1)) (abs_elems p) = Some (AFile k ((if cover then [] else old_content s p) @ b))"
    using o(4) unfolding q by (auto simp: old_content_def)
  show "x \<noteq> abs_elems p \<Longrightarrow> look (tree (add_content q b s1)) x = look (tree s) x" using o(3)[of x] unfolding q by simp
qed

text \<open>WriteFileByte and WriteFileString leave the file with the new text alone, or with the text added to
  what was there; WriteFileString adds a newline. A missing file counts as empty.\<close>

theorem WriteFile_content:
  assumes "plain_os s" "is_rooted path"
  shows "(WriteFileByte path info cover s = (None, s') \<longrightarrow>
        (\<exists>k. look (tree s') (abs_elems path) = Some (AFile k ((if cover then [] else old_content s path) @ info)))
        \<and> (\<forall>x. x \<noteq> abs_elems path \<longrightarrow> look (tree s') x = look (tree s) x))
    \<and> (WriteFileString path info cover s = (None, s') \<longrightarrow>
        (\<exists>k. look (tree s') (abs_elems path) = Some (AFile k ((if cover then [] else old_content s path) @ info @ [CHR 0x0A])))
        \<and> (\<forall>x. x \<noteq> abs_elems path \<longrightarrow> look (tree s') x = look (tree s) x))"
proof (intro conjI impI)
  assume a: "WriteFileByte path info cover s = (None, s')"
  obtain r s1 where o: "OpenFile s path True cover 438 = (r, s1)" by fastforce
  with a obtain q where q: "r = Inr q" "s' = add_content q info s1" by (cases r) (auto simp: WriteFileByte_def)
  show "\<exists>k. look (tree s') (abs_elems path) = Some (AFile k ((if cover then [] else old_content s path) @ info))"
    using OpenFile_add(1)[OF o[unfolded q(1)] assms] q(2) by blast
  show "\<forall>x. x \<noteq> abs_elems path \<longrightarrow> look (tree s') x = look (tree s) x"
    using OpenFile_add(2)[OF o[unfolded q(1)] assms] q(2) by blast
next
  assume a: "WriteFileString path info cover s = (None, s')"
  show "\<exists>k. look (tree s') (abs_elems path) = Some (AFile k ((if cover then [] else old_content s path) @ info @ [CHR 0x0A]))"
    "\<forall>x. x \<noteq> abs_elems path \<longrightarrow> look (tree s') x = look (tree s) x"
  proof (atomize (full), cases "FileExist s path")
    case True
    obtain r s1 where o: "OpenFile s path False cover 438 = (r, s1)" by fastforce
    with a True obtain q where q: "r = Inr q" "s' = add_content q (info @ [CHR 0x0A]) s1"
      by (cases r) (auto simp: WriteFileString_def)
    show "(\<exists>k. look (tree s') (abs_elems path) = Some (AFile k ((if cover then [] else old_content s path) @ info @ [CHR 0x0A])))
        \<and> (\<forall>x. x \<noteq> abs_elems path \<longrightarrow> look (tree s') x = look (tree s) x)"
      using OpenFile_add(1)[OF o[unfolded q(1)] assms, where b = "info @ [CHR 0x0A]"]
        OpenFile_add(2)[OF o[unfolded q(1)] assms, where b = "info @ [CHR 0x0A]"] q(2) by blast
  next
    case False
    obtain r s1 where o: "OpenFile s path True True 438 = (r, s1)" by fastforce
    with a False obtain q where q: "r = Inr q" "s' = add_content q (info @ [CHR 0x0A]) s1"
      by (cases r) (auto simp: WriteFileString_def Create_def)
    have "old_content s path = []"
    proof (cases "look (tree s) (abs_elems path)")
      case (Some e)
      have wf: "wf_os s" and lf: "link_free (tree s)" using assms(1) by (simp_all add: plain_os_def)
      have l: "locate s True path = Inr (abs_elems path)"
        using OpenFile_Inr(1)[OF o[unfolded q(1)] wf] plain_locate[OF lf assms(2)] by metis
      show ?thesis using False Some unfolding FileExist_def Lstat_def stat_at_def locate_follow[OF lf] l
        by (auto simp: old_content_def split: entry.splits)
    qed (simp add: old_content_def)
    then show "(\<exists>k. look (tree s') (abs_elems path) = Some (AFile k ((if cover then [] else old_content s path) @ info @ [CHR 0x0A])))
        \<and> (\<forall>x. x \<noteq> abs_elems path \<longrightarrow> look (tree s') x = look (tree s) x)"
      using OpenFile_add(1)[OF o[unfolded q(1)] assms, where b = "info @ [CHR 0x0A]"]
        OpenFile_add(2)[OF o[unfolded q(1)] assms, where b = "info @ [CHR 0x0A]"] q(2) by auto
  qed
qed

theorem WriteFile_content_witness:
  "(\<exists>k. look (tree (snd (WriteFileString ''/f'' ''x'' False text_os))) [''f''] = Some (AFile k (''a'' @ [CHR 0x0A] @ ''bx'' @ [CHR 0x0A])))"
proof -
  have pl: "plain_os text_os"
    by (auto simp: plain_os_def wf_os_def text_os_def valid_name_def intro!: link_free_Dir)
  have f: "is_rooted ''/f''" "abs_elems ''/f'' = [''f'']" "old_content text_os ''/f'' = ''a'' @ [CHR 0x0A] @ ''b''"
    by code_simp+
  have run: "WriteFileString ''/f'' ''x'' False text_os = (None, snd (WriteFileString ''/f'' ''x'' False text_os))"
    by (rule pair_of_fst) code_simp
  show ?thesis using WriteFile_content[OF pl f(1), of "''x''" False] f run by simp
qed

end
