(* ===== verification/GoTime.thy ===== *)
theory GoTime
  imports GoStrings
begin

text \<open>
  What the program uses of the package \<open>time\<close>: the layouts \<open>2006-01-02\<close>, \<open>15:04:05\<close> and their
  combination, written and read. A time is its calendar date and clock reading in its location.
\<close>

section \<open>Calendar\<close>

record civil =
  year :: int
  month :: nat
  day :: nat
  hour :: nat
  minute :: nat
  second :: nat
  nsec :: nat

definition leap_year :: "int \<Rightarrow> bool" where
  "leap_year y \<longleftrightarrow> y mod 4 = 0 \<and> (y mod 100 \<noteq> 0 \<or> y mod 400 = 0)"

definition days_in :: "nat \<Rightarrow> int \<Rightarrow> nat" where
  "days_in m y = (if m = 2 then (if leap_year y then 29 else 28) else if m \<in> {4, 6, 9, 11} then 30 else 31)"

definition valid_date :: "civil \<Rightarrow> bool" where
  "valid_date c \<longleftrightarrow> 1 \<le> month c \<and> month c \<le> 12 \<and> 1 \<le> day c \<and> day c \<le> days_in (month c) (year c)"

definition valid_clock :: "civil \<Rightarrow> bool" where
  "valid_clock c \<longleftrightarrow> hour c < 24 \<and> minute c < 60 \<and> second c < 60 \<and> nsec c < 1000000000"

definition zero_time :: civil where
  "zero_time = \<lparr>year = 1, month = 1, day = 1, hour = 0, minute = 0, second = 0, nsec = 0\<rparr>"

section \<open>Writing\<close>

definition pad_nat :: "nat \<Rightarrow> nat \<Rightarrow> string" where
  "pad_nat w n = (let d = digits_nat n in replicate (w - length d) (CHR ''0'') @ d)"

definition format_year :: "int \<Rightarrow> string" where
  "format_year y = (if y < 0 then ''-'' @ pad_nat 4 (nat (- y)) else pad_nat 4 (nat y))"

definition format_date :: "civil \<Rightarrow> string" where
  "format_date c = format_year (year c) @ ''-'' @ pad_nat 2 (month c) @ ''-'' @ pad_nat 2 (day c)"

definition format_clock :: "civil \<Rightarrow> string" where
  "format_clock c = pad_nat 2 (hour c) @ '':'' @ pad_nat 2 (minute c) @ '':'' @ pad_nat 2 (second c)"

section \<open>Reading\<close>

definition digit_val :: "char \<Rightarrow> nat" where
  "digit_val c = of_char c - 48"

fun getnum :: "bool \<Rightarrow> string \<Rightarrow> (nat \<times> string) option" where
  "getnum fixed [] = None"
| "getnum fixed [c] = (if is_digit c \<and> \<not> fixed then Some (digit_val c, []) else None)"
| "getnum fixed (c # d # v) =
     (if \<not> is_digit c then None
      else if \<not> is_digit d then (if fixed then None else Some (digit_val c, d # v))
      else Some (10 * digit_val c + digit_val d, v))"

definition get_year :: "string \<Rightarrow> (nat \<times> string) option" where
  "get_year v = (if length v < 4 then None else map_option (\<lambda>n. (n, drop 4 v)) (parse_digits (take 4 v)))"

definition skip_char :: "char \<Rightarrow> string \<Rightarrow> string option" where
  "skip_char c v = (case v of [] \<Rightarrow> None | d # v' \<Rightarrow> if d = c then Some v' else None)"

text \<open>A space in the layout stands for any number of spaces, and for none at the end of the text.\<close>

definition skip_spaces :: "string \<Rightarrow> string option" where
  "skip_spaces v = (if v \<noteq> [] \<and> hd v \<noteq> CHR '' '' then None else Some (dropWhile (\<lambda>c. c = CHR '' '') v))"

definition read_date :: "string \<Rightarrow> ((nat \<times> nat \<times> nat) \<times> string) option" where
  "read_date v =
     Option.bind (get_year v) (\<lambda>(y, v).
     Option.bind (skip_char (CHR ''-'') v) (\<lambda>v.
     Option.bind (getnum True v) (\<lambda>(m, v).
     if m < 1 \<or> 12 < m then None else
     Option.bind (skip_char (CHR ''-'') v) (\<lambda>v.
     Option.bind (getnum True v) (\<lambda>(d, v). Some ((y, m, d), v))))))"

text \<open>The hour may have one digit. Digits after a point or a comma are a fraction of the second though the
  layout has none; nine of them count.\<close>

definition read_fraction :: "string \<Rightarrow> nat \<times> string" where
  "read_fraction v =
     (case v of c # d # _ \<Rightarrow>
        if (c = CHR ''.'' \<or> c = CHR '','') \<and> is_digit d then
          (let ds = take 9 (takeWhile is_digit (tl v))
           in (digits_val ds * 10 ^ (9 - length ds), dropWhile is_digit (tl v)))
        else (0, v)
      | _ \<Rightarrow> (0, v))"

definition read_clock :: "string \<Rightarrow> ((nat \<times> nat \<times> nat \<times> nat) \<times> string) option" where
  "read_clock v =
     Option.bind (getnum False v) (\<lambda>(h, v).
     if 24 \<le> h then None else
     Option.bind (skip_char (CHR '':'') v) (\<lambda>v.
     Option.bind (getnum True v) (\<lambda>(mi, v).
     if 60 \<le> mi then None else
     Option.bind (skip_char (CHR '':'') v) (\<lambda>v.
     Option.bind (getnum True v) (\<lambda>(s, v).
     if 60 \<le> s then None else
     (case read_fraction v of (ns, v) \<Rightarrow> Some ((h, mi, s, ns), v)))))))"

definition make_time :: "nat \<times> nat \<times> nat \<Rightarrow> nat \<times> nat \<times> nat \<times> nat \<Rightarrow> string \<Rightarrow> civil option" where
  "make_time d t rest =
     (case d of (y, m, dd) \<Rightarrow> case t of (h, mi, s, ns) \<Rightarrow>
        if rest \<noteq> [] \<or> dd < 1 \<or> days_in m (int y) < dd then None
        else Some \<lparr>year = int y, month = m, day = dd, hour = h, minute = mi, second = s, nsec = ns\<rparr>)"

text \<open>\<open>time.Parse("2006-01-02", v)\<close> and \<open>time.Parse("2006-01-02 15:04:05", v)\<close>.\<close>

definition parse_date :: "string \<Rightarrow> civil option" where
  "parse_date v = Option.bind (read_date v) (\<lambda>(d, v). make_time d (0, 0, 0, 0) v)"

definition parse_datetime :: "string \<Rightarrow> civil option" where
  "parse_datetime v =
     Option.bind (read_date v) (\<lambda>(d, v).
     Option.bind (skip_spaces v) (\<lambda>v.
     Option.bind (read_clock v) (\<lambda>(t, v). make_time d t v)))"

section \<open>Padded numbers\<close>

lemma digits_nat_small:
  "n < 10 \<Longrightarrow> digits_nat n = [char_of (48 + n)]"
  "10 \<le> n \<Longrightarrow> n < 100 \<Longrightarrow> digits_nat n = [char_of (48 + n div 10), char_of (48 + n mod 10)]"
  by (simp_all add: digits_nat.simps)

lemma zero_char: "CHR ''0'' = char_of (48 :: nat)"
  by code_simp

lemma pad_two: "n < 100 \<Longrightarrow> pad_nat 2 n = [char_of (48 + n div 10), char_of (48 + n mod 10)]"
  by (cases "n < 10") (simp_all add: pad_nat_def digits_nat_small zero_char)

lemma digit_char: "d < 10 \<Longrightarrow> is_digit (char_of (48 + d))" "d < 10 \<Longrightarrow> digit_val (char_of (48 + d)) = d"
  by (simp_all add: is_digit_def digit_val_def)

lemma getnum_pad: "n < 100 \<Longrightarrow> getnum f (pad_nat 2 n @ v) = Some (n, v)"
  by (simp add: pad_two digit_char)

lemma digit_of_val: "is_digit c \<Longrightarrow> char_of (48 + digit_val c) = c" "is_digit c \<Longrightarrow> digit_val c < 10"
  unfolding is_digit_def digit_val_def by simp_all linarith

lemma two_digits:
  assumes "is_digit c" "is_digit d"
  shows "pad_nat 2 (10 * digit_val c + digit_val d) = [c, d]" "10 * digit_val c + digit_val d < 100"
proof -
  note l = digit_of_val(2)[OF assms(1)] digit_of_val(2)[OF assms(2)]
  then show "10 * digit_val c + digit_val d < 100" by linarith
  from pad_two[OF this] show "pad_nat 2 (10 * digit_val c + digit_val d) = [c, d]"
    using l digit_of_val(1)[OF assms(1)] digit_of_val(1)[OF assms(2)] by simp
qed

lemma getnum_True: "getnum True v = Some (n, w) \<Longrightarrow> v = pad_nat 2 n @ w \<and> n < 100"
  by (induction True v rule: getnum.induct) (auto simp: two_digits split: if_splits)

lemma length_digits_nat: "n < 10 ^ k \<Longrightarrow> 0 < k \<Longrightarrow> length (digits_nat n) \<le> k"
proof (induction n arbitrary: k rule: digits_nat.induct)
  case (1 n)
  show ?case
  proof (cases "n < 10")
    case False
    then obtain j where j: "k = Suc j" "0 < j" using 1 by (cases k; cases "k - 1") auto
    then have "n div 10 < 10 ^ j" using 1 by auto
    then show ?thesis using 1 False j by (subst digits_nat.simps) simp
  qed (use 1 in \<open>simp add: digits_nat.simps\<close>)
qed

lemma digits_val_snoc: "digits_val (s @ [z]) = 10 * digits_val s + digit_val z" "digits_val [] = 0"
  by (simp_all add: digits_val_def digit_val_def)

lemma digits_val_append: "digits_val (a @ b) = digits_val a * 10 ^ length b + digits_val b"
proof (induction b rule: rev_induct)
  case (snoc z b)
  have "digits_val (a @ b @ [z]) = 10 * digits_val (a @ b) + digit_val z"
    using digits_val_snoc(1)[of "a @ b" z] by simp
  also have "\<dots> = digits_val a * 10 ^ length (b @ [z]) + digits_val (b @ [z])"
    unfolding snoc digits_val_snoc by (simp add: distrib_left)
  finally show ?case .
qed (simp add: digits_val_snoc)

lemma digits_val_zeros: "digits_val (replicate k (CHR ''0'')) = 0"
proof (induction k)
  case (Suc k)
  have "digits_val [CHR ''0''] = 0" by code_simp
  then show ?case using Suc digits_val_append[of "[CHR ''0'']" "replicate k (CHR ''0'')"] by simp
qed (simp add: digits_val_def)

lemma pad_nat_props: "n < 10 ^ w \<Longrightarrow> 0 < w \<Longrightarrow> length (pad_nat w n) = w"
  "list_all is_digit (pad_nat w n)" "digits_val (pad_nat w n) = n"
proof -
  have z: "is_digit (CHR ''0'')" by code_simp
  show "n < 10 ^ w \<Longrightarrow> 0 < w \<Longrightarrow> length (pad_nat w n) = w"
    using length_digits_nat[of n w] by (simp add: pad_nat_def Let_def)
  show "list_all is_digit (pad_nat w n)"
    using digits_nat_props[of n] z by (auto simp: pad_nat_def Let_def list_all_iff)
  show "digits_val (pad_nat w n) = n"
    using digits_nat_props[of n] by (simp add: pad_nat_def Let_def digits_val_append digits_val_zeros)
qed

lemma digits_val_inj:
  "length a = length b \<Longrightarrow> list_all is_digit a \<Longrightarrow> list_all is_digit b \<Longrightarrow> digits_val a = digits_val b \<Longrightarrow> a = b"
proof (induction a b rule: rev_induct2)
  case (4 x xs y ys)
  have d: "digit_val x < 10" "digit_val y < 10" using 4 digit_of_val(2) by auto
  then have e: "digits_val xs = digits_val ys" "digit_val x = digit_val y" using 4(5) unfolding digits_val_snoc by presburger+
  have "is_digit x" "is_digit y" using 4 by simp_all
  then have "x = y" using e(2) digit_of_val(1) by metis
  then show ?case using 4 e by simp
qed auto

section \<open>Round trips\<close>

lemma get_year_pad: "y < 10000 \<Longrightarrow> get_year (pad_nat 4 y @ v) = Some (y, v)"
  using pad_nat_props(1)[of y 4] pad_nat_props(2,3)[of 4 y] by (auto simp: get_year_def parse_digits_def)

lemma get_year_Some: "get_year v = Some (y, w) \<Longrightarrow> v = pad_nat 4 y @ w \<and> y < 10000"
proof -
  assume a: "get_year v = Some (y, w)"
  then have t: "length (take 4 v) = 4" "list_all is_digit (take 4 v)" "y = digits_val (take 4 v)" "w = drop 4 v"
    by (auto simp: get_year_def parse_digits_def split: if_splits)
  have lt: "list_all is_digit ds \<Longrightarrow> digits_val ds < 10 ^ length ds" for ds
  proof (induction ds rule: rev_induct)
    case (snoc z zs)
    then show ?case using digit_of_val(2)[of z] by (simp add: digits_val_snoc)
  qed (simp add: digits_val_snoc)
  have y: "y < 10000" using lt[OF t(2)] t by simp
  have "take 4 v = pad_nat 4 y"
    by (rule digits_val_inj) (use t y pad_nat_props in auto)
  then show ?thesis using t(4) y by (metis append_take_drop_id)
qed

lemma days_in_le: "days_in m y \<le> 31"
  by (simp add: days_in_def)

lemma read_format_date:
  "0 \<le> year c \<Longrightarrow> year c < 10000 \<Longrightarrow> valid_date c
    \<Longrightarrow> read_date (format_date c @ v) = Some ((nat (year c), month c, day c), v)"
  using days_in_le[of "month c" "year c"]
  by (simp add: read_date_def format_date_def format_year_def get_year_pad skip_char_def getnum_pad valid_date_def)

lemma parse_format_date:
  "0 \<le> year c \<Longrightarrow> year c < 10000 \<Longrightarrow> valid_date c
    \<Longrightarrow> parse_date (format_date c) = Some (c\<lparr>hour := 0, minute := 0, second := 0, nsec := 0\<rparr>)"
  using read_format_date[of c "[]"] by (auto simp: parse_date_def make_time_def valid_date_def)

lemma parse_date_Some:
  assumes "parse_date v = Some c"
  shows "format_date c = v" "valid_date c" "0 \<le> year c" "year c < 10000"
proof -
  from assms obtain y m d w where r: "read_date v = Some ((y, m, d), w)" and k: "make_time (y, m, d) (0, 0, 0, 0) w = Some c"
    by (auto simp: parse_date_def split: option.splits bind_splits)
  from k have c: "year c = int y" "month c = m" "day c = d" "w = []" "1 \<le> d" "d \<le> days_in m (int y)"
    by (auto simp: make_time_def split: if_splits)
  from r obtain v1 v2 v3 v4 where p: "get_year v = Some (y, v1)" "skip_char (CHR ''-'') v1 = Some v2"
    "getnum True v2 = Some (m, v3)" "1 \<le> m" "m \<le> 12" "skip_char (CHR ''-'') v3 = Some v4" "getnum True v4 = Some (d, w)"
    by (auto simp: read_date_def split: bind_splits if_splits)
  have s: "v1 = CHR ''-'' # v2" "v3 = CHR ''-'' # v4" using p(2,6) by (auto simp: skip_char_def split: list.splits if_splits)
  show "format_date c = v"
    using get_year_Some[OF p(1)] getnum_True[OF p(3)] getnum_True[OF p(7)] c s by (simp add: format_date_def format_year_def)
  show "valid_date c" "0 \<le> year c" "year c < 10000" using c p get_year_Some[OF p(1)] by (simp_all add: valid_date_def)
qed

lemma read_format_clock:
  "valid_clock c \<Longrightarrow> read_clock (format_clock c) = Some ((hour c, minute c, second c, 0), [])"
  using getnum_pad[of "second c" True "[]"]
  by (simp add: read_clock_def format_clock_def skip_char_def getnum_pad valid_clock_def read_fraction_def)

lemma parse_format_datetime:
  assumes "0 \<le> year c" "year c < 10000" "valid_date c" "valid_clock c"
  shows "parse_datetime (format_date c @ '' '' @ format_clock c) = Some (c\<lparr>nsec := 0\<rparr>)"
proof -
  have "\<not> is_digit (CHR '' '')" by code_simp
  moreover have "hour c div 10 < 10" using assms(4) unfolding valid_clock_def by linarith
  then have "is_digit (hd (format_clock c))" "format_clock c \<noteq> []"
    using assms(4) pad_two[of "hour c"] digit_char(1)[of "hour c div 10"] by (simp_all add: format_clock_def valid_clock_def)
  ultimately have "hd (format_clock c) \<noteq> CHR '' ''" "format_clock c \<noteq> []" by metis+
  then have "skip_spaces ('' '' @ format_clock c) = Some (format_clock c)"
    by (cases "format_clock c") (simp_all add: skip_spaces_def)
  then show ?thesis
    using read_format_date[OF assms(1-3), of "'' '' @ format_clock c"] read_format_clock[OF assms(4)] assms
    by (auto simp: parse_datetime_def make_time_def valid_date_def)
qed

end
