(* ===== verification/Timex.thy ===== *)
theory Timex
  imports GoTime
begin

text \<open>
  The package \<open>timex\<close> (\<open>timex/timex.go\<close>). \<open>local\<close> is what the local time zone makes of a calendar time: the
  time itself unless the clocks skip it.
\<close>

section \<open>The functions\<close>

definition TimeToDatetimeStr :: "civil \<Rightarrow> string" where
  "TimeToDatetimeStr t = format_date t @ '' '' @ format_clock t"

definition TimeToDateStr :: "civil \<Rightarrow> string" where
  "TimeToDateStr t = format_date t"

definition TimeToTimeStr :: "civil \<Rightarrow> string" where
  "TimeToTimeStr t = format_clock t"

definition DatetimeStrToTime :: "(civil \<Rightarrow> civil) \<Rightarrow> string \<Rightarrow> civil" where
  "DatetimeStrToTime local t = (case parse_datetime t of None \<Rightarrow> zero_time | Some c \<Rightarrow> local c)"

definition DateStrToTime :: "(civil \<Rightarrow> civil) \<Rightarrow> string \<Rightarrow> civil" where
  "DateStrToTime local t = (case parse_date t of None \<Rightarrow> zero_time | Some c \<Rightarrow> local c)"

section \<open>Properties\<close>



end
