(* ===== verification/ExcelImport.thy ===== *)
theory ExcelImport
  imports GoTime "HOL-Library.AList"
begin

text \<open>
  The import of spreadsheets (\<open>toolx/tag.go\<close>, \<open>toolx/excelImport.go\<close>). A workbook is what excelize shows of
  it, its sheets and their rows; the database answers the statements of a transaction, which are kept in
  order; \<open>strconv.ParseFloat\<close>, \<open>json.Marshal\<close>, the UUIDs and the order of a map's keys are arguments. The
  model is given by the fields of its struct type.
\<close>

section \<open>Unsigned numbers\<close>

text \<open>\<open>strconv.ParseUint(v, 0, 64)\<close>: the prefix gives the base, underscores may stand between digits.\<close>

definition uint_digit :: "char \<Rightarrow> nat option" where
  "uint_digit c =
     (if is_digit c then Some (digit_val c)
      else if 97 \<le> code c \<and> code c \<le> 122 then Some (code c - 87)
      else if 65 \<le> code c \<and> code c \<le> 90 then Some (code c - 55)
      else None)"

fun uint_loop :: "nat \<Rightarrow> nat \<Rightarrow> string \<Rightarrow> nat option" where
  "uint_loop b n [] = Some n"
| "uint_loop b n (c # s) =
     (if c = CHR ''_'' then uint_loop b n s
      else (case uint_digit c of
              None \<Rightarrow> None
            | Some d \<Rightarrow>
                if b \<le> d then None
                else if 2 ^ 64 \<le> n * b + d then None
                else uint_loop b (n * b + d) s))"

definition uint_base :: "string \<Rightarrow> nat \<times> string" where
  "uint_base s =
     (if s \<noteq> [] \<and> hd s = CHR ''0'' then
        (if 3 \<le> length s \<and> s ! 1 \<in> {CHR ''b'', CHR ''B''} then (2, drop 2 s)
         else if 3 \<le> length s \<and> s ! 1 \<in> {CHR ''o'', CHR ''O''} then (8, drop 2 s)
         else if 3 \<le> length s \<and> s ! 1 \<in> {CHR ''x'', CHR ''X''} then (16, drop 2 s)
         else (8, tl s))
      else (10, s))"

fun underscore_scan :: "bool \<Rightarrow> char \<Rightarrow> string \<Rightarrow> bool" where
  "underscore_scan hex saw [] = (saw \<noteq> CHR ''_'')"
| "underscore_scan hex saw (c # s) =
     (if is_digit c \<or> hex \<and> c \<in> set ''abcdefABCDEF'' then underscore_scan hex (CHR ''0'') s
      else if c = CHR ''_'' then saw = CHR ''0'' \<and> underscore_scan hex c s
      else saw \<noteq> CHR ''_'' \<and> underscore_scan hex (CHR ''!'') s)"

definition underscoreOK :: "string \<Rightarrow> bool" where
  "underscoreOK s =
     (if 2 \<le> length s \<and> hd s = CHR ''0'' \<and> s ! 1 \<in> set ''bBoOxX''
      then underscore_scan (s ! 1 \<in> set ''xX'') (CHR ''0'') (drop 2 s)
      else underscore_scan False (CHR ''^'') s)"

definition parse_uint :: "string \<Rightarrow> 64 word option" where
  "parse_uint s =
     (if s = [] then None
      else (case uint_base s of (b, t) \<Rightarrow>
        (case uint_loop b 0 t of
           None \<Rightarrow> None
         | Some n \<Rightarrow> if CHR ''_'' \<in> set t \<and> \<not> underscoreOK s then None else Some (of_nat n))))"

section \<open>Tags\<close>

datatype xkind = XString | XFloat64 | XUint64 | XStruct | XOther

record xfield =
  x_name :: string
  x_tags :: "(string \<times> string) list"
  x_kind :: xkind

definition x_tag :: "xfield \<Rightarrow> string \<Rightarrow> string" where
  "x_tag f k = (case map_of (x_tags f) k of Some t \<Rightarrow> t | None \<Rightarrow> [])"

record TagBody =
  Header :: "string list"
  Keys :: "string list"
  Field :: "string list"

definition GetTag :: "xfield list \<Rightarrow> TagBody" where
  "GetTag t =
     fold (\<lambda>f ta.
       let tg = x_tag f ''json''; key = x_tag f ''comment'' in
       if tg \<noteq> [] then
         ta\<lparr>Field := Field ta @ [x_name f], Keys := Keys ta @ [tg], Header := Header ta @ [if key \<noteq> [] then key else tg]\<rparr>
       else ta) t \<lparr>Header = [], Keys = [], Field = []\<rparr>"

datatype tag_error = TagMissing | TagPanic

fun field_at :: "string list \<Rightarrow> string list \<Rightarrow> string \<Rightarrow> tag_error + string" where
  "field_at [] fs tag = Inl TagMissing"
| "field_at (k # ks) fs tag =
     (if k = tag then (case fs of [] \<Rightarrow> Inl TagPanic | f # _ \<Rightarrow> Inr f) else field_at ks (tl fs) tag)"

definition GetFieldByTag :: "TagBody \<Rightarrow> string \<Rightarrow> tag_error + string" where
  "GetFieldByTag t tag = field_at (Keys t) (Field t) tag"

section \<open>Rows\<close>

datatype 'f cell = CString string | CFloat 'f | CUint "64 word" | CTime civil | CId int64 | CUuid string

type_synonym 'f xrow = "string \<rightharpoonup> 'f cell"

record 'f ExcelStruct =
  Temp :: "string list list"
  Model :: "xfield list"
  Info :: "(string \<times> string) list list"
  Data :: "'f xrow list"
  Content :: string
  IdIsInt :: bool

definition NewExcelExportStruct :: "xfield list \<Rightarrow> bool \<Rightarrow> 'f ExcelStruct" where
  "NewExcelExportStruct model idIsInt =
     \<lparr>Temp = [], Model = model, Info = [], Data = [], Content = [], IdIsInt = idIsInt\<rparr>"

definition row_info :: "xfield list \<Rightarrow> TagBody \<Rightarrow> string list \<Rightarrow> (string \<times> string) list" where
  "row_info model tag v =
     fold (\<lambda>obj. fold (\<lambda>(j, h) info.
         if x_name obj = h then (if length v < j + 1 then info else AList.update (Keys tag ! j) (v ! j) info) else info)
       (enumerate 0 (Field tag))) model []"

definition CreateMap :: "'f ExcelStruct \<Rightarrow> 'f ExcelStruct" where
  "CreateMap excel =
     (let tag = GetTag (Model excel) in
      fold (\<lambda>v excel. excel\<lparr>Info := Info excel @ [row_info (Model excel) tag v]\<rparr>) (Temp excel) excel)"

text \<open>\<open>None\<close>: the program ends.\<close>

definition ChangeTime :: "string \<Rightarrow> civil option" where
  "ChangeTime source = parse_date source"

record ('f, 'e) xenv =
  key_order :: "(string \<times> string) list \<Rightarrow> (string \<times> string) list"
  parse_float :: "string \<Rightarrow> 'f option"
  to_json :: "'f xrow list \<Rightarrow> 'e + string"
  new_uuid :: "nat \<Rightarrow> string"

definition convert_cell :: "(string \<Rightarrow> 'f option) \<Rightarrow> xkind \<Rightarrow> string \<Rightarrow> 'f cell option" where
  "convert_cell pf k v =
     (case k of
        XString \<Rightarrow> Some (CString v)
      | XFloat64 \<Rightarrow> map_option CFloat (pf v)
      | XUint64 \<Rightarrow> map_option CUint (parse_uint v)
      | XStruct \<Rightarrow> map_option CTime (parse_date v)
      | XOther \<Rightarrow> None)"

definition kind_by_name :: "xfield list \<Rightarrow> string \<Rightarrow> xkind" where
  "kind_by_name model n = (case find (\<lambda>f. x_name f = n) model of Some f \<Rightarrow> x_kind f | None \<Rightarrow> XOther)"

definition fill_row :: "(string \<Rightarrow> 'f option) \<Rightarrow> xfield list \<Rightarrow> TagBody \<Rightarrow> (string \<times> string) list \<Rightarrow> 'f xrow \<Rightarrow> 'f xrow" where
  "fill_row pf model tag =
     fold (\<lambda>(k, v) data.
       case GetFieldByTag tag k of
         Inl _ \<Rightarrow> data
       | Inr field \<Rightarrow>
           (case convert_cell pf (kind_by_name model field) v of None \<Rightarrow> data | Some c \<Rightarrow> data(field \<mapsto> c)))"

fun gen_int :: "('f, 'e) xenv \<Rightarrow> xfield list \<Rightarrow> TagBody \<Rightarrow> int64 \<Rightarrow> (string \<times> string) list list \<Rightarrow> 'f xrow list" where
  "gen_int E model tag i [] = []"
| "gen_int E model tag i (info # infos) =
     fill_row (parse_float E) model tag (key_order E info) [''Id'' \<mapsto> CId (i + 1)] # gen_int E model tag (i + 1) infos"

fun gen_char :: "('f, 'e) xenv \<Rightarrow> xfield list \<Rightarrow> TagBody \<Rightarrow> nat \<Rightarrow> (string \<times> string) list list \<Rightarrow> 'f xrow list" where
  "gen_char E model tag n [] = []"
| "gen_char E model tag n (info # infos) =
     fill_row (parse_float E) model tag (key_order E info) [''Id'' \<mapsto> CUuid (new_uuid E n)] # gen_char E model tag (Suc n) infos"

section \<open>The database\<close>

datatype 'f dbcall = Begin | TakeMax | Create "'f xrow list" | Rollback | Commit

record ('f, 'e) xdb =
  max_id :: "'f dbcall list \<Rightarrow> int64 option"
  create_rows :: "'f dbcall list \<Rightarrow> 'f xrow list \<Rightarrow> 'e option"

definition GenDataInt :: "('f, 'e) xenv \<Rightarrow> ('f, 'e) xdb \<Rightarrow> 'f ExcelStruct \<Rightarrow> 'f dbcall list \<Rightarrow> 'f ExcelStruct \<times> 'f dbcall list" where
  "GenDataInt E D excel log =
     (let i = (case max_id D log of None \<Rightarrow> 0 | Some m \<Rightarrow> m)
      in (excel\<lparr>Data := gen_int E (Model excel) (GetTag (Model excel)) i (Info excel)\<rparr>, log @ [TakeMax]))"

definition GenDataChar :: "('f, 'e) xenv \<Rightarrow> 'f ExcelStruct \<Rightarrow> 'f ExcelStruct" where
  "GenDataChar E excel = excel\<lparr>Data := gen_char E (Model excel) (GetTag (Model excel)) 0 (Info excel)\<rparr>"

section \<open>Workbooks\<close>

record book =
  sheets :: "string list"
  rows_of :: "string \<Rightarrow> string list list"

datatype 'e xerr = SheetMissing string | LibError 'e

datatype 'e outcome = Returned "'e xerr option" | Panicked

definition ReadExcel :: "'e + book \<Rightarrow> 'f ExcelStruct \<Rightarrow> 'f ExcelStruct option" where
  "ReadExcel file excel =
     (case file of
        Inl _ \<Rightarrow> None
      | Inr xlsx \<Rightarrow> Some (excel\<lparr>Temp := fold (\<lambda>s rows. rows @ rows_of xlsx s) (sheets xlsx) []\<rparr>))"

fun index_by_name :: "nat \<Rightarrow> string list \<Rightarrow> string \<Rightarrow> 'e xerr + nat" where
  "index_by_name i [] sheetName = Inl (SheetMissing sheetName)"
| "index_by_name i (name # names) sheetName =
     (if name = sheetName then Inr (i + 1) else index_by_name (i + 1) names sheetName)"

definition getSheetIndexByName :: "book \<Rightarrow> string \<Rightarrow> 'e xerr + nat" where
  "getSheetIndexByName file sheetName = index_by_name 0 (sheets file) sheetName"

text \<open>The rows that are read; \<open>None\<close> is an index out of range.\<close>

definition pick_rows :: "book \<Rightarrow> string \<Rightarrow> ('e xerr + string list list) option" where
  "pick_rows xlsx sheetName =
     (if length sheetName < 1 then
        (if sheets xlsx = [] then None else Some (Inr (rows_of xlsx (sheets xlsx ! 0))))
      else (case getSheetIndexByName xlsx sheetName of
              Inl e \<Rightarrow> Some (Inl e)
            | Inr idx \<Rightarrow> if length (sheets xlsx) \<le> idx then None else Some (Inr (rows_of xlsx (sheets xlsx ! idx)))))"

definition ReadExcelIo ::
  "('f, 'e) xenv \<Rightarrow> ('f, 'e) xdb \<Rightarrow> 'e + book \<Rightarrow> string \<Rightarrow> 'f ExcelStruct \<Rightarrow> 'f dbcall list
   \<Rightarrow> 'e outcome \<times> 'f ExcelStruct \<times> 'f dbcall list" where
  "ReadExcelIo E D file sheetName excel log =
     (case file of
        Inl e \<Rightarrow> (Returned (Some (LibError e)), excel, log)
      | Inr xlsx \<Rightarrow>
          (case pick_rows xlsx sheetName of
             None \<Rightarrow> (Panicked, excel, log)
           | Some (Inl e) \<Rightarrow> (Returned (Some e), excel, log)
           | Some (Inr []) \<Rightarrow> (Panicked, excel, log)
           | Some (Inr (_ # rows)) \<Rightarrow>
               (let excel = CreateMap (excel\<lparr>Temp := rows\<rparr>);
                    (excel, log) = (if IdIsInt excel then GenDataInt E D excel log else (GenDataChar E excel, log))
                in case to_json E (Data excel) of
                     Inl e \<Rightarrow> (Returned (Some (LibError e)), excel\<lparr>Content := []\<rparr>, log)
                   | Inr c \<Rightarrow> (Returned None, excel\<lparr>Content := c\<rparr>, log))))"

section \<open>Saving\<close>

fun create_batches :: "('f, 'e) xdb \<Rightarrow> 'f xrow list list \<Rightarrow> 'f dbcall list \<Rightarrow> 'e option \<times> 'f dbcall list" where
  "create_batches D [] log = (None, log)"
| "create_batches D (d # ds) log =
     (case create_rows D log d of
        Some e \<Rightarrow> (Some e, log @ [Create d])
      | None \<Rightarrow> create_batches D ds (log @ [Create d]))"

text \<open>The deferred function commits whenever no error is set, so also when the body panics.\<close>

definition SaveDbByName ::
  "('f, 'e) xenv \<Rightarrow> ('f, 'e) xdb \<Rightarrow> 'e + book \<Rightarrow> string \<Rightarrow> 'f ExcelStruct \<Rightarrow> 'f dbcall list
   \<Rightarrow> 'e outcome \<times> 'f ExcelStruct \<times> 'f dbcall list" where
  "SaveDbByName E D file sheetName excel log =
     (case ReadExcelIo E D file sheetName excel (log @ [Begin]) of
        (Panicked, excel, log) \<Rightarrow> (Panicked, excel, log @ [Commit])
      | (Returned (Some e), excel, log) \<Rightarrow> (Returned (Some e), excel, log @ [Rollback])
      | (Returned None, excel, log) \<Rightarrow>
          (case create_batches D (chunks 1000 (Data excel)) log of
             (Some e, log) \<Rightarrow> (Returned (Some (LibError e)), excel, log @ [Rollback])
           | (None, log) \<Rightarrow> (Returned None, excel, log @ [Commit])))"

definition SaveDb ::
  "('f, 'e) xenv \<Rightarrow> ('f, 'e) xdb \<Rightarrow> 'e + book \<Rightarrow> 'f ExcelStruct \<Rightarrow> 'f dbcall list
   \<Rightarrow> 'e outcome \<times> 'f ExcelStruct \<times> 'f dbcall list" where
  "SaveDb E D file excel log = SaveDbByName E D file [] excel log"

section \<open>Tags and columns\<close>

definition tagged :: "xfield list \<Rightarrow> xfield list" where
  "tagged model = filter (\<lambda>f. x_tag f ''json'' \<noteq> []) model"

lemma GetTag_tagged:
  "Field (GetTag model) = map x_name (tagged model)"
  "Keys (GetTag model) = map (\<lambda>f. x_tag f ''json'') (tagged model)"
  "length (Header (GetTag model)) = length (tagged model)"
proof -
  let ?step = "\<lambda>f ta. let tg = x_tag f ''json''; key = x_tag f ''comment'' in
       if tg \<noteq> [] then
         ta\<lparr>Field := Field ta @ [x_name f], Keys := Keys ta @ [tg], Header := Header ta @ [if key \<noteq> [] then key else tg]\<rparr>
       else ta"
  have "Field (fold ?step m ta) = Field ta @ map x_name (tagged m)
      \<and> Keys (fold ?step m ta) = Keys ta @ map (\<lambda>f. x_tag f ''json'') (tagged m)
      \<and> length (Header (fold ?step m ta)) = length (Header ta) + length (tagged m)" for m ta
    by (induction m arbitrary: ta) (simp_all add: Let_def tagged_def)
  from this[of model "\<lparr>Header = [], Keys = [], Field = []\<rparr>"] show
    "Field (GetTag model) = map x_name (tagged model)"
    "Keys (GetTag model) = map (\<lambda>f. x_tag f ''json'') (tagged model)"
    "length (Header (GetTag model)) = length (tagged model)"
    by (simp_all add: GetTag_def)
qed

lemma field_at_props:
  "length ks = length fs \<Longrightarrow> field_at ks fs k \<noteq> Inl TagPanic"
  "field_at ks fs k = Inr f \<Longrightarrow> length ks = length fs \<Longrightarrow> \<exists>j < length ks. ks ! j = k \<and> fs ! j = f"
  "distinct ks \<Longrightarrow> length ks = length fs \<Longrightarrow> j < length ks \<Longrightarrow> field_at ks fs (ks ! j) = Inr (fs ! j)"
proof (induction ks arbitrary: fs j)
  case (Cons a ks)
  { case 1 then show ?case using Cons.IH(1)[of "tl fs"] by (cases fs) auto }
  { case 2
    then obtain g gs where fs: "fs = g # gs" by (cases fs) auto
    show ?case
    proof (cases "a = k")
      case True
      then show ?thesis using 2 fs by (intro exI[of _ 0]) simp
    next
      case False
      then obtain i where "i < length ks" "ks ! i = k" "gs ! i = f" using 2 fs Cons.IH(2)[of gs] by auto
      then show ?thesis using fs by (intro exI[of _ "Suc i"]) simp
    qed }
  { case 3
    then obtain g gs where fs: "fs = g # gs" by (cases fs) auto
    show ?case
    proof (cases j)
      case (Suc i)
      then have "a \<noteq> ks ! i" using 3 by (metis Suc_less_eq distinct.simps(2) length_Cons nth_mem)
      then show ?thesis using 3 fs Suc Cons.IH(3)[of gs i] by simp
    qed (use fs in simp) }
qed simp_all

lemma GetTag_no_panic: "GetFieldByTag (GetTag model) k \<noteq> Inl TagPanic"
  using field_at_props(1) by (simp add: GetFieldByTag_def GetTag_tagged)

section \<open>Rows as maps\<close>

lemma fold_update:
  assumes "\<And>k x y. (k, x) \<in> set ps \<Longrightarrow> (k, y) \<in> set ps \<Longrightarrow> x = y"
  shows "map_of (fold (\<lambda>(k, x). AList.update k x) ps al) k = Some x
    \<longleftrightarrow> (k, x) \<in> set ps \<or> k \<notin> fst ` set ps \<and> map_of al k = Some x"
  using assms
proof (induction ps arbitrary: al)
  case (Cons p ps)
  obtain a b where p: "p = (a, b)" by fastforce
  have ih: "map_of (fold (\<lambda>(k, x). AList.update k x) ps (AList.update a b al)) k = Some x
      \<longleftrightarrow> (k, x) \<in> set ps \<or> k \<notin> fst ` set ps \<and> map_of (AList.update a b al) k = Some x"
    by (rule Cons.IH) (meson Cons.prems list.set_intros(2))
  have v: "y = b" if "(a, y) \<in> set ps" for y
    by (rule Cons.prems[of a]) (simp_all add: p that)
  have s: "fold (\<lambda>(k, x). AList.update k x) (p # ps) al = fold (\<lambda>(k, x). AList.update k x) ps (AList.update a b al)"
    by (simp add: p)
  show ?case
  proof (cases "k = a")
    case True
    have "a \<in> fst ` set ps \<Longrightarrow> (a, b) \<in> set ps" using v by force
    then show ?thesis unfolding s ih using True v[of x] by (auto simp: p AList.update_conv')
  next
    case False
    then show ?thesis unfolding s ih by (simp add: p AList.update_conv')
  qed
qed simp

lemma distinct_fold_update:
  "distinct (map fst al) \<Longrightarrow> distinct (map fst (fold (\<lambda>(k, x). AList.update k x) ps al))"
  by (induction ps arbitrary: al) (auto simp: AList.distinct_update)

definition row_writes :: "xfield list \<Rightarrow> TagBody \<Rightarrow> string list \<Rightarrow> (string \<times> string) list" where
  "row_writes model tag v = concat (map (\<lambda>obj. map (\<lambda>(j, h). (Keys tag ! j, v ! j))
     (filter (\<lambda>(j, h). x_name obj = h \<and> j < length v) (enumerate 0 (Field tag)))) model)"

lemma row_info_writes: "row_info model tag v = fold (\<lambda>(k, x). AList.update k x) (row_writes model tag v) []"
proof -
  let ?w = "\<lambda>obj js. map (\<lambda>(j, h). (Keys tag ! j, v ! j)) (filter (\<lambda>(j, h). x_name obj = h \<and> j < length v) js)"
  have inner: "fold (\<lambda>(j, h) info. if x_name obj = h then (if length v < j + 1 then info else AList.update (Keys tag ! j) (v ! j) info) else info) js
      = fold (\<lambda>(k, x). AList.update k x) (?w obj js)" for obj js
  proof (induction js)
    case (Cons p js)
    obtain j h where p: "p = (j, h)" by fastforce
    have "\<not> length v < j + 1 \<longleftrightarrow> j < length v" by linarith
    then show ?case using Cons by (cases "x_name obj = h \<and> j < length v") (auto simp: p fun_eq_iff)
  qed simp
  have "fold (\<lambda>obj. fold (\<lambda>(k, x). AList.update k x) (?w obj js)) m al
      = fold (\<lambda>(k, x). AList.update k x) (concat (map (\<lambda>obj. ?w obj js) m)) al" for js m al
    by (induction m arbitrary: al) simp_all
  then show ?thesis unfolding row_info_def row_writes_def inner .
qed

lemma set_row_writes:
  "(k, x) \<in> set (row_writes model (GetTag model) v)
     \<longleftrightarrow> (\<exists>j < min (length (tagged model)) (length v). k = x_tag (tagged model ! j) ''json'' \<and> x = v ! j)"
proof -
  let ?T = "tagged model"
  have names: "\<exists>obj \<in> set model. x_name obj = x_name (?T ! j)" if "j < length ?T" for j
    using nth_mem[OF that] by (auto simp: tagged_def)
  have "(k, x) \<in> set (row_writes model (GetTag model) v)
      \<longleftrightarrow> (\<exists>obj \<in> set model. \<exists>j < length ?T. x_name obj = x_name (?T ! j) \<and> j < length v \<and> k = x_tag (?T ! j) ''json'' \<and> x = v ! j)"
    (is "?L \<longleftrightarrow> ?R")
  proof
    show "?L \<Longrightarrow> ?R" by (auto simp: row_writes_def GetTag_tagged in_set_enumerate_eq) metis
    assume ?R
    then obtain obj j where o: "obj \<in> set model" "j < length ?T" "x_name obj = x_name (?T ! j)" "j < length v"
      "k = x_tag (?T ! j) ''json''" "x = v ! j" by blast
    have "(j, x_name (?T ! j)) \<in> set (enumerate 0 (Field (GetTag model)))"
      using o(2) by (simp add: GetTag_tagged in_set_enumerate_eq)
    moreover have "Keys (GetTag model) ! j = k" using o by (simp add: GetTag_tagged)
    ultimately show ?L using o by (force simp: row_writes_def)
  qed
  also have "\<dots> \<longleftrightarrow> (\<exists>j < min (length ?T) (length v). k = x_tag (?T ! j) ''json'' \<and> x = v ! j)"
    using names by auto
  finally show ?thesis .
qed

definition tags_ok :: "xfield list \<Rightarrow> bool" where
  "tags_ok model \<longleftrightarrow> distinct (map x_name model) \<and> distinct (map (\<lambda>f. x_tag f ''json'') (tagged model))"

definition any_order :: "((string \<times> string) list \<Rightarrow> (string \<times> string) list) \<Rightarrow> bool" where
  "any_order iter \<longleftrightarrow> (\<forall>kvs. distinct (map fst kvs) \<longrightarrow> distinct (map fst (iter kvs)) \<and> set (iter kvs) = set kvs)"

lemma row_info_set:
  assumes "tags_ok model"
  shows "distinct (map fst (row_info model (GetTag model) v))"
    "(k, x) \<in> set (row_info model (GetTag model) v)
       \<longleftrightarrow> (\<exists>j < min (length (tagged model)) (length v). k = x_tag (tagged model ! j) ''json'' \<and> x = v ! j)"
proof -
  show d: "distinct (map fst (row_info model (GetTag model) v))"
    unfolding row_info_writes by (rule distinct_fold_update) simp
  have inj: "x = y" if "(k, x) \<in> set (row_writes model (GetTag model) v)" "(k, y) \<in> set (row_writes model (GetTag model) v)" for k x y
    using that assms unfolding set_row_writes by (auto simp: tags_ok_def distinct_conv_nth)
  have "(k, x) \<in> set (row_info model (GetTag model) v) \<longleftrightarrow> map_of (row_info model (GetTag model) v) k = Some x"
    using d by simp
  also have "\<dots> \<longleftrightarrow> (k, x) \<in> set (row_writes model (GetTag model) v)"
    unfolding row_info_writes using fold_update[OF inj, where al = "[]"] by simp
  finally show "(k, x) \<in> set (row_info model (GetTag model) v)
       \<longleftrightarrow> (\<exists>j < min (length (tagged model)) (length v). k = x_tag (tagged model ! j) ''json'' \<and> x = v ! j)"
    unfolding set_row_writes .
qed

lemma fill_row_at:
  fixes conv :: "string \<times> string \<Rightarrow> (string \<times> 'f cell) option"
  assumes "conv = (\<lambda>(k, v). case GetFieldByTag tag k of Inl _ \<Rightarrow> None
      | Inr f \<Rightarrow> map_option (Pair f) (convert_cell pf (kind_by_name model f) v))"
    and "\<And>p q f c d. p \<in> set kvs \<Longrightarrow> q \<in> set kvs \<Longrightarrow> conv p = Some (f, c) \<Longrightarrow> conv q = Some (f, d) \<Longrightarrow> c = d"
  shows "fill_row pf model tag kvs data f
    = (if \<exists>p \<in> set kvs. \<exists>c. conv p = Some (f, c) then Some (THE c. \<exists>p \<in> set kvs. conv p = Some (f, c)) else data f)"
proof -
  let ?step = "\<lambda>p data. case conv p of None \<Rightarrow> data | Some (f, c) \<Rightarrow> data(f \<mapsto> c)"
  have step: "fill_row pf model tag = fold ?step"
    unfolding fill_row_def by (rule arg_cong[where f = fold]) (auto simp: assms(1) fun_eq_iff split: sum.split option.split)
  have w: "fold ?step ps data f = data f \<and> (\<forall>p \<in> set ps. \<forall>c. conv p \<noteq> Some (f, c))
      \<or> (\<exists>p \<in> set ps. \<exists>c. conv p = Some (f, c) \<and> fold ?step ps data f = Some c)" for ps
  proof (induction ps rule: rev_induct)
    case (snoc q ps)
    show ?case
    proof (cases "\<exists>d. conv q = Some (f, d)")
      case True
      then obtain d where "conv q = Some (f, d)" by blast
      then have "conv q = Some (f, d) \<and> fold ?step (ps @ [q]) data f = Some d" by simp
      then show ?thesis by (intro disjI2 bexI[of _ q]) (blast, simp)
    next
      case False
      then have "fold ?step (ps @ [q]) data f = fold ?step ps data f" by (auto split: option.split)
      then show ?thesis using snoc False by simp
    qed
  qed simp
  show ?thesis
  proof (cases "\<exists>p \<in> set kvs. \<exists>c. conv p = Some (f, c)")
    case True
    then obtain p c where p: "p \<in> set kvs" "conv p = Some (f, c)" "fold ?step kvs data f = Some c"
      using w[of kvs] by blast
    have "(THE c. \<exists>p \<in> set kvs. conv p = Some (f, c)) = c"
      by (rule the_equality) (use p assms(2) in blast)+
    then show ?thesis using p(3) True unfolding step by simp
  next
    case False
    then show ?thesis using w[of kvs] unfolding step by auto
  qed
qed

text \<open>What a row of the sheet gives: the cells of the columns of the tagged fields, read by the kind of the
  field; a cell that cannot be read is left out.\<close>

definition imported :: "(string \<Rightarrow> 'f option) \<Rightarrow> xfield list \<Rightarrow> string list \<Rightarrow> 'f xrow" where
  "imported pf model row n =
     (case map_of (zip (map x_name (tagged model)) (zip (map x_kind (tagged model)) row)) n of
        None \<Rightarrow> None
      | Some (k, v) \<Rightarrow> convert_cell pf k v)"

lemma kind_of_tagged:
  assumes "distinct (map x_name model)" "f \<in> set (tagged model)"
  shows "kind_by_name model (x_name f) = x_kind f"
proof -
  have "find (\<lambda>g. x_name g = x_name f) model = Some f"
    using assms by (induction model) (auto simp: tagged_def split: if_splits)
  then show ?thesis by (simp add: kind_by_name_def)
qed

lemma imported_eq:
  assumes "distinct (map x_name model)"
  shows "imported pf model row n = Some c
    \<longleftrightarrow> (\<exists>j < min (length (tagged model)) (length row). x_name (tagged model ! j) = n
          \<and> convert_cell pf (x_kind (tagged model ! j)) (row ! j) = Some c)"
proof -
  let ?z = "zip (map x_name (tagged model)) (zip (map x_kind (tagged model)) row)"
  have "distinct (map x_name (tagged model))"
    using assms by (simp add: tagged_def distinct_map_filter)
  then have d: "distinct (map fst ?z)" by (simp add: map_fst_zip_take)
  have "map_of ?z n = Some (k, v) \<longleftrightarrow> (\<exists>j < min (length (tagged model)) (length row).
      x_name (tagged model ! j) = n \<and> x_kind (tagged model ! j) = k \<and> row ! j = v)" for k v
  proof -
    have "map_of ?z n = Some (k, v) \<longleftrightarrow> (n, k, v) \<in> set ?z" using d by simp
    also have "\<dots> \<longleftrightarrow> (\<exists>j < length ?z. ?z ! j = (n, k, v))" by (simp add: in_set_conv_nth)
    also have "\<dots> \<longleftrightarrow> (\<exists>j < min (length (tagged model)) (length row).
        x_name (tagged model ! j) = n \<and> x_kind (tagged model ! j) = k \<and> row ! j = v)"
      by (simp cong: conj_cong)
    finally show ?thesis .
  qed
  note m = this
  have "imported pf model row n = Some c \<longleftrightarrow> (\<exists>k v. map_of ?z n = Some (k, v) \<and> convert_cell pf k v = Some c)"
    by (auto simp: imported_def split: option.split prod.split)
  also have "\<dots> \<longleftrightarrow> (\<exists>j < min (length (tagged model)) (length row). x_name (tagged model ! j) = n
          \<and> convert_cell pf (x_kind (tagged model ! j)) (row ! j) = Some c)"
    unfolding m by blast
  finally show ?thesis .
qed

lemma import_row:
  assumes "tags_ok model" "any_order iter"
  shows "fill_row pf model (GetTag model) (iter (row_info model (GetTag model) row)) data = data ++ imported pf model row"
proof
  fix n
  let ?T = "tagged model" and ?tag = "GetTag model"
  let ?kvs = "iter (row_info model ?tag row)"
  define conv where "conv = (\<lambda>(k, v). case GetFieldByTag ?tag k of Inl _ \<Rightarrow> None
      | Inr f \<Rightarrow> map_option (Pair f) (convert_cell pf (kind_by_name model f) v))"
  have dn: "distinct (map x_name model)" and dk: "distinct (map (\<lambda>f. x_tag f ''json'') ?T)"
    using assms(1) by (auto simp: tags_ok_def)
  have dt: "distinct (map x_name ?T)" using dn by (simp add: tagged_def distinct_map_filter)
  have set: "(k, x) \<in> set ?kvs \<longleftrightarrow> (\<exists>j < min (length ?T) (length row). k = x_tag (?T ! j) ''json'' \<and> x = row ! j)" for k x
    using assms(2) row_info_set[OF assms(1)] by (auto simp: any_order_def)
  have gf: "GetFieldByTag ?tag (x_tag (?T ! j) ''json'') = Inr (x_name (?T ! j))" if "j < length ?T" for j
    using field_at_props(3)[of "Keys ?tag" "Field ?tag" j] that dk by (simp add: GetFieldByTag_def GetTag_tagged)
  have ci: "(\<exists>p \<in> set ?kvs. conv p = Some (f, c)) \<longleftrightarrow> imported pf model row f = Some c" for f c
  proof -
    have "(\<exists>p \<in> set ?kvs. conv p = Some (f, c)) \<longleftrightarrow> (\<exists>j < min (length ?T) (length row).
        conv (x_tag (?T ! j) ''json'', row ! j) = Some (f, c))"
      (is "?L \<longleftrightarrow> ?R")
    proof
      assume ?L
      then obtain k v where kv: "(k, v) \<in> set ?kvs" "conv (k, v) = Some (f, c)" by auto
      then obtain j where "j < min (length ?T) (length row)" "k = x_tag (?T ! j) ''json''" "v = row ! j" using set by blast
      then show ?R using kv(2) by blast
    next
      assume ?R
      then obtain j where j: "j < min (length ?T) (length row)" "conv (x_tag (?T ! j) ''json'', row ! j) = Some (f, c)" by blast
      then have "(x_tag (?T ! j) ''json'', row ! j) \<in> set ?kvs" using set by blast
      then show ?L using j(2) by blast
    qed
    also have "\<dots> \<longleftrightarrow> (\<exists>j < min (length ?T) (length row). x_name (?T ! j) = f \<and> convert_cell pf (x_kind (?T ! j)) (row ! j) = Some c)"
      using gf kind_of_tagged[OF dn nth_mem] by (auto simp: conv_def)
    finally show ?thesis unfolding imported_eq[OF dn] .
  qed
  have fn: "c = d" if "p \<in> set ?kvs" "q \<in> set ?kvs" "conv p = Some (f, c)" "conv q = Some (f, d)" for p q f c d
  proof -
    have "imported pf model row f = Some c" using ci[of f c] that(1,3) by blast
    moreover have "imported pf model row f = Some d" using ci[of f d] that(2,4) by blast
    ultimately show ?thesis by simp
  qed
  have ex: "(\<exists>p \<in> set ?kvs. \<exists>c. conv p = Some (n, c)) \<longleftrightarrow> (\<exists>c. imported pf model row n = Some c)"
    using ci[of n] by blast
  have "fill_row pf model ?tag ?kvs data n = (if \<exists>p \<in> set ?kvs. \<exists>c. conv p = Some (n, c)
      then Some (THE c. \<exists>p \<in> set ?kvs. conv p = Some (n, c)) else data n)"
    by (rule fill_row_at[OF conv_def]) (rule fn)
  then have "fill_row pf model ?tag ?kvs data n
      = (if \<exists>c. imported pf model row n = Some c then Some (THE c. imported pf model row n = Some c) else data n)"
    unfolding ex ci .
  then show "fill_row pf model ?tag ?kvs data n = (data ++ imported pf model row) n"
    by (auto simp: map_add_def split: option.splits)
qed

section \<open>Numbers in cells\<close>

definition octal_val :: "string \<Rightarrow> nat" where
  "octal_val s = foldl (\<lambda>a c. a * 8 + digit_val c) 0 s"

lemma foldl_ge: "0 < b \<Longrightarrow> m \<le> foldl (\<lambda>a c. a * b + digit_val c) m s" for b :: nat
proof (induction s arbitrary: m)
  case (Cons x s)
  have "m \<le> m * b + digit_val x" using Cons.prems by (simp add: trans_le_add1)
  then show ?case using Cons.IH[OF Cons.prems, of "m * b + digit_val x"] by simp
qed simp

lemma uint_loop_digits:
  assumes "list_all is_digit s" "n < 2 ^ 64" "0 < b"
  shows "uint_loop b n s =
    (if list_all (\<lambda>c. digit_val c < b) s \<and> foldl (\<lambda>a c. a * b + digit_val c) n s < 2 ^ 64
     then Some (foldl (\<lambda>a c. a * b + digit_val c) n s) else None)"
  using assms(1,2)
proof (induction s arbitrary: n)
  case (Cons c s)
  note le = foldl_ge[OF assms(3), of _ s]
  have "c \<noteq> CHR ''_''"
  proof
    assume "c = CHR ''_''"
    moreover have "\<not> is_digit (CHR ''_'')" by code_simp
    ultimately show False using Cons.prems by simp
  qed
  moreover have "uint_digit c = Some (digit_val c)" using Cons.prems by (simp add: uint_digit_def)
  ultimately have step: "uint_loop b n (c # s) = (if b \<le> digit_val c then None
      else if 2 ^ 64 \<le> n * b + digit_val c then None else uint_loop b (n * b + digit_val c) s)" by simp
  consider "b \<le> digit_val c" | "digit_val c < b" "2 ^ 64 \<le> n * b + digit_val c"
    | "digit_val c < b" "n * b + digit_val c < 2 ^ 64" by linarith
  then show ?case
  proof cases
    case 2
    then have "\<not> foldl (\<lambda>a c. a * b + digit_val c) n (c # s) < 2 ^ 64" using le[of "n * b + digit_val c"] by simp
    then show ?thesis unfolding step using 2 by simp
  next
    case 3
    then show ?thesis unfolding step using Cons.IH[of "n * b + digit_val c"] Cons.prems by simp
  next
    case 1
    then show ?thesis unfolding step by simp
  qed
qed simp

lemma foldl_digits: "foldl (\<lambda>a c. a * 10 + digit_val c) 0 s = digits_val s"
  unfolding digits_val_def digit_val_def by (simp add: mult.commute)

lemma digits_nat_head:
  "n < 10 \<Longrightarrow> digit_val (hd (digits_nat n)) = n"
  "\<not> n < 10 \<Longrightarrow> hd (digits_nat n) = hd (digits_nat (n div 10))"
proof -
  show "digit_val (hd (digits_nat n)) = n" if "n < 10"
    unfolding digits_nat_small(1)[OF that] list.sel by (rule digit_char(2)[OF that])
  show "hd (digits_nat n) = hd (digits_nat (n div 10))" if "\<not> n < 10"
  proof -
    have "digits_nat n = digits_nat (n div 10) @ [char_of (48 + n mod 10)]"
      by (subst digits_nat.simps) (simp only: that if_False)
    then show ?thesis using digits_nat_props[of "n div 10"] hd_append2 by metis
  qed
qed

lemma digits_nat_no_zero: "0 < n \<Longrightarrow> digit_val (hd (digits_nat n)) \<noteq> 0"
proof (induction n rule: less_induct)
  case (less n)
  show ?case
  proof (cases "n < 10")
    case False
    have "digit_val (hd (digits_nat (n div 10))) \<noteq> 0" by (rule less.IH) (use False in auto)
    then show ?thesis unfolding digits_nat_head(2)[OF False] .
  qed (use less.prems digits_nat_head(1) in auto)
qed

lemma digits_no_underscore: "list_all is_digit t \<Longrightarrow> CHR ''_'' \<notin> set t"
proof -
  have "\<not> is_digit (CHR ''_'')" by code_simp
  then show "list_all is_digit t \<Longrightarrow> CHR ''_'' \<notin> set t" by (auto simp: list_all_iff)
qed

lemma parse_uint_decimal:
  assumes "0 < n"
  shows "parse_uint (digits_nat n) = (if n < 2 ^ 64 then Some (of_nat n) else None)"
proof -
  let ?t = "digits_nat n"
  have t: "list_all is_digit ?t" "?t \<noteq> []" "digits_val ?t = n" using digits_nat_props[of n] by auto
  have "list_all (\<lambda>c. digit_val c < 10) ?t" using t(1) digit_of_val(2) by (auto simp: list_all_iff)
  then have "uint_loop 10 0 ?t = (if n < 2 ^ 64 then Some n else None)"
    using uint_loop_digits[OF t(1), of 0 10] t(3) by (simp add: foldl_digits)
  moreover have "hd ?t \<noteq> CHR ''0''"
  proof
    have "digit_val (CHR ''0'') = 0" by code_simp
    moreover assume "hd ?t = CHR ''0''"
    ultimately show False using digits_nat_no_zero[OF assms] by argo
  qed
  then have "uint_base ?t = (10, ?t)" by (simp add: uint_base_def)
  ultimately show ?thesis using t(2) digits_no_underscore[OF t(1)] by (simp add: parse_uint_def)
qed

lemma parse_uint_octal:
  assumes "s \<noteq> []" "list_all is_digit s"
  shows "parse_uint (CHR ''0'' # s) =
       (if list_all (\<lambda>c. digit_val c < 8) s \<and> octal_val s < 2 ^ 64 then Some (of_nat (octal_val s)) else None)"
proof -
  have "list_all (\<lambda>c. \<not> is_digit c) ''bBoOxX''" by code_simp
  then have "\<not> is_digit c" if "c \<in> set ''bBoOxX''" for c using that unfolding list_all_iff by blast
  moreover have "is_digit (hd s)" using assms by (cases s) auto
  ultimately have "hd s \<notin> set ''bBoOxX''" by blast
  moreover have "(CHR ''0'' # s) ! 1 = hd s" using assms by (cases s) simp_all
  ultimately have "uint_base (CHR ''0'' # s) = (8, s)" by (simp add: uint_base_def)
  moreover have "uint_loop 8 0 s = (if list_all (\<lambda>c. digit_val c < 8) s \<and> octal_val s < 2 ^ 64 then Some (octal_val s) else None)"
    using uint_loop_digits[OF assms(2), of 0 8] by (simp add: octal_val_def)
  ultimately show ?thesis using digits_no_underscore[OF assms(2)] by (simp add: parse_uint_def)
qed

section \<open>What an import does\<close>

lemma CreateMap_eq:
  "CreateMap excel = excel\<lparr>Info := Info excel @ map (row_info (Model excel) (GetTag (Model excel))) (Temp excel)\<rparr>"
proof -
  have "fold (\<lambda>v ex. ex\<lparr>Info := Info ex @ [row_info (Model ex) tag v]\<rparr>) vs ex
      = ex\<lparr>Info := Info ex @ map (row_info (Model ex) tag) vs\<rparr>" for vs tag and ex :: "'a ExcelStruct"
    by (induction vs arbitrary: ex) simp_all
  then show ?thesis by (simp add: CreateMap_def Let_def)
qed

lemma gen_int_nth:
  "gen_int E model tag i infos
     = map (\<lambda>j. fill_row (parse_float E) model tag (key_order E (infos ! j)) [''Id'' \<mapsto> CId (i + of_nat (j + 1))]) [0..<length infos]"
proof -
  define F where "F = (\<lambda>info w. fill_row (parse_float E) model tag (key_order E info) [''Id'' \<mapsto> CId w])"
  have "gen_int E model tag i infos = map (\<lambda>j. F (infos ! j) (i + of_nat (j + 1))) [0..<length infos]"
  proof (induction infos arbitrary: i)
    case (Cons info infos)
    have w: "i + 1 + of_nat (j + 1) = i + of_nat (Suc j + 1)" for j by simp
    have "[0..<length (info # infos)] = 0 # map Suc [0..<length infos]"
      by (simp add: upt_conv_Cons map_Suc_upt del: upt_Suc)
    moreover have "gen_int E model tag i (info # infos) = F info (i + of_nat (0 + 1)) # gen_int E model tag (i + 1) infos"
      by (simp add: F_def)
    ultimately show ?case by (simp only: Cons w list.map map_map comp_def nth_Cons_0 nth_Cons_Suc)
  qed simp
  then show ?thesis by (simp only: F_def)
qed

lemma create_batches_log:
  "create_batches D ds log = (None, log') \<Longrightarrow> log' = log @ map Create ds"
  "create_batches D ds log = (Some e, log') \<Longrightarrow> \<exists>n < length ds. log' = log @ map Create (take (Suc n) ds)"
proof (induction ds arbitrary: log)
  case (Cons d ds)
  { case 1 then show ?case using Cons.IH(1)[of "log @ [Create d]"] by (auto split: option.splits) }
  { case 2
    show ?case
    proof (cases "create_rows D log d")
      case None
      then obtain n where "n < length ds" "log' = (log @ [Create d]) @ map Create (take (Suc n) ds)"
        using 2 Cons.IH(2)[of "log @ [Create d]"] by auto
      then show ?thesis by (intro exI[of _ "Suc n"]) simp
    next
      case (Some e')
      then show ?thesis using 2 by (intro exI[of _ 0]) simp
    qed }
qed simp_all

lemma ReadExcelIo_log:
  assumes "ReadExcelIo E D file sheet excel log = (r, excel', log')"
  shows "log' = log \<or> log' = log @ [TakeMax]"
    "r = Returned None \<Longrightarrow> log' = (if IdIsInt excel then log @ [TakeMax] else log)"
    "r = Panicked \<Longrightarrow> log' = log" "IdIsInt excel' = IdIsInt excel" "Model excel' = Model excel"
  using assms unfolding ReadExcelIo_def GenDataInt_def GenDataChar_def CreateMap_eq Let_def
  by (auto split: sum.splits option.splits list.splits if_splits)

lemma ReadExcelIo_rows:
  fixes E :: "('f, 'e) xenv"
  assumes "ReadExcelIo E D (Inr xlsx) sheet excel log = (Returned None, excel', log')"
    and "pick_rows xlsx sheet = Some (Inr (h # rows) :: 'e xerr + string list list)" "IdIsInt excel" "tags_ok (Model excel)" "any_order (key_order E)"
    and "Info excel = map (row_info (Model excel) (GetTag (Model excel))) old"
  shows "Data excel' = map (\<lambda>j. [''Id'' \<mapsto> CId ((case max_id D log of None \<Rightarrow> 0 | Some m \<Rightarrow> m) + of_nat (j + 1))]
      ++ imported (parse_float E) (Model excel) ((old @ rows) ! j)) [0..<length (old @ rows)]"
    "Info excel' = map (row_info (Model excel) (GetTag (Model excel))) (old @ rows)"
proof -
  let ?i = "case max_id D log of None \<Rightarrow> 0 | Some m \<Rightarrow> m"
  define vs where "vs = old @ rows"
  let ?infos = "map (row_info (Model excel) (GetTag (Model excel))) vs"
  have r: "Data excel' = gen_int E (Model excel) (GetTag (Model excel)) ?i ?infos \<and> Info excel' = ?infos"
    using assms(1-3,6) unfolding ReadExcelIo_def GenDataInt_def CreateMap_eq Let_def vs_def
    by (auto split: sum.splits)
  then show "Info excel' = map (row_info (Model excel) (GetTag (Model excel))) (old @ rows)" by (simp add: vs_def)
  have "fill_row (parse_float E) (Model excel) (GetTag (Model excel)) (key_order E (?infos ! j)) data
      = data ++ imported (parse_float E) (Model excel) (vs ! j)" if "j < length vs" for j data
    using import_row[OF assms(4,5)] that by simp
  then have "Data excel' = map (\<lambda>j. [''Id'' \<mapsto> CId (?i + of_nat (j + 1))]
      ++ imported (parse_float E) (Model excel) (vs ! j)) [0..<length vs]"
    using r unfolding gen_int_nth length_map by (intro trans[OF conjunct1[OF r[unfolded gen_int_nth length_map]]] map_cong) simp_all
  then show "Data excel' = map (\<lambda>j. [''Id'' \<mapsto> CId (?i + of_nat (j + 1))]
      ++ imported (parse_float E) (Model excel) ((old @ rows) ! j)) [0..<length (old @ rows)]"
    by (simp only: vs_def)
qed

text \<open>C31. After a successful SaveDb on a fresh value with integer ids the row below the header number j holds the
  id \<open>max + j\<close> and, for every field with a json tag, the cell of its column read by the kind of the field, a
  cell that is missing or cannot be read being left out; the order of a map's keys plays no role. The
  rows are created in batches of at most 1000, in order, and committed.\<close>

theorem SaveDb_imports:
  assumes "tags_ok (Model excel)" "any_order (key_order E)" "Info excel = []" "IdIsInt excel"
    and "sheets xlsx \<noteq> []" "rows_of xlsx (hd (sheets xlsx)) = h # rows"
    and "SaveDb E D (Inr xlsx) excel [] = (Returned None, excel', log)"
  shows "Data excel' = map (\<lambda>j. [''Id'' \<mapsto> CId ((case max_id D [Begin] of None \<Rightarrow> 0 | Some m \<Rightarrow> m) + of_nat (j + 1))]
        ++ imported (parse_float E) (Model excel) (rows ! j)) [0..<length rows]
    \<and> log = [Begin, TakeMax] @ map Create (chunks 1000 (Data excel')) @ [Commit]
    \<and> concat (chunks 1000 (Data excel')) = Data excel'
    \<and> (\<forall>d \<in> set (chunks 1000 (Data excel')). length d \<le> 1000)"
proof -
  obtain r ex1 log1 where rd: "ReadExcelIo E D (Inr xlsx) [] excel [Begin] = (r, ex1, log1)" by (cases "ReadExcelIo E D (Inr xlsx) [] excel [Begin]") auto
  have r: "r = Returned None"
    using assms(7) rd by (auto simp: SaveDb_def SaveDbByName_def split: outcome.splits option.splits)
  obtain e log2 where cb: "create_batches D (chunks 1000 (Data ex1)) log1 = (e, log2)" by fastforce
  have e: "e = None" "excel' = ex1" "log = log2 @ [Commit]"
    using assms(7) rd r cb by (auto simp: SaveDb_def SaveDbByName_def split: option.splits)
  have pk: "pick_rows xlsx [] = Some (Inr (h # rows))" using assms(5,6) by (simp add: pick_rows_def hd_conv_nth)
  note rows = ReadExcelIo_rows[OF rd[unfolded r] pk assms(4,1,2), of "[]"]
  have "log1 = [Begin, TakeMax]" using ReadExcelIo_log(2)[OF rd r] assms(4) by simp
  then show ?thesis
    using rows(1) assms(3) e create_batches_log(1)[OF cb[unfolded e(1)]] chunks_sizes[of _ 1000 "Data ex1"]
    by (simp add: concat_chunks del: of_nat_add of_nat_1)
qed

definition name_model :: "xfield list" where
  "name_model = [\<lparr>x_name = ''Name'', x_tags = [(''json'', ''name'')], x_kind = XString\<rparr>,
     \<lparr>x_name = ''Hidden'', x_tags = [], x_kind = XString\<rparr>,
     \<lparr>x_name = ''Size'', x_tags = [(''json'', ''size''), (''comment'', ''bytes'')], x_kind = XUint64\<rparr>]"

definition plain_env :: "(nat, string) xenv" where
  "plain_env = \<lparr>key_order = rev, parse_float = (\<lambda>_. None), to_json = (\<lambda>_. Inr []), new_uuid = digits_nat\<rparr>"

definition plain_db :: "(nat, string) xdb" where
  "plain_db = \<lparr>max_id = (\<lambda>_. Some 41), create_rows = (\<lambda>_ _. None)\<rparr>"

definition name_book :: book where
  "name_book = \<lparr>sheets = [''a'', ''b''],
     rows_of = (\<lambda>s. if s = ''a'' then [[''name'', ''bytes''], [''x'', ''010''], [''y'']] else [[''name''], [''z'']])\<rparr>"

lemma SaveDbByName_ok:
  fixes E :: "('f, 'e) xenv"
  assumes "pick_rows xlsx sheet = Some (Inr (h # rows) :: 'e xerr + string list list)" "\<And>d. to_json E d = Inr c"
    and "\<And>l d. create_rows D l d = None"
  shows "\<exists>ex log'. SaveDbByName E D (Inr xlsx) sheet excel log = (Returned None, ex, log')"
proof -
  obtain r ex log1 where rd: "ReadExcelIo E D (Inr xlsx) sheet excel (log @ [Begin]) = (r, ex, log1)"
    by (cases "ReadExcelIo E D (Inr xlsx) sheet excel (log @ [Begin])") auto
  then have r: "r = Returned None" using assms(1,2) by (auto simp: ReadExcelIo_def Let_def split: prod.splits)
  have "fst (create_batches D ds l) = None" for ds l
    by (induction ds arbitrary: l) (simp_all add: assms(3))
  then obtain l2 where "create_batches D (chunks 1000 (Data ex)) log1 = (None, l2)" by (metis prod.collapse)
  then show ?thesis using rd r by (simp add: SaveDbByName_def)
qed

lemma name_ok: "tags_ok (Model (NewExcelExportStruct name_model True))" "any_order (key_order plain_env)"
  by (simp_all add: tags_ok_def any_order_def NewExcelExportStruct_def name_model_def tagged_def x_tag_def plain_env_def
      rev_map[symmetric])

theorem SaveDb_imports_witness:
  "\<exists>excel' log. SaveDb plain_env plain_db (Inr name_book) (NewExcelExportStruct name_model True) [] = (Returned None, excel', log)
     \<and> map (\<lambda>r. (r ''Id'', r ''Name'', r ''Size'')) (Data excel')
       = [(Some (CId 42), Some (CString ''x''), Some (CUint 8)), (Some (CId 43), Some (CString ''y''), None)]"
proof -
  let ?ex = "NewExcelExportStruct name_model True :: nat ExcelStruct"
  have pk: "pick_rows name_book [] = Some (Inr ([''name'', ''bytes''] # [[''x'', ''010''], [''y'']]))"
    by (simp add: pick_rows_def name_book_def)
  obtain excel' log where out: "SaveDb plain_env plain_db (Inr name_book) ?ex [] = (Returned None, excel', log)"
    using SaveDbByName_ok[OF pk, of plain_env "[]" plain_db ?ex "[]"] by (auto simp: SaveDb_def plain_env_def plain_db_def)
  have i: "Info ?ex = []" "IdIsInt ?ex" "sheets name_book \<noteq> []"
    "rows_of name_book (hd (sheets name_book)) = [''name'', ''bytes''] # [[''x'', ''010''], [''y'']]"
    by (simp_all add: NewExcelExportStruct_def name_book_def)
  note d = conjunct1[OF SaveDb_imports[OF name_ok i out]]
  have "list_all is_digit ''10''" "list_all (\<lambda>c. digit_val c < 8) ''10''" "octal_val ''10'' = 8" by code_simp+
  then have u: "parse_uint ''010'' = Some 8" using parse_uint_octal[of "''10''"] by simp
  have tg: "tagged name_model = [\<lparr>x_name = ''Name'', x_tags = [(''json'', ''name'')], x_kind = XString\<rparr>,
     \<lparr>x_name = ''Size'', x_tags = [(''json'', ''size''), (''comment'', ''bytes'')], x_kind = XUint64\<rparr>]" by code_simp
  have "[0..<length [[''x'', ''010''], [''y'']]] = [0, Suc 0]" by (simp add: upt_conv_Cons)
  then have "map (\<lambda>r. (r ''Id'', r ''Name'', r ''Size'')) (Data excel')
       = [(Some (CId 42), Some (CString ''x''), Some (CUint 8)), (Some (CId 43), Some (CString ''y''), None)]"
    unfolding d using u tg by (simp add: imported_def NewExcelExportStruct_def plain_db_def plain_env_def convert_cell_def map_add_def)
  with out show ?thesis by (intro exI conjI)
qed

text \<open>C32. An import is one transaction. On success all batches have been created and the transaction is committed;
  after an error it is rolled back, whatever part had been created; a panic creates nothing but
  commits the empty transaction.\<close>

theorem SaveDb_all_or_nothing:
  assumes "SaveDbByName E D file sheet excel log = (r, excel', log')"
  shows "(r = Returned None \<longrightarrow> log' = log @ [Begin] @ (if IdIsInt excel then [TakeMax] else [])
          @ map Create (chunks 1000 (Data excel')) @ [Commit])
    \<and> (\<forall>e. r = Returned (Some e) \<longrightarrow> (\<exists>t n. set t \<subseteq> {TakeMax}
          \<and> log' = log @ [Begin] @ t @ map Create (take n (chunks 1000 (Data excel'))) @ [Rollback]))
    \<and> (r = Panicked \<longrightarrow> log' = log @ [Begin, Commit])"
proof -
  obtain r1 ex1 log1 where rd: "ReadExcelIo E D file sheet excel (log @ [Begin]) = (r1, ex1, log1)"
    by (cases "ReadExcelIo E D file sheet excel (log @ [Begin])") auto
  note lg = ReadExcelIo_log[OF rd]
  show ?thesis
  proof (cases r1)
    case Panicked
    then show ?thesis using assms rd lg(3) by (simp add: SaveDbByName_def)
  next
    case (Returned e)
    show ?thesis
    proof (cases e)
      case (Some err)
      obtain t where "log1 = log @ [Begin] @ t" "set t \<subseteq> {TakeMax}" using lg(1) by auto
      then show ?thesis using assms rd Returned Some
        by (auto simp: SaveDbByName_def intro!: exI[of _ t] exI[of _ 0])
    next
      case None
      have l1: "log1 = log @ [Begin] @ (if IdIsInt excel then [TakeMax] else [])" using lg(2) Returned None by auto
      obtain e2 log2 where cb: "create_batches D (chunks 1000 (Data ex1)) log1 = (e2, log2)" by fastforce
      show ?thesis
      proof (cases e2)
        case None
        then show ?thesis using assms rd Returned \<open>e = None\<close> cb create_batches_log(1)[OF cb[unfolded None]] l1
          by (auto simp: SaveDbByName_def)
      next
        case (Some e3)
        then obtain n where n: "log2 = log1 @ map Create (take (Suc n) (chunks 1000 (Data ex1)))"
          using create_batches_log(2)[OF cb[unfolded Some]] by blast
        have out: "r = Returned (Some (LibError e3))" "excel' = ex1" "log' = log2 @ [Rollback]"
          using assms rd Returned None cb Some by (auto simp: SaveDbByName_def)
        have "\<exists>t n. set t \<subseteq> {TakeMax} \<and> log' = log @ [Begin] @ t @ map Create (take n (chunks 1000 (Data excel'))) @ [Rollback]"
          by (rule exI[of _ "if IdIsInt excel then [TakeMax] else []"], rule exI[of _ "Suc n"]) (auto simp: out n l1)
        then show ?thesis using out(1) by simp
      qed
    qed
  qed
qed

theorem SaveDb_all_or_nothing_witness:
  "\<exists>excel' log. SaveDbByName plain_env plain_db (Inr name_book) [] (NewExcelExportStruct name_model True) [] = (Returned None, excel', log)
     \<and> log = [Begin, TakeMax] @ map Create (chunks 1000 (Data excel')) @ [Commit]"
proof -
  let ?ex = "NewExcelExportStruct name_model True :: nat ExcelStruct"
  have pk: "pick_rows name_book [] = Some (Inr ([''name'', ''bytes''] # [[''x'', ''010''], [''y'']]))"
    by (simp add: pick_rows_def name_book_def)
  obtain excel' log where out: "SaveDbByName plain_env plain_db (Inr name_book) [] ?ex [] = (Returned None, excel', log)"
    using SaveDbByName_ok[OF pk, of plain_env "[]" plain_db ?ex "[]"] by (auto simp: plain_env_def plain_db_def)
  then show ?thesis using SaveDb_all_or_nothing[OF out] by (auto simp: NewExcelExportStruct_def)
qed

lemma index_by_name_nth:
  "distinct ns \<Longrightarrow> i < length ns \<Longrightarrow> index_by_name k ns (ns ! i) = Inr (k + i + 1)"
proof (induction ns arbitrary: i k)
  case (Cons n ns)
  then show ?case by (cases i) auto
qed simp

text \<open>C33. Importing a sheet by its name reads the rows of the sheet that follows it. For the last sheet the index
  is out of range: the call panics, and the deferred function commits.\<close>

theorem SaveDbByName_next_sheet:
  fixes E :: "('f, 'e) xenv"
  assumes "distinct (sheets xlsx)" "i < length (sheets xlsx)" "sheets xlsx ! i \<noteq> []"
  shows "(i + 1 < length (sheets xlsx) \<longrightarrow>
        pick_rows xlsx (sheets xlsx ! i) = (Some (Inr (rows_of xlsx (sheets xlsx ! (i + 1)))) :: ('e xerr + string list list) option))
    \<and> (i + 1 = length (sheets xlsx) \<longrightarrow>
        SaveDbByName E D (Inr xlsx) (sheets xlsx ! i) excel log = (Panicked, excel, log @ [Begin, Commit]))"
proof -
  have x: "(getSheetIndexByName xlsx (sheets xlsx ! i) :: 'e xerr + nat) = Inr (i + 1)"
    using index_by_name_nth[OF assms(1,2), of 0] by (simp add: getSheetIndexByName_def)
  have "(pick_rows xlsx (sheets xlsx ! i) :: ('e xerr + string list list) option)
      = (if length (sheets xlsx) \<le> i + 1 then None else Some (Inr (rows_of xlsx (sheets xlsx ! (i + 1)))))"
    unfolding pick_rows_def x using assms(3) by simp
  then show ?thesis by (simp add: SaveDbByName_def ReadExcelIo_def)
qed

theorem SaveDbByName_next_sheet_witness:
  "(pick_rows name_book ''a'' :: (string xerr + string list list) option) = Some (Inr [[''name''], [''z'']])
   \<and> fst (SaveDbByName plain_env plain_db (Inr name_book) ''b'' (NewExcelExportStruct name_model True) []) = Panicked"
proof -
  have s: "sheets name_book = [''a'', ''b'']" "rows_of name_book ''b'' = [[''name''], [''z'']]" by (simp_all add: name_book_def)
  have d: "distinct (sheets name_book)" "0 < length (sheets name_book)" "1 < length (sheets name_book)"
    "sheets name_book ! 0 \<noteq> []" "sheets name_book ! 1 \<noteq> []" by (simp_all add: s)
  show ?thesis
    using SaveDbByName_next_sheet[OF d(1,2,4), of plain_env plain_db] SaveDbByName_next_sheet[OF d(1,3,5), of plain_env plain_db]
    by (simp add: s)
qed

text \<open>The rows of an import stay in the value: a second import with it creates them again.\<close>

theorem import_twice:
  fixes E :: "('f, 'e) xenv"
  assumes "tags_ok (Model excel)" "any_order (key_order E)" "Info excel = []" "IdIsInt excel"
    and "pick_rows xlsx s = Some (Inr (h # rows) :: 'e xerr + string list list)"
    and "pick_rows xlsx' s' = Some (Inr (h' # rows') :: 'e xerr + string list list)"
    and "ReadExcelIo E D (Inr xlsx) s excel log = (Returned None, excel1, log1)"
    and "ReadExcelIo E D (Inr xlsx') s' excel1 log2 = (Returned None, excel2, log3)"
  shows "length (Data excel1) = length rows" "length (Data excel2) = length rows + length rows'"
    "j < length rows \<Longrightarrow> \<exists>i. Data excel2 ! j = [''Id'' \<mapsto> CId i] ++ imported (parse_float E) (Model excel) (rows ! j)"
proof -
  note m = ReadExcelIo_log(4,5)[OF assms(7)]
  note r1 = ReadExcelIo_rows[OF assms(7,5,4,1,2), of "[]"]
  note r2 = ReadExcelIo_rows[OF assms(8,6), of rows]
  have i: "Info excel1 = map (row_info (Model excel1) (GetTag (Model excel1))) rows"
    using r1(2) assms(3) m by simp
  show "length (Data excel1) = length rows" using r1(1) assms(3) by simp
  note d = r2(1)[unfolded m, OF assms(4,1,2) i[unfolded m]]
  show "length (Data excel2) = length rows + length rows'" using d by simp
  show "\<exists>i. Data excel2 ! j = [''Id'' \<mapsto> CId i] ++ imported (parse_float E) (Model excel) (rows ! j)" if "j < length rows"
  proof -
    have "(rows @ rows') ! j = rows ! j" "j < length (rows @ rows')" using that by (simp_all add: nth_append)
    then show ?thesis unfolding d by (intro exI) (simp only: nth_map_upt add_0 diff_zero)
  qed
qed

text \<open>A cell with the decimal text of a number that fits 64 bits gives that number, and the text of a larger one
  is left out; but the digits after a leading zero are read as octal, and with an 8 or a 9 among them
  the cell is left out.\<close>

theorem parse_uint_text:
  "(0 < n \<longrightarrow> parse_uint (digits_nat n) = (if n < 2 ^ 64 then Some (of_nat n) else None))
   \<and> (s \<noteq> [] \<and> list_all is_digit s \<longrightarrow> parse_uint (CHR ''0'' # s) =
       (if list_all (\<lambda>c. digit_val c < 8) s \<and> octal_val s < 2 ^ 64 then Some (of_nat (octal_val s)) else None))"
  using parse_uint_decimal parse_uint_octal by blast

theorem parse_uint_text_witness: "parse_uint ''0100'' = Some 64 \<and> parse_uint ''090'' = None \<and> parse_uint (digits_nat 100) = Some 100"
proof -
  have s: "list_all is_digit ''100''" "list_all is_digit ''90''" "octal_val ''100'' = 64" "list_all (\<lambda>c. digit_val c < 8) ''100''"
    "\<not> list_all (\<lambda>c. digit_val c < 8) ''90''"
    by code_simp+
  show ?thesis using parse_uint_text[of 100 "''100''"] parse_uint_text[of 100 "''90''"] s by simp
qed

end
