(* ===== verification/ExcelExport.thy ===== *)
theory ExcelExport
  imports ExcelImport
begin

text \<open>
  The export of spreadsheets (\<open>toolx/excelExport.go\<close>). A workbook of excelize is the list of the calls made on it,
  and what a call answers depends on the calls before it; the names of columns, the JSON conversion, the
  clock and the random numbers are arguments. \<open>None\<close> and \<open>Crash\<close> are panics.
\<close>

section \<open>The workbook\<close>

datatype 'v cell_value = Title string | Value "'v option"

datatype ('v, 'f) xcall =
    NewSheet string
  | DeleteSheet string
  | SetActiveSheet int
  | NewStyle bool
  | SetCellValue string string "'v cell_value"
  | SetColWidth string string string 'f
  | SetCellStyle string string string nat
  | SetRowHeight string nat nat

type_synonym ('v, 'f) xfile = "('v, 'f) xcall list"

record ('v, 'f, 'e) xlib =
  sheet_index :: "('v, 'f) xfile \<Rightarrow> string \<Rightarrow> int"
  delete_fails :: "('v, 'f) xfile \<Rightarrow> string \<Rightarrow> bool"
  style_index :: "('v, 'f) xfile \<Rightarrow> nat"
  col_name :: "nat \<Rightarrow> string"
  width_of :: "string \<Rightarrow> 'f"
  write_buffer :: "('v, 'f) xfile \<Rightarrow> 'e + string"
  save_as :: "('v, 'f) xfile \<Rightarrow> string \<Rightarrow> 'e option"

definition defaultSheetName :: string where
  "defaultSheetName = ''Sheet1''"

definition defaultHeight :: nat where
  "defaultHeight = 25"

record ('v, 'f) ExcelExport =
  File :: "('v, 'f) xfile option"
  SheetName :: string
  Params :: "(string \<rightharpoonup> string) list"
  Rows :: "(string \<rightharpoonup> 'v option) list"
  Path :: string

definition createFile :: "('v, 'f, 'e) xlib \<Rightarrow> string list \<Rightarrow> ('v, 'f) xfile option" where
  "createFile L sheetNames =
     (if length sheetNames < 1 then Some [NewSheet defaultSheetName, SetActiveSheet (sheet_index L [] defaultSheetName)]
      else (case fold (\<lambda>s (index, f). (sheet_index L f s, f @ [NewSheet s])) sheetNames (0, []) of
              (index, f) \<Rightarrow>
                if delete_fails L f defaultSheetName then None
                else Some (f @ [DeleteSheet defaultSheetName, SetActiveSheet index])))"

section \<open>A new export\<close>

datatype 'a run = Crash | Done 'a

record ('d, 'v, 'e) xjson =
  marshal :: "'d \<Rightarrow> 'e + string"
  unmarshal :: "string \<Rightarrow> 'e + (string \<rightharpoonup> 'v) list"

fun column_params :: "string list \<Rightarrow> string list \<Rightarrow> (string \<rightharpoonup> string) list option" where
  "column_params [] hs = Some []"
| "column_params (k # ks) [] = None"
| "column_params (k # ks) (h # hs) =
     map_option ((#) [''key'' \<mapsto> k, ''title'' \<mapsto> h, ''width'' \<mapsto> ''20'']) (column_params ks hs)"

definition keep_keys :: "string list \<Rightarrow> (string \<rightharpoonup> 'v) \<Rightarrow> (string \<rightharpoonup> 'v option)" where
  "keep_keys ks v = fold (\<lambda>k st. st(k \<mapsto> v k)) ks Map.empty"

definition NewMyExcel ::
  "('v, 'f, 'e) xlib \<Rightarrow> ('d, 'v, 'e) xjson \<Rightarrow> string \<Rightarrow> TagBody \<Rightarrow> 'd \<Rightarrow> ('e + ('v, 'f) ExcelExport) run" where
  "NewMyExcel L J sheetName tag data =
     (let file = createFile L [sheetName] in
      case column_params (Keys tag) (Header tag) of
        None \<Rightarrow> Crash
      | Some params \<Rightarrow>
          (case marshal J data of
             Inl err \<Rightarrow> Done (Inl err)
           | Inr dj \<Rightarrow>
               (case unmarshal J dj of
                  Inl err \<Rightarrow> Done (Inl err)
                | Inr dm \<Rightarrow> Done (Inr \<lparr>File = file, SheetName = sheetName, Params = params,
                    Rows = map (keep_keys (Keys tag)) dm, Path = []\<rparr>))))"

section \<open>Writing the cells\<close>

definition conf_get :: "(string \<rightharpoonup> string) \<Rightarrow> string \<Rightarrow> string" where
  "conf_get conf k = (case conf k of None \<Rightarrow> [] | Some v \<Rightarrow> v)"

fun top_cells :: "('v, 'f, 'e) xlib \<Rightarrow> string \<Rightarrow> nat \<Rightarrow> nat \<Rightarrow> (string \<rightharpoonup> string) list \<Rightarrow> ('v, 'f) xfile \<Rightarrow> ('v, 'f) xfile" where
  "top_cells L sheet style word [] f = f"
| "top_cells L sheet style word (conf # confs) f =
     (let title = conf_get conf ''title''; width = width_of L (conf_get conf ''width'');
          col = col_name L word; line = col @ ''1''
      in top_cells L sheet style (word + 1) confs
           (f @ [SetCellValue sheet line (Title title), SetColWidth sheet col col width, SetCellStyle sheet line line style]))"

definition writeTop :: "('v, 'f, 'e) xlib \<Rightarrow> ('v, 'f) ExcelExport \<Rightarrow> ('v, 'f) ExcelExport option" where
  "writeTop L l =
     (case File l of
        None \<Rightarrow> None
      | Some f \<Rightarrow>
          Some (l\<lparr>File := Some (top_cells L (SheetName l) (style_index L f) 1 (Params l) (f @ [NewStyle True]))\<rparr>))"

fun row_cells :: "('v, 'f, 'e) xlib \<Rightarrow> string \<Rightarrow> nat \<Rightarrow> (string \<rightharpoonup> 'v option) \<Rightarrow> nat \<Rightarrow> nat \<Rightarrow> (string \<rightharpoonup> string) list
   \<Rightarrow> ('v, 'f) xfile \<Rightarrow> ('v, 'f) xfile" where
  "row_cells L sheet style val j word [] f = f"
| "row_cells L sheet style val j word (conf # confs) f =
     (let valKey = conf_get conf ''key''; col = col_name L word; line = col @ digits_nat j;
          v = (case val valKey of None \<Rightarrow> None | Some x \<Rightarrow> x)
      in row_cells L sheet style val j (word + 1) confs
           (f @ [SetCellValue sheet line (Value v), SetCellStyle sheet line line style]))"

fun data_rows :: "('v, 'f, 'e) xlib \<Rightarrow> string \<Rightarrow> nat \<Rightarrow> (string \<rightharpoonup> string) list \<Rightarrow> nat \<Rightarrow> (string \<rightharpoonup> 'v option) list
   \<Rightarrow> ('v, 'f) xfile \<Rightarrow> ('v, 'f) xfile" where
  "data_rows L sheet style params i [] f = f"
| "data_rows L sheet style params i (val # vals) f =
     data_rows L sheet style params (i + 1) vals
       (row_cells L sheet style val (i + 2) 1 params (f @ [SetRowHeight sheet (i + 1) defaultHeight]))"

definition writeData :: "('v, 'f, 'e) xlib \<Rightarrow> ('v, 'f) ExcelExport \<Rightarrow> ('v, 'f) ExcelExport option" where
  "writeData L l =
     (case File l of
        None \<Rightarrow> None
      | Some f \<Rightarrow>
          Some (l\<lparr>File := Some (data_rows L (SheetName l) (style_index L f) (Params l) 0 (Rows l) (f @ [NewStyle False])
                            @ [SetRowHeight (SheetName l) (length (Rows l) + 1) defaultHeight])\<rparr>))"

definition export_all :: "('v, 'f, 'e) xlib \<Rightarrow> ('v, 'f) ExcelExport \<Rightarrow> ('v, 'f) ExcelExport option" where
  "export_all L l = Option.bind (writeTop L l) (writeData L)"

section \<open>Results\<close>

text \<open>The file name is made from the time and a random number below the seconds since 1970.\<close>

record clock =
  now :: civil
  unix :: int64
  draw :: "int64 \<Rightarrow> int64"

definition createFileName :: "clock \<Rightarrow> string option" where
  "createFileName T =
     (if sint (unix T) \<le> 0 then None
      else Some (''excle-'' @ format_date (now T) @ ''-'' @ pad_nat 2 (hour (now T)) @ ''-'' @ pad_nat 2 (minute (now T))
        @ ''-'' @ pad_nat 2 (second (now T)) @ ''-'' @ itoa (sint (draw T (unix T))) @ ''.xlsx''))"

definition ExportToPath :: "('v, 'f, 'e) xlib \<Rightarrow> clock \<Rightarrow> ('v, 'f) ExcelExport \<Rightarrow> (string \<times> 'e option) run" where
  "ExportToPath L T l =
     (case export_all L l of
        None \<Rightarrow> Crash
      | Some l \<Rightarrow>
          (case createFileName T of
             None \<Rightarrow> Crash
           | Some name \<Rightarrow>
               (let filePath = Path l @ ''/'' @ name
                in Done (filePath, case File l of None \<Rightarrow> None | Some f \<Rightarrow> save_as L f filePath))))"

definition write_export :: "('v, 'f, 'e) xlib \<Rightarrow> ('e + ('v, 'f) ExcelExport) run \<Rightarrow> ('e + string) run" where
  "write_export L r =
     (case r of
        Crash \<Rightarrow> Crash
      | Done (Inl err) \<Rightarrow> Done (Inl err)
      | Done (Inr ex) \<Rightarrow>
          (case Option.bind (export_all L ex) File of
             None \<Rightarrow> Crash
           | Some f \<Rightarrow> Done (write_buffer L f)))"

definition ExportToWeb ::
  "('v, 'f, 'e) xlib \<Rightarrow> ('d, 'v, 'e) xjson \<Rightarrow> xfield list \<Rightarrow> 'd \<Rightarrow> string \<Rightarrow> ('e + string) run" where
  "ExportToWeb L J m list name = write_export L (NewMyExcel L J name (GetTag m) list)"

text \<open>\<open>none\<close> is the empty list of rows.\<close>

definition ExportToWebTemplate ::
  "('v, 'f, 'e) xlib \<Rightarrow> ('d, 'v, 'e) xjson \<Rightarrow> 'd \<Rightarrow> xfield list \<Rightarrow> string \<Rightarrow> ('e + string) run" where
  "ExportToWebTemplate L J none m name = write_export L (NewMyExcel L J name (GetTag m) none)"

datatype 'e gin = CtxError 'e | CtxHeader string string | CtxWrite string

text \<open>\<open>url.QueryEscape\<close>\<close>

definition query_escape :: "string \<Rightarrow> string" where
  "query_escape s = concat (map (\<lambda>c.
     if is_up c \<or> is_low c \<or> is_digit c \<or> c \<in> set ''-_.~'' then [c]
     else if c = CHR '' '' then ''+''
     else [CHR ''%'', hex_digit 65 (code c div 16), hex_digit 65 (code c mod 16)]) s)"

text \<open>What reaches the client, and whether the handler panics. An error of WriteToBuffer leaves a nil buffer.\<close>

definition export_web :: "('v, 'f, 'e) xlib \<Rightarrow> clock \<Rightarrow> ('v, 'f) ExcelExport \<Rightarrow> 'e gin list \<times> bool" where
  "export_web L T l =
     (case Option.bind (export_all L l) File of
        None \<Rightarrow> ([], True)
      | Some f \<Rightarrow>
          (let ct = CtxHeader ''Content-Type'' ''application/vnd.ms-excel;charset=utf8'' in
           case createFileName T of
             None \<Rightarrow> ([ct], True)
           | Some name \<Rightarrow>
               (let cd = CtxHeader ''Content-Disposition'' (''attachment; filename='' @ query_escape name) in
                case write_buffer L f of
                  Inl _ \<Rightarrow> ([ct, cd], True)
                | Inr buffer \<Rightarrow> ([ct, cd, CtxWrite buffer], False))))"

definition ExportToWebGin ::
  "('v, 'f, 'e) xlib \<Rightarrow> ('d, 'v, 'e) xjson \<Rightarrow> clock \<Rightarrow> xfield list \<Rightarrow> 'd \<Rightarrow> string \<Rightarrow> 'e gin list \<times> bool" where
  "ExportToWebGin L J T m list name =
     (case NewMyExcel L J name (GetTag m) list of
        Crash \<Rightarrow> ([], True)
      | Done (Inl err) \<Rightarrow> ([CtxError err], True)
      | Done (Inr ex) \<Rightarrow> export_web L T ex)"

section \<open>The table in a workbook\<close>

text \<open>What a reader finds in a cell: the value of the last call that set it.\<close>

fun cell_at :: "string \<Rightarrow> string \<Rightarrow> ('v, 'f) xfile \<Rightarrow> 'v cell_value option" where
  "cell_at sheet line [] = None"
| "cell_at sheet line (c # f) =
     (case cell_at sheet line f of
        Some v \<Rightarrow> Some v
      | None \<Rightarrow> (case c of SetCellValue s l v \<Rightarrow> if s = sheet \<and> l = line then Some v else None | _ \<Rightarrow> None))"

lemma cell_at_append: "cell_at s l (f @ g) = (case cell_at s l g of Some v \<Rightarrow> Some v | None \<Rightarrow> cell_at s l f)"
  by (induction f) (auto split: option.splits)

text \<open>One row of cells: \<open>g\<close> gives the value of a column.\<close>

definition line_at :: "('v, 'f, 'e) xlib \<Rightarrow> nat \<Rightarrow> nat \<Rightarrow> ('c \<Rightarrow> 'v cell_value) \<Rightarrow> 'c list \<Rightarrow> string \<Rightarrow> 'v cell_value option" where
  "line_at L j word g confs line =
     map_of (rev (map (\<lambda>(w, conf). (col_name L w @ digits_nat j, g conf)) (enumerate word confs))) line"

lemma line_at_simps [simp]:
  "line_at L j word g [] line = None"
  "line_at L j word g (c # cs) line = (case line_at L j (word + 1) g cs line of
     Some v \<Rightarrow> Some v | None \<Rightarrow> if line = col_name L word @ digits_nat j then Some (g c) else None)"
  by (simp_all add: line_at_def map_add_def split: option.split)

abbreviation title_of :: "(string \<rightharpoonup> string) \<Rightarrow> 'v cell_value" where
  "title_of conf \<equiv> Title (conf_get conf ''title'')"

abbreviation value_of :: "(string \<rightharpoonup> 'v option) \<Rightarrow> (string \<rightharpoonup> string) \<Rightarrow> 'v cell_value" where
  "value_of val conf \<equiv> Value (case val (conf_get conf ''key'') of None \<Rightarrow> None | Some x \<Rightarrow> x)"

lemma one_digit: "''1'' = digits_nat 1"
  by (simp add: digits_nat.simps) code_simp

lemma top_cells_at:
  "cell_at s line (top_cells L sheet style word confs f)
     = (case if s = sheet then line_at L 1 word title_of confs line else None of Some v \<Rightarrow> Some v | None \<Rightarrow> cell_at s line f)"
proof (induction confs arbitrary: word f)
  case (Cons c cs)
  then show ?case unfolding top_cells.simps Let_def Cons one_digit
    by (auto simp: cell_at_append split: option.split)
qed simp

lemma row_cells_at:
  "cell_at s line (row_cells L sheet style val j word confs f)
     = (case if s = sheet then line_at L j word (value_of val) confs line else None of Some v \<Rightarrow> Some v | None \<Rightarrow> cell_at s line f)"
proof (induction confs arbitrary: word f)
  case (Cons c cs)
  then show ?case unfolding row_cells.simps Let_def Cons
    by (auto simp: cell_at_append split: option.split)
qed simp

fun rows_at :: "('v, 'f, 'e) xlib \<Rightarrow> (string \<rightharpoonup> string) list \<Rightarrow> nat \<Rightarrow> (string \<rightharpoonup> 'v option) list \<Rightarrow> string \<Rightarrow> 'v cell_value option" where
  "rows_at L confs i [] line = None"
| "rows_at L confs i (v # vs) line =
     (case rows_at L confs (i + 1) vs line of Some x \<Rightarrow> Some x | None \<Rightarrow> line_at L (i + 2) 1 (value_of v) confs line)"

lemma data_rows_at:
  "cell_at s line (data_rows L sheet style confs i vs f)
     = (case if s = sheet then rows_at L confs i vs line else None of Some v \<Rightarrow> Some v | None \<Rightarrow> cell_at s line f)"
proof (induction vs arbitrary: i f)
  case (Cons v vs)
  then show ?case unfolding data_rows.simps Cons row_cells_at
    by (auto simp: cell_at_append split: option.split)
qed simp

lemma digits_nat_inj: "digits_nat i = digits_nat j \<Longrightarrow> i = j"
  using digits_nat_props by metis

lemma line_inj:
  assumes "list_all (\<lambda>c. \<not> is_digit c) a" "list_all (\<lambda>c. \<not> is_digit c) b" "a @ digits_nat i = b @ digits_nat j"
  shows "a = b" "i = j"
proof -
  have t: "takeWhile (\<lambda>c. \<not> is_digit c) (a @ digits_nat i) = a" if "list_all (\<lambda>c. \<not> is_digit c) a" for a i
  proof -
    obtain d ds where d: "digits_nat i = d # ds" "is_digit d" using digits_nat_props[of i] by (cases "digits_nat i") auto
    then show ?thesis using that unfolding d(1) by (simp add: takeWhile_append2 list_all_iff)
  qed
  show "a = b" using t[OF assms(1), of i] t[OF assms(2), of j] assms(3) by argo
  then show "i = j" using assms(3) digits_nat_inj by blast
qed

lemma line_at_line:
  "line_at L j k g ds line \<noteq> None \<Longrightarrow> \<exists>u. k \<le> u \<and> u < k + length ds \<and> line = col_name L u @ digits_nat j"
proof (induction ds arbitrary: k)
  case (Cons d ds)
  show ?case
  proof (cases "line_at L j (k + 1) g ds line = None")
    case True
    then show ?thesis using Cons.prems by (intro exI[of _ k]) (auto split: if_splits)
  next
    case False
    then obtain u where "k + 1 \<le> u" "u < k + 1 + length ds" "line = col_name L u @ digits_nat j" using Cons.IH by blast
    then show ?thesis by (intro exI[of _ u]) simp
  qed
qed simp

lemma line_at_nth:
  assumes "inj_on (col_name L) {word..<word + length confs}" "w < length confs"
  shows "line_at L j word g confs (col_name L (word + w) @ digits_nat j) = Some (g (confs ! w))"
  using assms
proof (induction confs arbitrary: word w)
  case (Cons c cs)
  have i: "inj_on (col_name L) {word + 1..<word + 1 + length cs}"
    by (rule inj_on_subset[OF Cons.prems(1)]) auto
  have no: "line_at L j (word + 1) g cs (col_name L word @ digits_nat j) = None"
    using line_at_line[of L j "word + 1" g cs "col_name L word @ digits_nat j"] Cons.prems(1)
    by (fastforce simp: inj_on_def)
  show ?case
  proof (cases w)
    case 0
    then show ?thesis using no by simp
  next
    case (Suc u)
    then show ?thesis using Cons.IH[OF i, of u] Cons.prems(2) by simp
  qed
qed simp

lemma line_at_other:
  assumes "\<And>w. list_all (\<lambda>c. \<not> is_digit c) (col_name L w)" "i \<noteq> j"
  shows "line_at L j k g confs (col_name L u @ digits_nat i) = None"
  using line_at_line[of L j k g confs] line_inj(2)[OF assms(1,1)] assms(2) by metis

lemma rows_at_nth:
  assumes "inj_on (col_name L) {1..<1 + length confs}" "\<And>w. list_all (\<lambda>c. \<not> is_digit c) (col_name L w)" "w < length confs"
  shows "rows_at L confs i vs (col_name L (1 + w) @ digits_nat (k + 2))
    = (if i \<le> k \<and> k < i + length vs then Some (value_of (vs ! (k - i)) (confs ! w)) else None)"
proof (induction vs arbitrary: i)
  case (Cons v vs)
  show ?case
  proof (cases "k = i")
    case True
    then show ?thesis using Cons line_at_nth[OF assms(1,3), of "i + 2" "value_of v"] by simp
  next
    case False
    have "line_at L (i + 2) 1 (value_of v) confs (col_name L (1 + w) @ digits_nat (k + 2)) = None"
      by (rule line_at_other[OF assms(2)]) (use False in simp)
    moreover have "(v # vs) ! (k - i) = vs ! (k - Suc i)" if "Suc i \<le> k" using that by (simp add: nth_Cons')
    ultimately show ?thesis unfolding rows_at.simps Cons using False by auto
  qed
qed simp

lemma rows_at_line:
  "rows_at L confs i vs line \<noteq> None \<Longrightarrow> \<exists>u k. 1 \<le> u \<and> u < 1 + length confs \<and> i \<le> k \<and> k < i + length vs \<and> line = col_name L u @ digits_nat (k + 2)"
proof (induction vs arbitrary: i)
  case (Cons v vs)
  show ?case
  proof (cases "rows_at L confs (i + 1) vs line = None")
    case True
    then have "line_at L (i + 2) 1 (value_of v) confs line \<noteq> None" using Cons.prems by simp
    from line_at_line[OF this] obtain u where "1 \<le> u" "u < 1 + length confs" "line = col_name L u @ digits_nat (i + 2)" by blast
    then show ?thesis by (intro exI[of _ u] exI[of _ i]) simp
  next
    case False
    then obtain u k where "1 \<le> u" "u < 1 + length confs" "i + 1 \<le> k" "k < i + 1 + length vs" "line = col_name L u @ digits_nat (k + 2)"
      using Cons.IH by blast
    then show ?thesis by (intro exI[of _ u] exI[of _ k]) simp
  qed
qed simp

lemma column_params_Some:
  "column_params ks hs = Some ps \<Longrightarrow> length ps = length ks \<and> length ks \<le> length hs
    \<and> (\<forall>j < length ks. ps ! j = [''key'' \<mapsto> ks ! j, ''title'' \<mapsto> hs ! j, ''width'' \<mapsto> ''20''])"
proof (induction ks hs arbitrary: ps rule: column_params.induct)
  case (3 k ks h hs)
  then show ?case by (auto simp: nth_Cons split: nat.split)
qed simp_all

lemma keep_keys_at: "keep_keys ks v k = (if k \<in> set ks then Some (v k) else None)"
proof -
  have "fold (\<lambda>k st. st(k \<mapsto> v k)) ks st k = (if k \<in> set ks then Some (v k) else st k)" for st
    by (induction ks arbitrary: st) auto
  then show ?thesis by (simp add: keep_keys_def)
qed

lemma createFile_blank: "createFile L ns = Some f \<Longrightarrow> cell_at s line f = None"
proof -
  have "cell_at s line (snd (fold (\<lambda>s (index, f). (sheet_index L f s, f @ [NewSheet s])) ns (i, g))) = cell_at s line g" for ns i g
    by (induction ns arbitrary: i g) (simp_all add: cell_at_append)
  from this[of ns 0 "[]"] show "createFile L ns = Some f \<Longrightarrow> cell_at s line f = None"
    by (auto simp: createFile_def cell_at_append split: if_splits prod.splits)
qed

lemma export_all_file:
  "File l = Some f \<Longrightarrow> export_all L l = (let g = top_cells L (SheetName l) (style_index L f) 1 (Params l) (f @ [NewStyle True]) in
     Some (l\<lparr>File := Some (data_rows L (SheetName l) (style_index L g) (Params l) 0 (Rows l) (g @ [NewStyle False])
       @ [SetRowHeight (SheetName l) (length (Rows l) + 1) defaultHeight])\<rparr>))"
  by (simp add: export_all_def writeTop_def writeData_def Let_def)

section \<open>Properties\<close>

text \<open>What an exported sheet shows: in column \<open>j\<close> the title of the j-th tag and below it, row for row, the value
  that the JSON object of the row has under the key of the tag.\<close>

definition table_cell ::
  "(nat \<Rightarrow> string) \<Rightarrow> TagBody \<Rightarrow> (string \<rightharpoonup> 'v) list \<Rightarrow> nat \<Rightarrow> nat \<Rightarrow> 'v cell_value" where
  "table_cell col tag rows j i = (if i = 0 then Title (Header tag ! j) else Value ((rows ! (i - 1)) (Keys tag ! j)))"

text \<open>C34. An export shows the table of its data: a title and the values of every column, each at the place its
  column and row have, and no other cell, whatever the order of the calls is. The columns are found by
  the whole json tag, so a tag with an option, as \<open>name,omitempty\<close>, gives an empty column.\<close>

theorem export_table:
  assumes "NewMyExcel L J sheet tag data = Done (Inr e)" "export_all L e = Some e'" "File e' = Some f"
    and "marshal J data = Inr dj" "unmarshal J dj = Inr rows"
    and "inj_on (col_name L) {1..<1 + length (Keys tag)}" "\<And>w. list_all (\<lambda>c. \<not> is_digit c) (col_name L w)"
  shows "(\<forall>j < length (Keys tag). \<forall>i \<le> length rows.
        cell_at sheet (col_name L (1 + j) @ digits_nat (i + 1)) f = Some (table_cell (col_name L) tag rows j i))
    \<and> (cell_at s line f \<noteq> None \<longrightarrow> s = sheet
        \<and> (\<exists>j < length (Keys tag). \<exists>i \<le> length rows. line = col_name L (1 + j) @ digits_nat (i + 1)))"
proof -
  obtain ps where ps: "column_params (Keys tag) (Header tag) = Some ps"
    using assms(1) by (cases "column_params (Keys tag) (Header tag)") (simp_all add: NewMyExcel_def Let_def)
  have e: "e = \<lparr>File = createFile L [sheet], SheetName = sheet, Params = ps, Rows = map (keep_keys (Keys tag)) rows, Path = []\<rparr>"
    using assms(1) by (simp add: NewMyExcel_def Let_def ps assms(4,5))
  obtain f0 where f0: "createFile L [sheet] = Some f0"
    using assms(2) by (cases "createFile L [sheet]") (simp_all add: export_all_def writeTop_def e)
  note p = column_params_Some[OF ps]
  define g where "g = top_cells L sheet (style_index L f0) 1 ps (f0 @ [NewStyle True])"
  have f: "f = data_rows L sheet (style_index L g) ps 0 (Rows e) (g @ [NewStyle False])
      @ [SetRowHeight sheet (length (Rows e) + 1) defaultHeight]"
    using assms(2,3) export_all_file[of e f0 L] by (auto simp: e f0 g_def Let_def)
  have at: "cell_at s line f = (if s = sheet then (case rows_at L ps 0 (Rows e) line of Some v \<Rightarrow> Some v
      | None \<Rightarrow> line_at L 1 1 title_of ps line) else None)" for s line
    unfolding f g_def by (simp add: cell_at_append data_rows_at top_cells_at createFile_blank[OF f0] split: option.split)
  have inj: "inj_on (col_name L) {1..<1 + length ps}" using assms(6) p by simp
  have "cell_at sheet (col_name L (1 + j) @ digits_nat (i + 1)) f = Some (table_cell (col_name L) tag rows j i)"
    if "j < length (Keys tag)" "i \<le> length rows" for i j
  proof (cases i)
    case 0
    have "rows_at L ps 0 (Rows e) (col_name L (1 + j) @ digits_nat 1) = None"
    proof (rule ccontr)
      assume "rows_at L ps 0 (Rows e) (col_name L (1 + j) @ digits_nat 1) \<noteq> None"
      from rows_at_line[OF this] obtain u k where "col_name L (1 + j) @ digits_nat 1 = col_name L u @ digits_nat (k + 2)" by blast
      from line_inj(2)[OF assms(7,7) this] show False by simp
    qed
    then show ?thesis
      using line_at_nth[OF inj, of j 1 title_of] that p 0 by (simp add: at table_cell_def conf_get_def)
  next
    case (Suc k)
    have "rows_at L ps 0 (Rows e) (col_name L (1 + j) @ digits_nat (k + 2)) = Some (value_of (Rows e ! k) (ps ! j))"
      using rows_at_nth[OF inj assms(7), of j 0 "Rows e" k] that p Suc by (simp add: e)
    then show ?thesis
      using that p Suc by (simp add: at table_cell_def conf_get_def keep_keys_at e)
  qed
  moreover have "\<exists>j < length (Keys tag). \<exists>i \<le> length rows. line = col_name L (1 + j) @ digits_nat (i + 1)"
    if cell: "cell_at s line f \<noteq> None"
  proof (cases "rows_at L ps 0 (Rows e) line")
    case None
    then have "line_at L 1 1 title_of ps line \<noteq> None" using cell by (simp add: at split: if_splits)
    from line_at_line[OF this] obtain u where u: "1 \<le> u" "u < 1 + length ps" "line = col_name L u @ digits_nat 1" by blast
    show ?thesis by (rule exI[of _ "u - 1"]) (use u p in auto)
  next
    case (Some v)
    then obtain u k where u: "1 \<le> u" "u < 1 + length ps" "k < length (Rows e)" "line = col_name L u @ digits_nat (k + 2)"
      using rows_at_line[of L ps 0 "Rows e" line] by auto
    have "u - 1 < length (Keys tag)" "k + 1 \<le> length rows" "line = col_name L (1 + (u - 1)) @ digits_nat ((k + 1) + 1)"
      using u p by (simp_all add: e)
    then show ?thesis by blast
  qed
  moreover have "s = sheet" if "cell_at s line f \<noteq> None" using that by (simp add: at split: if_splits)
  ultimately show ?thesis by blast
qed

definition a_columns :: "(string, nat, string) xlib" where
  "a_columns = \<lparr>sheet_index = (\<lambda>_ _. 1), delete_fails = (\<lambda>_ _. False), style_index = length,
     col_name = (\<lambda>w. replicate w (CHR ''A'')), width_of = (\<lambda>_. 20), write_buffer = (\<lambda>_. Inr []), save_as = (\<lambda>_ _. None)\<rparr>"

definition one_row :: "(string, string, string) xjson" where
  "one_row = \<lparr>marshal = Inr, unmarshal = (\<lambda>d. Inr [[''name'' \<mapsto> d]])\<rparr>"

theorem export_table_witness:
  "\<exists>f. cell_at ''s'' ''A1'' f = Some (Title ''name'') \<and> cell_at ''s'' ''AA1'' f = Some (Title ''bytes'')
     \<and> cell_at ''s'' ''A2'' f = Some (Value (Some ''x'')) \<and> cell_at ''s'' ''AA2'' f = Some (Value None)
     \<and> (\<exists>e e'. NewMyExcel a_columns one_row ''s'' (GetTag name_model) ''x'' = Done (Inr e) \<and> export_all a_columns e = Some e' \<and> File e' = Some f)"
proof -
  let ?tag = "GetTag name_model"
  have tag: "Keys ?tag = [''name'', ''size'']" "Header ?tag = [''name'', ''bytes'']" by code_simp+
  obtain ps where ps: "column_params (Keys ?tag) (Header ?tag) = Some ps" by (simp add: tag)
  obtain f0 where f0: "createFile a_columns [''s''] = Some f0" by (simp add: createFile_def a_columns_def)
  define e where "e = \<lparr>File = Some f0, SheetName = ''s'', Params = ps, Rows = [keep_keys (Keys ?tag) [''name'' \<mapsto> ''x'']], Path = []\<rparr>"
  have new: "NewMyExcel a_columns one_row ''s'' ?tag ''x'' = Done (Inr e)"
    by (simp add: NewMyExcel_def Let_def ps f0 one_row_def e_def)
  obtain e' f where ex: "export_all a_columns e = Some e'" "File e' = Some f"
    using export_all_file[of e f0 a_columns] by (simp add: e_def Let_def)
  have j: "marshal one_row ''x'' = Inr ''x''" "unmarshal one_row ''x'' = Inr [[''name'' \<mapsto> ''x'']]" by (simp_all add: one_row_def)
  have A: "\<not> is_digit (CHR ''A'')" by code_simp
  have inj: "inj_on (col_name a_columns) {1..<1 + length (Keys ?tag)}"
    by (rule inj_onI) (simp add: a_columns_def replicate_eq_replicate)
  have nd: "\<And>w. list_all (\<lambda>c. \<not> is_digit c) (col_name a_columns w)" using A by (simp add: a_columns_def list_all_iff)
  have cell: "cell_at ''s'' (col_name a_columns (1 + j) @ digits_nat (i + 1)) f
      = Some (table_cell (col_name a_columns) ?tag [[''name'' \<mapsto> ''x'']] j i)" if "j < 2" "i \<le> 1" for i j
    using export_table[OF new ex j inj nd] that tag(1) by auto
  have n: "col_name a_columns (1 + 0) @ digits_nat (0 + 1) = ''A1''" "col_name a_columns (1 + 0) @ digits_nat (1 + 1) = ''A2''"
    "col_name a_columns (1 + 1) @ digits_nat (0 + 1) = ''AA1''" "col_name a_columns (1 + 1) @ digits_nat (1 + 1) = ''AA2''"
    by code_simp+
  have "cell_at ''s'' ''A1'' f = Some (Title ''name'')" "cell_at ''s'' ''AA1'' f = Some (Title ''bytes'')"
    "cell_at ''s'' ''A2'' f = Some (Value (Some ''x''))" "cell_at ''s'' ''AA2'' f = Some (Value None)"
    using cell[of 0 0] cell[of 1 0] cell[of 0 1] cell[of 1 1] unfolding n by (simp_all add: table_cell_def tag)
  then show ?thesis using new ex by blast
qed

text \<open>When the data cannot be turned into rows ExportToWeb returns the error, but ExportToWebGin goes on with no
  export and panics after recording it; an error of WriteToBuffer panics after the headers have been set.\<close>

theorem ExportToWebGin_panics:
  "NewMyExcel L J name (GetTag m) list = Done (Inl err) \<Longrightarrow> ExportToWeb L J m list name = Done (Inl err)
     \<and> ExportToWebGin L J T m list name = ([CtxError err], True)"
  "NewMyExcel L J name (GetTag m) list = Done (Inr ex) \<Longrightarrow> export_all L ex = Some ex' \<Longrightarrow> File ex' = Some f \<Longrightarrow> write_buffer L f = Inl err
     \<Longrightarrow> createFileName T = Some n \<Longrightarrow> ExportToWeb L J m list name = Done (Inl err)
     \<and> (\<exists>ct cd. ExportToWebGin L J T m list name = ([CtxHeader ''Content-Type'' ct, CtxHeader ''Content-Disposition'' cd], True))"
  by (simp_all add: ExportToWeb_def ExportToWebGin_def write_export_def export_web_def Let_def)

lemma query_escape_plain: "list_all (\<lambda>c. is_up c \<or> is_low c \<or> is_digit c \<or> c \<in> set ''-_.~'') s \<Longrightarrow> query_escape s = s"
  by (induction s) (simp_all add: query_escape_def)

end
