(* ===== verification/Console.thy ===== *)
theory Console
  imports GoStrings
begin

text \<open>
  The package \<open>console\<close> (\<open>console/console.go\<close>). An operation gives the lines it prints and whether it ends the
  process. \<open>fmt.Sprintf\<close>, the colours of aurora and the operating system are arguments. The interface is
  the locale \<open>terminal\<close>; the coloured console that is switched on and the console for plug-ins provide it.
\<close>

section \<open>Output\<close>

type_synonym effect = "string list \<times> bool"

definition quiet :: effect where
  "quiet = ([], False)"

definition println :: "string \<Rightarrow> effect" where
  "println s = ([s], False)"

definition exit_1 :: effect where
  "exit_1 = ([], True)"

text \<open>Nothing runs after the process has ended.\<close>

definition after :: "effect \<Rightarrow> effect \<Rightarrow> effect" where
  "after a b = (if snd a then a else (fst a @ fst b, snd b))"

datatype colour = BrightCyan | BrightGreen | BrightYellow | BrightRed

record 'a tty =
  sprintf :: "string \<Rightarrow> 'a list \<Rightarrow> string"
  paint :: "colour \<Rightarrow> string \<Rightarrow> string"
  goos :: string

datatype msg = Plain string | Painted colour string

text \<open>\<open>None\<close>: the value of a message that is no aurora value is nil, and reading it panics.\<close>

definition printlin :: "'a tty \<Rightarrow> msg \<Rightarrow> effect option" where
  "printlin T m =
     (let shown = (case m of Plain s \<Rightarrow> s | Painted c s \<Rightarrow> paint T c s);
          first = (case m of Plain s \<Rightarrow> println s | Painted _ _ \<Rightarrow> quiet)
      in if goos T = ''windows'' then
           (case m of Plain _ \<Rightarrow> None | Painted _ s \<Rightarrow> Some (after first (println s)))
         else Some (after first (println shown)))"

text \<open>The consoles print painted messages only.\<close>

definition print_painted :: "'a tty \<Rightarrow> colour \<Rightarrow> string \<Rightarrow> effect" where
  "print_painted T c s = (case printlin T (Painted c s) of None \<Rightarrow> quiet | Some e \<Rightarrow> e)"

section \<open>The coloured console\<close>

record colorConsole =
  enable :: bool

definition NewColorConsole :: "bool list \<Rightarrow> colorConsole" where
  "NewColorConsole en = \<lparr>enable = fold (\<lambda>e _. e) en True\<rparr>"

definition color_Info :: "'a tty \<Rightarrow> colorConsole \<Rightarrow> string \<Rightarrow> 'a list \<Rightarrow> effect" where
  "color_Info T c format a = (if \<not> enable c then quiet else println (sprintf T format a))"

definition color_Debug :: "'a tty \<Rightarrow> colorConsole \<Rightarrow> string \<Rightarrow> 'a list \<Rightarrow> effect" where
  "color_Debug T c format a = (if \<not> enable c then quiet else print_painted T BrightCyan (sprintf T format a))"

definition color_Success :: "'a tty \<Rightarrow> colorConsole \<Rightarrow> string \<Rightarrow> 'a list \<Rightarrow> effect" where
  "color_Success T c format a = (if \<not> enable c then quiet else print_painted T BrightGreen (sprintf T format a))"

definition color_Warning :: "'a tty \<Rightarrow> colorConsole \<Rightarrow> string \<Rightarrow> 'a list \<Rightarrow> effect" where
  "color_Warning T c format a = (if \<not> enable c then quiet else print_painted T BrightYellow (sprintf T format a))"

definition color_Error :: "'a tty \<Rightarrow> colorConsole \<Rightarrow> string \<Rightarrow> 'a list \<Rightarrow> effect" where
  "color_Error T c format a = (if \<not> enable c then quiet else print_painted T BrightRed (sprintf T format a))"

definition color_Fatalln :: "'a tty \<Rightarrow> colorConsole \<Rightarrow> string \<Rightarrow> 'a list \<Rightarrow> effect" where
  "color_Fatalln T c format a = (if \<not> enable c then quiet else after (color_Error T c format a) exit_1)"

definition color_MarkDone :: "'a tty \<Rightarrow> colorConsole \<Rightarrow> effect" where
  "color_MarkDone T c = (if \<not> enable c then quiet else color_Success T c ''Done.'' [])"

definition color_Must :: "'a tty \<Rightarrow> colorConsole \<Rightarrow> 'a option \<Rightarrow> effect" where
  "color_Must T c err =
     (if \<not> enable c then quiet
      else (case err of None \<Rightarrow> quiet | Some e \<Rightarrow> color_Fatalln T c ''%+v'' [e]))"

section \<open>The console for plug-ins\<close>

definition idea_Info :: "'a tty \<Rightarrow> string \<Rightarrow> 'a list \<Rightarrow> effect" where
  "idea_Info T format a = println (sprintf T format a)"

definition idea_Debug :: "'a tty \<Rightarrow> string \<Rightarrow> 'a list \<Rightarrow> effect" where
  "idea_Debug T format a = println (paint T BrightCyan (sprintf T format a))"

text \<open>\<open>fmt.Println\<close> puts a space between its arguments.\<close>

definition idea_Success :: "'a tty \<Rightarrow> string \<Rightarrow> 'a list \<Rightarrow> effect" where
  "idea_Success T format a = println (''[SUCCESS]: '' @ '' '' @ sprintf T format a)"

definition idea_Warning :: "'a tty \<Rightarrow> string \<Rightarrow> 'a list \<Rightarrow> effect" where
  "idea_Warning T format a = println (''[WARNING]: '' @ '' '' @ sprintf T format a)"

definition idea_Error :: "'a tty \<Rightarrow> string \<Rightarrow> 'a list \<Rightarrow> effect" where
  "idea_Error T format a = println (''[ERROR]: '' @ '' '' @ sprintf T format a)"

definition idea_Fatalln :: "'a tty \<Rightarrow> string \<Rightarrow> 'a list \<Rightarrow> effect" where
  "idea_Fatalln T format a = after (idea_Error T format a) exit_1"

definition idea_MarkDone :: "'a tty \<Rightarrow> effect" where
  "idea_MarkDone T = idea_Success T ''Done.'' []"

definition idea_Must :: "'a tty \<Rightarrow> 'a option \<Rightarrow> effect" where
  "idea_Must T err = (case err of None \<Rightarrow> quiet | Some e \<Rightarrow> idea_Fatalln T ''%+v'' [e])"

section \<open>The interface\<close>

datatype console = Color colorConsole | Idea

definition NewIdeaConsole :: console where
  "NewIdeaConsole = Idea"

definition NewConsole :: "bool \<Rightarrow> console" where
  "NewConsole idea = (if idea then NewIdeaConsole else Color (NewColorConsole []))"

fun Success :: "'a tty \<Rightarrow> console \<Rightarrow> string \<Rightarrow> 'a list \<Rightarrow> effect" where
  "Success T (Color c) = color_Success T c" | "Success T Idea = idea_Success T"

fun Info :: "'a tty \<Rightarrow> console \<Rightarrow> string \<Rightarrow> 'a list \<Rightarrow> effect" where
  "Info T (Color c) = color_Info T c" | "Info T Idea = idea_Info T"

fun Debug :: "'a tty \<Rightarrow> console \<Rightarrow> string \<Rightarrow> 'a list \<Rightarrow> effect" where
  "Debug T (Color c) = color_Debug T c" | "Debug T Idea = idea_Debug T"

fun Warning :: "'a tty \<Rightarrow> console \<Rightarrow> string \<Rightarrow> 'a list \<Rightarrow> effect" where
  "Warning T (Color c) = color_Warning T c" | "Warning T Idea = idea_Warning T"

fun Error :: "'a tty \<Rightarrow> console \<Rightarrow> string \<Rightarrow> 'a list \<Rightarrow> effect" where
  "Error T (Color c) = color_Error T c" | "Error T Idea = idea_Error T"

fun Fatalln :: "'a tty \<Rightarrow> console \<Rightarrow> string \<Rightarrow> 'a list \<Rightarrow> effect" where
  "Fatalln T (Color c) = color_Fatalln T c" | "Fatalln T Idea = idea_Fatalln T"

fun MarkDone :: "'a tty \<Rightarrow> console \<Rightarrow> effect" where
  "MarkDone T (Color c) = color_MarkDone T c" | "MarkDone T Idea = idea_MarkDone T"

fun Must :: "'a tty \<Rightarrow> console \<Rightarrow> 'a option \<Rightarrow> effect" where
  "Must T (Color c) = color_Must T c" | "Must T Idea = idea_Must T"

definition defaultConsole :: console where
  "defaultConsole = Color \<lparr>enable = True\<rparr>"

text \<open>The functions of the package use the default console.\<close>

definition default_Success :: "'a tty \<Rightarrow> string \<Rightarrow> 'a list \<Rightarrow> effect" where
  "default_Success T format a = Success T defaultConsole format a"

definition default_Info :: "'a tty \<Rightarrow> string \<Rightarrow> 'a list \<Rightarrow> effect" where
  "default_Info T format a = Info T defaultConsole format a"

definition default_Debug :: "'a tty \<Rightarrow> string \<Rightarrow> 'a list \<Rightarrow> effect" where
  "default_Debug T format a = Debug T defaultConsole format a"

definition default_Warning :: "'a tty \<Rightarrow> string \<Rightarrow> 'a list \<Rightarrow> effect" where
  "default_Warning T format a = Warning T defaultConsole format a"

definition default_Error :: "'a tty \<Rightarrow> string \<Rightarrow> 'a list \<Rightarrow> effect" where
  "default_Error T format a = Error T defaultConsole format a"

definition default_Fatalln :: "'a tty \<Rightarrow> string \<Rightarrow> 'a list \<Rightarrow> effect" where
  "default_Fatalln T format a = Fatalln T defaultConsole format a"

definition default_MarkDone :: "'a tty \<Rightarrow> effect" where
  "default_MarkDone T = MarkDone T defaultConsole"

definition default_Must :: "'a tty \<Rightarrow> 'a option \<Rightarrow> effect" where
  "default_Must T err = Must T defaultConsole err"

section \<open>What the interface promises\<close>

text \<open>An error line is one line and the process goes on; \<open>Fatalln\<close> prints that line and ends the process;
  \<open>Must\<close> does so for an error and nothing otherwise.\<close>

locale terminal =
  fixes error :: "string \<Rightarrow> 'a list \<Rightarrow> effect"
    and fatalln :: "string \<Rightarrow> 'a list \<Rightarrow> effect"
    and must :: "'a option \<Rightarrow> effect"
  assumes error_line: "\<exists>l. error f a = ([l], False)"
    and fatal: "fatalln f a = (fst (error f a), True)"
    and must_None: "must None = ([], False)"
    and must_Some: "must (Some e) = fatalln ''%+v'' [e]"
begin

lemma must_stops: "snd (must err) \<longleftrightarrow> err \<noteq> None"
  by (cases err) (simp_all add: must_None must_Some fatal)

lemma must_then: "after (must err) k = (if err = None then k else must err)"
  by (cases err) (simp_all add: must_None must_Some fatal after_def)

lemma must_lines: "length (fst (must err)) = (if err = None then 0 else 1)"
proof (cases err)
  case (Some e)
  obtain l where "error ''%+v'' [e] = ([l], False)" using error_line by blast
  then show ?thesis by (simp add: Some must_Some fatal)
qed (simp add: must_None)

end

lemma print_painted_line: "print_painted T c s = ([if goos T = ''windows'' then s else paint T c s], False)"
  by (simp add: print_painted_def printlin_def Let_def after_def quiet_def println_def)

interpretation coloured: terminal "Error T (Color \<lparr>enable = True\<rparr>)" "Fatalln T (Color \<lparr>enable = True\<rparr>)" "Must T (Color \<lparr>enable = True\<rparr>)" for T
  by unfold_locales
    (simp_all add: color_Error_def color_Fatalln_def color_Must_def print_painted_line after_def exit_1_def quiet_def)

interpretation plugin: terminal "Error T Idea" "Fatalln T Idea" "Must T Idea" for T
  by unfold_locales
    (simp_all add: idea_Error_def idea_Fatalln_def idea_Must_def println_def after_def exit_1_def quiet_def)

section \<open>Properties\<close>

lemma NewConsole_cases: "NewConsole idea = Idea \<or> NewConsole idea = Color \<lparr>enable = True\<rparr>"
  by (simp add: NewConsole_def NewIdeaConsole_def NewColorConsole_def)

text \<open>C35. A console of NewConsole and the default console go on after Must exactly when there is no error, and
  otherwise print one line and end the process. A coloured console that is switched off prints nothing
  and never ends the process, so what follows Must or Fatalln runs although there is an error.\<close>

theorem Must_guards:
  "(c \<in> {NewConsole idea, defaultConsole} \<longrightarrow> after (Must T c err) k = (if err = None then k else (fst (Must T c err), True))
      \<and> length (fst (Must T c err)) = (if err = None then 0 else 1)
      \<and> Fatalln T c f a = (fst (Error T c f a), True))
   \<and> after (Must T (Color (NewColorConsole [False])) err) k = k \<and> after (Fatalln T (Color (NewColorConsole [False])) f a) k = k"
proof (intro conjI impI)
  assume c: "c \<in> {NewConsole idea, defaultConsole}"
  then consider "c = Idea" | "c = Color \<lparr>enable = True\<rparr>"
    using NewConsole_cases[of idea] by (auto simp: defaultConsole_def)
  then have "after (Must T c err) k = (if err = None then k else (fst (Must T c err), True))
      \<and> length (fst (Must T c err)) = (if err = None then 0 else 1) \<and> Fatalln T c f a = (fst (Error T c f a), True)"
  proof cases
    case 1
    then show ?thesis
      using plugin.must_then[of T err k] plugin.must_stops[of T err] plugin.must_lines[of T err] plugin.fatal[of T f a]
      by (simp add: prod_eq_iff)
  next
    case 2
    then show ?thesis
      using coloured.must_then[of T err k] coloured.must_stops[of T err] coloured.must_lines[of T err] coloured.fatal[of T f a]
      by (simp add: prod_eq_iff)
  qed
  then show "after (Must T c err) k = (if err = None then k else (fst (Must T c err), True))"
    "length (fst (Must T c err)) = (if err = None then 0 else 1)" "Fatalln T c f a = (fst (Error T c f a), True)"
    by blast+
qed (simp_all add: NewColorConsole_def color_Must_def color_Fatalln_def after_def quiet_def)

theorem Must_guards_witness:
  "after (Must \<lparr>sprintf = (\<lambda>f a. concat a), paint = (\<lambda>_ s. s), goos = ''linux''\<rparr> defaultConsole (Some ''no'')) (println ''on'') = ([''no''], True)"
proof -
  let ?T = "\<lparr>sprintf = (\<lambda>f a. concat a), paint = (\<lambda>_ s. s), goos = ''linux''\<rparr> :: string tty"
  have "fst (Must ?T defaultConsole (Some ''no'')) = [''no'']"
    by (simp add: defaultConsole_def color_Must_def color_Fatalln_def color_Error_def print_painted_line after_def exit_1_def)
  then show ?thesis
    using Must_guards[of defaultConsole True ?T "Some ''no''" "println ''on''"] by simp
qed

end
