(* ===== verification/Notifyx.thy ===== *)
theory Notifyx
  imports GoStrings Transition "HOL-Library.Multiset"
begin

text \<open>
  The package \<open>notifyx\<close> (\<open>notifyx/notifyx.go\<close>, \<open>mailx.go\<close>): a queue of 100 messages, the goroutine that
  hands them to the mail service, and the mail service. Templates and the dialer of gomail are
  arguments. The goroutines are steps on a state that remembers what was pushed and handled.
\<close>

section \<open>Messages\<close>

text \<open>A value that is no string has a text under the verb \<open>%s\<close>.\<close>

datatype mval = MString string | MOther string

type_synonym message = "string \<rightharpoonup> mval"

fun verb_s :: "mval \<Rightarrow> string" where
  "verb_s (MString s) = s"
| "verb_s (MOther t) = t"

record MailUser =
  Id :: string
  Username :: string
  Email :: string

record Option =
  Host :: string
  Port :: int64
  User :: string
  Password :: string
  MailUsers :: "MailUser list"
  Template :: string

record Mail =
  option :: "Option option"

definition NewMail :: "Option option \<Rightarrow> Mail" where
  "NewMail opt = \<lparr>option = opt\<rparr>"

definition InStringSlice :: "string list \<Rightarrow> string \<Rightarrow> bool" where
  "InStringSlice xs element = (\<exists>v \<in> set xs. trim_space v = trim_space element)"

section \<open>Mail\<close>

text \<open>\<open>render\<close> parses a template and executes it on the values of its fields; an error of the execution is
  dropped by the code, so only the text is given.\<close>

type_synonym template_lib = "string \<Rightarrow> (string \<times> mval option) list \<Rightarrow> string + string"

definition parseNotifyTemplate :: "template_lib \<Rightarrow> string \<Rightarrow> message \<Rightarrow> string" where
  "parseNotifyTemplate render notifyTemplate msg =
     (case render notifyTemplate
        [(''TaskId'', msg ''task_id''), (''TaskName'', msg ''name''), (''Status'', msg ''status''),
         (''Result'', msg ''output''), (''Remark'', msg ''remark'')] of
        Inl err \<Rightarrow> encode [35299, 26512, 36890, 30693, 27169, 26495, 22833, 36133] @ '': '' @ err
      | Inr buf \<Rightarrow> buf)"

definition getActiveMailUsers :: "Option \<Rightarrow> message \<Rightarrow> string list option" where
  "getActiveMailUsers opt msg =
     (case msg ''task_receiver_id'' of
        Some (MString ids) \<Rightarrow>
          (let taskReceiverIds = split_char (CHR '','') ids
           in Some (map Email (filter (\<lambda>v. InStringSlice taskReceiverIds (Id v)) (MailUsers opt))))
      | _ \<Rightarrow> None)"

record email =
  mail_from :: string
  mail_to :: "string list"
  subject :: string
  body :: string

text \<open>\<open>ok i\<close>: attempt \<open>i\<close> is accepted. The number of attempts made and whether the last one was accepted.\<close>

fun attempts :: "(nat \<Rightarrow> bool) \<Rightarrow> nat \<Rightarrow> nat \<Rightarrow> nat \<times> bool" where
  "attempts ok i 0 = (i, False)"
| "attempts ok i (Suc n) = (if ok i then (i + 1, True) else attempts ok (i + 1) n)"

datatype send_result = SendError string | SendPanic | Mailed email nat bool

definition send_mail :: "(nat \<Rightarrow> bool) \<Rightarrow> Option \<Rightarrow> string list \<Rightarrow> string \<Rightarrow> send_result" where
  "send_mail ok opt toUsers content =
     (let gomailMessage = \<lparr>mail_from = User opt, mail_to = toUsers,
            subject = ''gocron-'' @ encode [23450, 26102, 20219, 21153, 36890, 30693],
            body = replace None content [CHR 0x0A] ''<br>''\<rparr>
      in case attempts ok 0 3 of (n, sent) \<Rightarrow> Mailed gomailMessage n sent)"

definition missing :: "string \<Rightarrow> string" where
  "missing f = ''#mail#'' @ f @ encode [20026, 31354]"

definition Send :: "template_lib \<Rightarrow> (nat \<Rightarrow> bool) \<Rightarrow> Mail option \<Rightarrow> message \<Rightarrow> send_result" where
  "Send render ok m msg =
     (case Option.bind m option of
        None \<Rightarrow> SendPanic
      | Some opt \<Rightarrow>
          if Host opt = [] then SendError (missing ''Host'')
          else if Port opt = 0 then SendError (missing ''Port'')
          else if User opt = [] then SendError (missing ''User'')
          else if Password opt = [] then SendError (missing ''Password'')
          else (let content = parseNotifyTemplate render (Template opt) msg in
                case getActiveMailUsers opt (msg(''content'' \<mapsto> MString content)) of
                  None \<Rightarrow> SendPanic
                | Some toUsers \<Rightarrow> send_mail ok opt toUsers content))"

section \<open>The queue\<close>

datatype handled = Rejected | Ignored | StartMail message | TypePanic

definition run_content :: "message \<Rightarrow> string" where
  "run_content msg =
     (let t = (\<lambda>k. case msg k of Some v \<Rightarrow> verb_s v | None \<Rightarrow> []); bar = ''============'' @ [CHR 0x0A] in
      bar @ bar @ bar @ encode [20219, 21153, 21517, 31216] @ '': '' @ t ''name''
      @ [CHR 0x0A] @ encode [29366, 24577] @ '': '' @ t ''status''
      @ [CHR 0x0A] @ encode [36755, 20986] @ '':'' @ [CHR 0x0A] @ '' '' @ t ''output'' @ [CHR 0x0A])"

definition handle :: "message \<Rightarrow> handled" where
  "handle msg =
     (if msg ''task_type'' = None \<or> msg ''task_receiver_id'' = None \<or> msg ''name'' = None
         \<or> msg ''output'' = None \<or> msg ''status'' = None then Rejected
      else (case msg ''task_type'' of
              Some (MString taskType) \<Rightarrow>
                if taskType = ''mail'' then StartMail (msg(''content'' \<mapsto> MString (run_content msg))) else Ignored
            | _ \<Rightarrow> TypePanic))"

record nstate =
  queue :: "message list"
  outbox :: "message list"
  pushed :: "message list"
  done_msgs :: "message list"
  results :: "(message \<times> send_result) list"
  crashed :: bool

definition n_init :: "nstate \<Rightarrow> bool" where
  "n_init s \<longleftrightarrow> s = \<lparr>queue = [], outbox = [], pushed = [], done_msgs = [], results = [], crashed = False\<rparr>"

datatype nevent = Push message | Run | Deliver message

text \<open>A push into a full queue waits. A panic in any goroutine ends the program.\<close>

definition run_step :: "message \<Rightarrow> message list \<Rightarrow> nstate \<Rightarrow> nstate" where
  "run_step msg rest s =
     (let s = s\<lparr>queue := rest, done_msgs := done_msgs s @ [msg]\<rparr> in
      case handle msg of
        Rejected \<Rightarrow> s
      | Ignored \<Rightarrow> s
      | StartMail msg \<Rightarrow> s\<lparr>outbox := outbox s @ [msg]\<rparr>
      | TypePanic \<Rightarrow> s\<lparr>crashed := True\<rparr>)"

inductive nstep :: "(message \<Rightarrow> send_result) \<Rightarrow> nstate \<Rightarrow> nevent \<Rightarrow> nstate \<Rightarrow> bool" for send where
  n_push: "\<not> crashed s \<Longrightarrow> length (queue s) < 100
    \<Longrightarrow> nstep send s (Push msg) (s\<lparr>queue := queue s @ [msg], pushed := pushed s @ [msg]\<rparr>)"
| n_run: "\<not> crashed s \<Longrightarrow> queue s = msg # rest \<Longrightarrow> nstep send s Run (run_step msg rest s)"
| n_deliver: "\<not> crashed s \<Longrightarrow> outbox s = xs @ msg # ys
    \<Longrightarrow> nstep send s (Deliver msg) (s\<lparr>outbox := xs @ ys, results := results s @ [(msg, send msg)],
          crashed := (send msg = SendPanic)\<rparr>)"

inductive_cases nstepE: "nstep send s e s'"

definition mails_of :: "message list \<Rightarrow> message list" where
  "mails_of ms = concat (map (\<lambda>m. case handle m of StartMail m' \<Rightarrow> [m'] | _ \<Rightarrow> []) ms)"

definition n_inv :: "(message \<Rightarrow> send_result) \<Rightarrow> nstate \<Rightarrow> bool" where
  "n_inv send s \<longleftrightarrow> length (queue s) \<le> 100 \<and> pushed s = done_msgs s @ queue s
     \<and> mset (outbox s) + mset (map fst (results s)) = mset (mails_of (done_msgs s))
     \<and> (\<forall>(m, r) \<in> set (results s). r = send m)
     \<and> (crashed s \<longleftrightarrow> (\<exists>m \<in> set (done_msgs s). handle m = TypePanic) \<or> (\<exists>(m, r) \<in> set (results s). r = SendPanic))"

lemma mails_of_snoc [simp]: "mails_of (ms @ [m]) = mails_of ms @ (case handle m of StartMail m' \<Rightarrow> [m'] | _ \<Rightarrow> [])"
  by (simp add: mails_of_def)

lemma n_inv_step: "n_inv send s \<Longrightarrow> nstep send s e s' \<Longrightarrow> n_inv send s'"
proof (erule nstepE)
  assume i: "n_inv send s"
  { fix msg assume "s' = s\<lparr>queue := queue s @ [msg], pushed := pushed s @ [msg]\<rparr>" "length (queue s) < 100"
    then show "n_inv send s'" using i by (simp add: n_inv_def) }
  { fix msg rest assume "s' = run_step msg rest s" "queue s = msg # rest" "\<not> crashed s"
    then show "n_inv send s'" using i
      by (auto simp: n_inv_def run_step_def Let_def split: handled.split) }
  { fix msg xs ys
    assume "s' = s\<lparr>outbox := xs @ ys, results := results s @ [(msg, send msg)], crashed := (send msg = SendPanic)\<rparr>"
      "outbox s = xs @ msg # ys" "\<not> crashed s"
    then show "n_inv send s'" using i by (auto simp: n_inv_def) }
qed

interpretation notify: step_invariant n_init "nstep send" "n_inv send" for send
  by unfold_locales (simp add: n_init_def n_inv_def mails_of_def, rule n_inv_step)

section \<open>Every message is handled\<close>

text \<open>A message that cannot end the program.\<close>

definition harmless :: "(message \<Rightarrow> send_result) \<Rightarrow> message \<Rightarrow> bool" where
  "harmless send m \<longleftrightarrow> (case handle m of TypePanic \<Rightarrow> False | StartMail m' \<Rightarrow> send m' \<noteq> SendPanic | _ \<Rightarrow> True)"

lemma deliver_all:
  assumes "\<not> crashed s" "\<forall>m \<in> set (outbox s). send m \<noteq> SendPanic"
  shows "\<exists>t. steps (nstep send) s t \<and> \<not> crashed t \<and> outbox t = [] \<and> queue t = queue s \<and> done_msgs t = done_msgs s"
  using assms
proof (induction "outbox s" arbitrary: s)
  case Nil
  then show ?case by (intro exI[of _ s]) (simp add: steps_refl)
next
  case (Cons m ms)
  let ?s = "s\<lparr>outbox := [] @ ms, results := results s @ [(m, send m)], crashed := (send m = SendPanic)\<rparr>"
  have st: "nstep send s (Deliver m) ?s"
    by (rule n_deliver) (use Cons.prems Cons.hyps(2)[symmetric] in simp_all)
  have "send m \<noteq> SendPanic" "\<forall>m \<in> set ms. send m \<noteq> SendPanic" using Cons.prems(2) Cons.hyps(2)[symmetric] by auto
  then obtain t where t: "steps (nstep send) ?s t" "\<not> crashed t" "outbox t = []" "queue t = queue s" "done_msgs t = done_msgs s"
    using Cons.hyps(1)[of ?s] by auto
  have "steps (nstep send) s t" by (rule steps_first[OF st t(1)])
  then show ?case using t by blast
qed

lemma run_all:
  assumes "\<not> crashed s" "\<forall>m \<in> set (queue s). harmless send m" "\<forall>m \<in> set (outbox s). send m \<noteq> SendPanic"
  shows "\<exists>t. steps (nstep send) s t \<and> \<not> crashed t \<and> queue t = [] \<and> outbox t = [] \<and> done_msgs t = done_msgs s @ queue s"
  using assms
proof (induction "queue s" arbitrary: s)
  case Nil
  then show ?case using deliver_all[of s send] by auto
next
  case (Cons m ms)
  let ?s = "run_step m ms s"
  have st: "nstep send s Run ?s" by (rule n_run) (use Cons.prems Cons.hyps(2)[symmetric] in simp_all)
  have "harmless send m" using Cons.prems(2) Cons.hyps(2)[symmetric] by auto
  then have "queue ?s = ms" "\<not> crashed ?s" "done_msgs ?s = done_msgs s @ [m]" "\<forall>m \<in> set (outbox ?s). send m \<noteq> SendPanic"
    using Cons.prems by (auto simp: run_step_def Let_def harmless_def split: handled.splits)
  moreover have "\<forall>m \<in> set ms. harmless send m" using Cons.prems(2) Cons.hyps(2)[symmetric] by auto
  ultimately obtain t where t: "steps (nstep send) ?s t" "\<not> crashed t" "queue t = []" "outbox t = []"
    "done_msgs t = (done_msgs s @ [m]) @ ms"
    using Cons.hyps(1)[of ?s] by auto
  have "steps (nstep send) s t" by (rule steps_first[OF st t(1)])
  then show ?case using t Cons.hyps(2)[symmetric] by (intro exI[of _ t]) simp
qed

section \<open>Properties\<close>

text \<open>C36. The queue never holds more than 100 messages and loses none: what was pushed is what was handled, in
  order, and what waits. From every state in which no message can end the program, every waiting
  message can be handled and every mail sent without a further push, and then exactly the mails of the
  messages have been tried, each once. A message whose task type is no string ends the program when its
  turn comes.\<close>

theorem every_message_handled:
  assumes "reach n_init (nstep send) s" "\<forall>m \<in> set (pushed s). harmless send m"
  shows "length (queue s) \<le> 100 \<and> pushed s = done_msgs s @ queue s \<and> \<not> crashed s
    \<and> (\<exists>t. steps (nstep send) s t \<and> \<not> crashed t \<and> queue t = [] \<and> outbox t = [] \<and> done_msgs t = pushed s
         \<and> mset (map fst (results t)) = mset (mails_of (pushed s)))"
proof -
  have i: "n_inv send s" by (rule notify.reach_inv[OF assms(1)])
  have out: "\<forall>m \<in> set (outbox s). send m \<noteq> SendPanic" "\<forall>(m, r) \<in> set (results s). r \<noteq> SendPanic"
  proof -
    have np: "send m' \<noteq> SendPanic" if m': "m' \<in> set (mails_of (done_msgs s))" for m'
    proof -
      obtain m where m: "m \<in> set (done_msgs s)" "handle m = StartMail m'"
        using m' by (auto simp: mails_of_def split: handled.splits)
      then have "harmless send m" using assms(2) i by (simp add: n_inv_def)
      then show ?thesis using m(2) by (simp add: harmless_def)
    qed
    have "mset (outbox s) + mset (map fst (results s)) = mset (mails_of (done_msgs s))" using i by (simp add: n_inv_def)
    then have "set_mset (mset (outbox s) + mset (map fst (results s))) = set_mset (mset (mails_of (done_msgs s)))" by simp
    then have sub: "set (outbox s) \<subseteq> set (mails_of (done_msgs s))" "fst ` set (results s) \<subseteq> set (mails_of (done_msgs s))"
      by auto
    show "\<forall>m \<in> set (outbox s). send m \<noteq> SendPanic" using sub(1) np by blast
    have "\<forall>(m, r) \<in> set (results s). r = send m" using i by (simp add: n_inv_def)
    then show "\<forall>(m, r) \<in> set (results s). r \<noteq> SendPanic" using sub(2) np by fastforce
  qed
  have nc: "\<not> crashed s" using i out(2) assms(2) by (auto simp: n_inv_def harmless_def split: handled.splits)
  have "\<forall>m \<in> set (queue s). harmless send m" using assms(2) i by (auto simp: n_inv_def)
  from run_all[OF nc this out(1)] obtain t where t: "steps (nstep send) s t" "\<not> crashed t" "queue t = []" "outbox t = []"
    "done_msgs t = done_msgs s @ queue s" by blast
  have "n_inv send t" using t(1) i by (induction rule: steps.induct) (auto intro: n_inv_step)
  then have "mset (map fst (results t)) = mset (mails_of (pushed s))" using t i by (simp add: n_inv_def)
  then show ?thesis using i nc t by (auto simp: n_inv_def)
qed

definition two_users :: Option where
  "two_users = \<lparr>Host = ''h'', Port = 25, User = ''u'', Password = ''p'',
     MailUsers = [\<lparr>Id = ''1'', Username = ''a'', Email = ''a@x''\<rparr>, \<lparr>Id = ''2'', Username = ''b'', Email = ''b@x''\<rparr>], Template = ''t''\<rparr>"

definition mail_msg :: message where
  "mail_msg = [''task_type'' \<mapsto> MString ''mail'', ''task_receiver_id'' \<mapsto> MString ''2, 3'', ''name'' \<mapsto> MString ''n'',
     ''output'' \<mapsto> MString ''o'', ''status'' \<mapsto> MString ''s'']"

theorem every_message_handled_witness:
  "\<exists>s t. reach n_init (nstep (Send (\<lambda>_ _. Inr []) (\<lambda>i. i = 1) (Some (NewMail (Some two_users))))) s \<and> pushed s = [mail_msg]
     \<and> steps (nstep (Send (\<lambda>_ _. Inr []) (\<lambda>i. i = 1) (Some (NewMail (Some two_users))))) s t
     \<and> mset (map fst (results t)) = {#mail_msg(''content'' \<mapsto> MString (run_content mail_msg))#}"
proof -
  let ?send = "Send (\<lambda>_ _. Inr []) (\<lambda>i. i = 1) (Some (NewMail (Some two_users)))"
  let ?start = "\<lparr>queue = [], outbox = [], pushed = [], done_msgs = [], results = [], crashed = False\<rparr> :: nstate"
  let ?s = "?start\<lparr>queue := queue ?start @ [mail_msg], pushed := pushed ?start @ [mail_msg]\<rparr>"
  have st: "nstep ?send ?start (Push mail_msg) ?s" by (rule n_push) simp_all
  have r0: "reach n_init (nstep ?send) ?start" by (rule reach_init) (simp add: n_init_def)
  have r: "reach n_init (nstep ?send) ?s" by (rule reach_step[where step = "nstep ?send", OF r0 st])
  have h: "handle mail_msg = StartMail (mail_msg(''content'' \<mapsto> MString (run_content mail_msg)))"
    by (simp add: handle_def mail_msg_def)
  have p: "\<forall>m \<in> set (pushed ?s). harmless ?send m"
    using h by (simp add: harmless_def Send_def NewMail_def two_users_def getActiveMailUsers_def mail_msg_def send_mail_def Let_def
        split: prod.split)
  have mm: "mails_of [mail_msg] = [mail_msg(''content'' \<mapsto> MString (run_content mail_msg))]"
    by (simp add: mails_of_def h)
  obtain t where "steps (nstep ?send) ?s t" "mset (map fst (results t)) = mset (mails_of (pushed ?s))"
    using every_message_handled[OF r p] by blast
  moreover have "pushed ?s = [mail_msg]" by simp
  ultimately show ?thesis using r mm by (intro exI[of _ ?s] exI[of _ t]) simp
qed

text \<open>The mail service tries at most three times and stops at the first success; it reports no error when all
  attempts failed. The recipients are the users whose id is in the list of the message.\<close>

lemma three_attempts:
  "attempts ok 0 3 = (if ok 0 then (1, True) else if ok 1 then (2, True) else (3, ok 2))"
  by (simp add: numeral_3_eq_3 numeral_2_eq_2)

theorem Send_outcome:
  assumes "Host opt \<noteq> []" "Port opt \<noteq> 0" "User opt \<noteq> []" "Password opt \<noteq> []" "msg ''task_receiver_id'' = Some (MString ids)"
  shows "\<exists>mail n. Send render ok (Some \<lparr>option = Some opt\<rparr>) msg = Mailed mail n (ok 0 \<or> ok 1 \<or> ok 2) \<and> 1 \<le> n \<and> n \<le> 3
    \<and> mail_to mail = map Email (filter (\<lambda>v. InStringSlice (split_char (CHR '','') ids) (Id v)) (MailUsers opt))"
proof -
  have "getActiveMailUsers opt (msg(''content'' \<mapsto> MString c))
      = Some (map Email (filter (\<lambda>v. InStringSlice (split_char (CHR '','') ids) (Id v)) (MailUsers opt)))" for c
    using assms(5) by (simp add: getActiveMailUsers_def)
  then show ?thesis using assms(1-4) by (simp add: Send_def send_mail_def Let_def three_attempts)
qed

theorem program_ends:
  "handle (mail_msg(''task_type'' \<mapsto> MOther t)) = TypePanic"
  "Send render ok None msg = SendPanic"
  by (simp_all add: handle_def mail_msg_def Send_def)

end
