(* ===== verification/Httpx.thy ===== *)
theory Httpx
  imports GoStrings
begin

text \<open>
  The package \<open>httpclent\<close> (\<open>httpclent/clent.go\<close>, \<open>ctx.go\<close>). The transport of \<open>net/http\<close> is an argument: it
  refuses a request when it is made, or answers it within a time limit; a limit that is not positive is
  none. A header maps canonical names to values.
\<close>

section \<open>Requests\<close>

text \<open>The canonical form of a header name: capitals at the start and after a hyphen.\<close>

fun canonical_key :: "bool \<Rightarrow> string \<Rightarrow> string" where
  "canonical_key up [] = []"
| "canonical_key up (c # s) = (if up then up_char c else down_char c) # canonical_key (c = CHR ''-'') s"

type_synonym header = "string \<rightharpoonup> string list"

definition header_set :: "string \<Rightarrow> string \<Rightarrow> header \<Rightarrow> header" where
  "header_set k v h = h(canonical_key True k \<mapsto> [v])"

record 'c request =
  context_of :: 'c
  verb :: string
  url :: string
  payload :: string
  headers :: header

record 'e reply =
  status :: int64
  content :: "'e + string"
  reply_headers :: header

record ('c, 'e) net =
  background :: 'c
  refused :: "'c \<Rightarrow> string \<Rightarrow> string \<Rightarrow> 'e option"
  round_trip :: "'c request \<Rightarrow> int64 \<Rightarrow> 'e + 'e reply"
  err_text :: "'e \<Rightarrow> string"

definition NewRequest :: "('c, 'e) net \<Rightarrow> 'c \<Rightarrow> string \<Rightarrow> string \<Rightarrow> string \<Rightarrow> 'e + 'c request" where
  "NewRequest N ctx m u b =
     (case refused N ctx m u of
        Some e \<Rightarrow> Inl e
      | None \<Rightarrow> Inr \<lparr>context_of = ctx, verb = m, url = u, payload = b, headers = Map.empty\<rparr>)"

section \<open>The client\<close>

record 'e ResponseWrapper =
  StatusCode :: int64
  Body :: string
  Header :: header
  Error :: "'e option"

definition createRequestError :: "('c, 'e) net \<Rightarrow> 'e \<Rightarrow> 'e ResponseWrapper" where
  "createRequestError N err =
     \<lparr>StatusCode = 0, Body = ''HTTP'' @ encode [35831, 27714, 38169, 35823] @ ''-'' @ err_text N err,
      Header = Map.empty, Error = Some err\<rparr>"

definition setRequestHeader :: "'c request \<Rightarrow> 'c request" where
  "setRequestHeader req = req\<lparr>headers := header_set ''User-Agent'' ''golang/gocron'' (headers req)\<rparr>"

text \<open>\<open>time.Second\<close> is a billion nanoseconds; the product is one of 64-bit integers.\<close>

definition client_timeout :: "int64 \<Rightarrow> int64" where
  "client_timeout timeout = (if 0 < sint timeout then timeout * 1000000000 else 0)"

definition do_request :: "('c, 'e) net \<Rightarrow> 'c request \<Rightarrow> int64 \<Rightarrow> 'e ResponseWrapper" where
  "do_request N req timeout =
     (let wrapper = \<lparr>StatusCode = 0, Body = [], Header = Map.empty, Error = None\<rparr> in
      case round_trip N (setRequestHeader req) (client_timeout timeout) of
        Inl err \<Rightarrow>
          wrapper\<lparr>Body := encode [25191, 34892] @ ''HTTP'' @ encode [35831, 27714, 38169, 35823] @ ''-'' @ err_text N err,
                  Error := Some err\<rparr>
      | Inr resp \<Rightarrow>
          (case content resp of
             Inl err \<Rightarrow>
               wrapper\<lparr>Body := encode [35835, 21462] @ ''HTTP'' @ encode [35831, 27714, 36820, 22238, 20540, 22833, 36133]
                         @ ''-'' @ err_text N err,
                       Error := Some err\<rparr>
           | Inr body \<Rightarrow> wrapper\<lparr>StatusCode := status resp, Body := body, Header := reply_headers resp\<rparr>))"

definition GetWithContext :: "('c, 'e) net \<Rightarrow> 'c \<Rightarrow> string \<Rightarrow> int64 \<Rightarrow> 'e ResponseWrapper" where
  "GetWithContext N ctx u timeout =
     (case NewRequest N ctx ''GET'' u [] of
        Inl err \<Rightarrow> createRequestError N err
      | Inr req \<Rightarrow> do_request N req timeout)"

definition PostParamsWithContext :: "('c, 'e) net \<Rightarrow> 'c \<Rightarrow> string \<Rightarrow> string \<Rightarrow> int64 \<Rightarrow> 'e ResponseWrapper" where
  "PostParamsWithContext N ctx u params timeout =
     (case NewRequest N ctx ''POST'' u params of
        Inl err \<Rightarrow> createRequestError N err
      | Inr req \<Rightarrow> do_request N
          (req\<lparr>headers := header_set ''Content-type'' ''application/x-www-form-urlencoded'' (headers req)\<rparr>) timeout)"

definition PostJsonWithContext :: "('c, 'e) net \<Rightarrow> 'c \<Rightarrow> string \<Rightarrow> string \<Rightarrow> int64 \<Rightarrow> 'e ResponseWrapper" where
  "PostJsonWithContext N ctx u body timeout =
     (case NewRequest N ctx ''POST'' u body of
        Inl err \<Rightarrow> createRequestError N err
      | Inr req \<Rightarrow> do_request N (req\<lparr>headers := header_set ''Content-type'' ''application/json'' (headers req)\<rparr>) timeout)"

text \<open>Without a context a request gets the background context.\<close>

definition Get :: "('c, 'e) net \<Rightarrow> string \<Rightarrow> int64 \<Rightarrow> 'e ResponseWrapper" where
  "Get N u timeout =
     (case NewRequest N (background N) ''GET'' u [] of
        Inl err \<Rightarrow> createRequestError N err
      | Inr req \<Rightarrow> do_request N req timeout)"

definition PostParams :: "('c, 'e) net \<Rightarrow> string \<Rightarrow> string \<Rightarrow> int64 \<Rightarrow> 'e ResponseWrapper" where
  "PostParams N u params timeout =
     (case NewRequest N (background N) ''POST'' u params of
        Inl err \<Rightarrow> createRequestError N err
      | Inr req \<Rightarrow> do_request N
          (req\<lparr>headers := header_set ''Content-type'' ''application/x-www-form-urlencoded'' (headers req)\<rparr>) timeout)"

definition PostJson :: "('c, 'e) net \<Rightarrow> string \<Rightarrow> string \<Rightarrow> int64 \<Rightarrow> 'e ResponseWrapper" where
  "PostJson N u body timeout =
     (case NewRequest N (background N) ''POST'' u body of
        Inl err \<Rightarrow> createRequestError N err
      | Inr req \<Rightarrow> do_request N (req\<lparr>headers := header_set ''Content-type'' ''application/json'' (headers req)\<rparr>) timeout)"

section \<open>Properties\<close>

text \<open>C37. The client limits a request to the given number of seconds when that number is positive and at most
  9223372036. Beyond that the product with a second wraps around: ten seconds given as a duration, ten
  billion nanoseconds, become a negative limit, which is none.\<close>

theorem client_timeout_bounds:
  "(0 < sint t \<and> sint t \<le> 9223372036 \<longrightarrow> sint (client_timeout t) = sint t * 1000000000)
   \<and> (sint t \<le> 0 \<longrightarrow> client_timeout t = 0)
   \<and> sint (client_timeout 10000000000) < 0"
proof (intro conjI impI)
  assume t: "0 < sint t \<and> sint t \<le> 9223372036"
  have b: "sint (1000000000 :: int64) = 1000000000" by simp
  have "sint (t * 1000000000) = sint t * sint (1000000000 :: int64)"
    by (rule sint_mult64) (use t in \<open>simp_all add: b\<close>)
  then show "sint (client_timeout t) = sint t * 1000000000" using t by (simp add: client_timeout_def b)
qed (simp_all add: client_timeout_def)

theorem client_timeout_bounds_witness: "sint (client_timeout 30) = 30000000000"
  using client_timeout_bounds[of 30] by simp

text \<open>A reply is passed on as it is, with no error, when the request could be made, was answered and its body
  could be read; in every other case the status is 0 and the error is the one that occurred. The
  request that is sent carries the agent and, for a post, the kind of its content.\<close>

theorem PostJson_result:
  defines "hs \<equiv> [''Content-Type'' \<mapsto> [''application/json''], ''User-Agent'' \<mapsto> [''golang/gocron'']]"
  shows "Error (PostJsonWithContext N ctx u b t) = None \<longleftrightarrow>
      refused N ctx ''POST'' u = None
      \<and> (\<exists>r. round_trip N \<lparr>context_of = ctx, verb = ''POST'', url = u, payload = b, headers = hs\<rparr> (client_timeout t) = Inr r
           \<and> (\<exists>c. content r = Inr c
                \<and> PostJsonWithContext N ctx u b t = \<lparr>StatusCode = status r, Body = c, Header = reply_headers r, Error = None\<rparr>))"
    "Error (PostJsonWithContext N ctx u b t) \<noteq> None \<Longrightarrow> StatusCode (PostJsonWithContext N ctx u b t) = 0"
    "PostJson N u b t = PostJsonWithContext N (background N) u b t"
    "PostParams N u b t = PostParamsWithContext N (background N) u b t" "Get N u t = GetWithContext N (background N) u t"
proof -
  have k: "canonical_key True ''Content-type'' = ''Content-Type''" "canonical_key True ''User-Agent'' = ''User-Agent''"
    by code_simp+
  have h: "header_set ''User-Agent'' ''golang/gocron'' (header_set ''Content-type'' ''application/json'' Map.empty) = hs"
    by (simp add: header_set_def k hs_def del: canonical_key.simps)
  show "Error (PostJsonWithContext N ctx u b t) = None \<longleftrightarrow>
      refused N ctx ''POST'' u = None
      \<and> (\<exists>r. round_trip N \<lparr>context_of = ctx, verb = ''POST'', url = u, payload = b, headers = hs\<rparr> (client_timeout t) = Inr r
           \<and> (\<exists>c. content r = Inr c
                \<and> PostJsonWithContext N ctx u b t = \<lparr>StatusCode = status r, Body = c, Header = reply_headers r, Error = None\<rparr>))"
    by (auto simp: PostJsonWithContext_def NewRequest_def createRequestError_def do_request_def setRequestHeader_def h Let_def
        split: option.split sum.split)
  show "Error (PostJsonWithContext N ctx u b t) \<noteq> None \<Longrightarrow> StatusCode (PostJsonWithContext N ctx u b t) = 0"
    by (auto simp: PostJsonWithContext_def NewRequest_def createRequestError_def do_request_def Let_def
        split: option.splits sum.splits)
qed (simp_all add: PostJson_def PostJsonWithContext_def PostParams_def PostParamsWithContext_def Get_def GetWithContext_def)

end
