(* ===== verification/Shellx.thy ===== *)
theory Shellx
  imports GoStrings Transition
begin

text \<open>
  Running a command with a time limit: \<open>shellx/cmd_nowin.go\<close>, \<open>shellx/cmd_win.go\<close>, \<open>utils/sehllx_nowin.go\<close>,
  \<open>utils/shellx_win.go\<close>. The goroutine that runs the command, the process and the caller are steps on a
  state. The process ends with some output and perhaps an error, by itself or because it is killed.
\<close>

section \<open>The shell\<close>

definition FindShell :: "(string \<Rightarrow> string + string) \<Rightarrow> string + string" where
  "FindShell lookPath =
     (case lookPath ''bash'' of
        Inr bashPath \<Rightarrow> Inr bashPath
      | Inl _ \<Rightarrow>
          (case lookPath ''sh'' of
             Inl err \<Rightarrow> Inl (''neither bash nor sh found on the system: '' @ err)
           | Inr shPath \<Rightarrow> Inr shPath))"

section \<open>States\<close>

text \<open>\<open>Killed\<close> is a process that got the signal and has not been waited for.\<close>

datatype process = NotStarted | Running | Killed | Exited

datatype 'r child = Working | Holding 'r | ChildDone

datatype 'r caller = Waiting | Draining | Returned 'r | DeadlineExceeded | NilPanic

record 'r shell =
  proc :: process
  child_at :: "'r child"
  chan :: "'r option"
  caller_at :: "'r caller"
  ctx_done :: bool

definition sh_ready :: "'r shell" where
  "sh_ready = \<lparr>proc = NotStarted, child_at = Working, chan = None, caller_at = Waiting, ctx_done = False\<rparr>"

definition sh_init :: "'r shell \<Rightarrow> bool" where
  "sh_init s \<longleftrightarrow> s = sh_ready"

text \<open>\<open>ExecShell\<close> of \<open>shellx\<close> returns the error of \<open>FindShell\<close>; otherwise it has the command line and starts.\<close>

definition shellx_start :: "(string \<Rightarrow> string + string) \<Rightarrow> string \<Rightarrow> string + string list \<times> 'r shell" where
  "shellx_start lookPath command =
     (case FindShell lookPath of
        Inl err \<Rightarrow> Inl err
      | Inr shellPath \<Rightarrow> Inr ([shellPath, ''-c'', command], sh_ready))"

datatype 'r sh_event = CtxDone | Start | FailStart 'r | Exit 'r | Send | Receive | Timeout | Finish

definition kill :: "process \<Rightarrow> process" where
  "kill p = (if p = Running then Killed else p)"

section \<open>The goroutine of the command\<close>

text \<open>\<open>CombinedOutput\<close> starts the process and waits for it; it fails when the process cannot be started.\<close>

inductive run_command :: "'r shell \<Rightarrow> 'r sh_event \<Rightarrow> 'r shell \<Rightarrow> bool" where
  "\<not> ctx_done s \<Longrightarrow> run_command s CtxDone (s\<lparr>ctx_done := True\<rparr>)"
| "child_at s = Working \<Longrightarrow> proc s = NotStarted \<Longrightarrow> run_command s Start (s\<lparr>proc := Running\<rparr>)"
| "child_at s = Working \<Longrightarrow> proc s = NotStarted \<Longrightarrow> run_command s (FailStart r) (s\<lparr>child_at := Holding r\<rparr>)"
| "child_at s = Working \<Longrightarrow> proc s \<in> {Running, Killed} \<Longrightarrow> run_command s (Exit r) (s\<lparr>proc := Exited, child_at := Holding r\<rparr>)"

inductive_cases run_commandE: "run_command s e s'"

section \<open>shellx, not Windows\<close>

text \<open>The channel has room for one result. When the context ends first, a process that has started is killed.\<close>

inductive shellx_step :: "'r shell \<Rightarrow> 'r sh_event \<Rightarrow> 'r shell \<Rightarrow> bool" where
  sx_command: "run_command s e s' \<Longrightarrow> shellx_step s e s'"
| sx_send: "child_at s = Holding r \<Longrightarrow> chan s = None \<Longrightarrow> shellx_step s Send (s\<lparr>child_at := ChildDone, chan := Some r\<rparr>)"
| sx_drop: "child_at s = Holding r \<Longrightarrow> chan s \<noteq> None \<Longrightarrow> shellx_step s Send (s\<lparr>child_at := ChildDone\<rparr>)"
| sx_receive: "caller_at s = Waiting \<Longrightarrow> chan s = Some r \<Longrightarrow> shellx_step s Receive (s\<lparr>chan := None, caller_at := Returned r\<rparr>)"
| sx_timeout: "caller_at s = Waiting \<Longrightarrow> ctx_done s
    \<Longrightarrow> shellx_step s Timeout (s\<lparr>proc := kill (proc s), caller_at := DeadlineExceeded\<rparr>)"

inductive_cases shellx_stepE: "shellx_step s e s'"

section \<open>utils\<close>

text \<open>The channel has no room, so a result goes over only while the caller waits for it. The process is not tested
  for nil before it is killed; it is nil as long as the command has not been started.\<close>

inductive utils_step :: "'r shell \<Rightarrow> 'r sh_event \<Rightarrow> 'r shell \<Rightarrow> bool" where
  ut_command: "run_command s e s' \<Longrightarrow> utils_step s e s'"
| ut_send: "child_at s = Holding r \<Longrightarrow> caller_at s = Waiting \<Longrightarrow> utils_step s Send (s\<lparr>child_at := ChildDone, caller_at := Returned r\<rparr>)"
| ut_timeout: "caller_at s = Waiting \<Longrightarrow> ctx_done s
    \<Longrightarrow> utils_step s Timeout (s\<lparr>proc := kill (proc s),
          caller_at := (if proc s = NotStarted then NilPanic else DeadlineExceeded)\<rparr>)"

inductive_cases utils_stepE: "utils_step s e s'"

text \<open>On Windows the process is ended by the program \<open>taskkill\<close>, which may fail, and then by \<open>Kill\<close>.\<close>

definition taskkill :: "bool \<Rightarrow> process \<Rightarrow> process" where
  "taskkill ok p = (if ok then kill p else p)"

inductive utils_win_step :: "'r shell \<Rightarrow> 'r sh_event \<Rightarrow> 'r shell \<Rightarrow> bool" where
  uw_command: "run_command s e s' \<Longrightarrow> utils_win_step s e s'"
| uw_send: "child_at s = Holding r \<Longrightarrow> caller_at s = Waiting \<Longrightarrow> utils_win_step s Send (s\<lparr>child_at := ChildDone, caller_at := Returned r\<rparr>)"
| uw_timeout: "caller_at s = Waiting \<Longrightarrow> ctx_done s
    \<Longrightarrow> utils_win_step s Timeout (s\<lparr>proc := kill (taskkill ok (proc s)),
          caller_at := (if proc s = NotStarted then NilPanic else DeadlineExceeded)\<rparr>)"

lemma kill_taskkill [simp]: "kill (taskkill ok p) = kill p"
  by (simp add: taskkill_def kill_def)

text \<open>Both versions have the same steps.\<close>

lemma utils_win_same: "utils_win_step s e s' = utils_step s e s'"
  by (auto simp: utils_win_step.simps utils_step.simps)

section \<open>shellx, Windows\<close>

text \<open>The command is started before the goroutine that waits for it, and after a timeout the caller waits until
  the killed process is gone. An empty command is refused; the output is converted.\<close>

definition win_start :: "string \<Rightarrow> 'e option \<Rightarrow> 'e \<Rightarrow> 'e + 'r shell" where
  "win_start command start_error empty_error =
     (if length command = 0 then Inl empty_error
      else (case start_error of
              Some e \<Rightarrow> Inl e
            | None \<Rightarrow> Inr \<lparr>proc = Running, child_at = Working, chan = None, caller_at = Waiting, ctx_done = False\<rparr>))"

inductive win_step :: "'r shell \<Rightarrow> 'r sh_event \<Rightarrow> 'r shell \<Rightarrow> bool" where
  wi_ctx: "\<not> ctx_done s \<Longrightarrow> win_step s CtxDone (s\<lparr>ctx_done := True\<rparr>)"
| wi_exit: "child_at s = Working \<Longrightarrow> proc s \<in> {Running, Killed} \<Longrightarrow> win_step s (Exit r) (s\<lparr>proc := Exited, child_at := Holding r\<rparr>)"
| wi_send: "child_at s = Holding r \<Longrightarrow> chan s = None \<Longrightarrow> win_step s Send (s\<lparr>child_at := ChildDone, chan := Some r\<rparr>)"
| wi_receive: "caller_at s = Waiting \<Longrightarrow> chan s = Some r \<Longrightarrow> win_step s Receive (s\<lparr>chan := None, caller_at := Returned r\<rparr>)"
| wi_timeout: "caller_at s = Waiting \<Longrightarrow> ctx_done s \<Longrightarrow> win_step s Timeout (s\<lparr>proc := kill (proc s), caller_at := Draining\<rparr>)"
| wi_finish: "caller_at s = Draining \<Longrightarrow> chan s = Some r \<Longrightarrow> win_step s Finish (s\<lparr>chan := None, caller_at := DeadlineExceeded\<rparr>)"

inductive_cases win_stepE: "win_step s e s'"

definition ConvertEncoding :: "(string \<Rightarrow> string \<times> bool) \<Rightarrow> string \<Rightarrow> string" where
  "ConvertEncoding gbk outputGBK =
     (case gbk outputGBK of (outputUTF8, ok) \<Rightarrow> if ok then outputUTF8 else outputGBK)"

definition utils_ConvertEncoding :: "string \<Rightarrow> string" where
  "utils_ConvertEncoding outputGBK = outputGBK"

section \<open>Formatting in the background\<close>

text \<open>\<open>FmtCode\<close> of \<open>filex/file.go\<close> starts \<open>gofmt -w\<close> and returns; a goroutine waits for the process and writes its
  error to the same variable that is the result of the function.\<close>

record 'e fmt =
  fm_proc :: process
  fm_err :: "'e option"
  fm_result :: "'e option option"

definition fmt_command :: "string \<Rightarrow> string list" where
  "fmt_command f = [''gofmt'', ''-w'', f]"

definition fmt_start :: "'e option \<Rightarrow> 'e fmt" where
  "fmt_start start_error =
     (case start_error of
        Some e \<Rightarrow> \<lparr>fm_proc = NotStarted, fm_err = Some e, fm_result = Some (Some e)\<rparr>
      | None \<Rightarrow> \<lparr>fm_proc = Running, fm_err = None, fm_result = None\<rparr>)"

datatype 'e fm_event = FmtExit "'e option" | FmtReturn

inductive fmt_step :: "'e fmt \<Rightarrow> 'e fm_event \<Rightarrow> 'e fmt \<Rightarrow> bool" where
  fm_exit: "fm_proc s = Running \<Longrightarrow> fmt_step s (FmtExit e) (s\<lparr>fm_proc := Exited, fm_err := e\<rparr>)"
| fm_return: "fm_result s = None \<Longrightarrow> fmt_step s FmtReturn (s\<lparr>fm_result := Some (fm_err s)\<rparr>)"

inductive_cases fmt_stepE: "fmt_step s e s'"

text \<open>What the caller gets: the output and the error, or the error of the deadline.\<close>

definition shell_result :: "(string \<Rightarrow> string) \<Rightarrow> 'e \<Rightarrow> (string \<times> 'e option) caller \<Rightarrow> (string \<times> 'e option) option" where
  "shell_result conv deadline c =
     (case c of
        Returned (out, err) \<Rightarrow> Some (conv out, err)
      | DeadlineExceeded \<Rightarrow> Some ([], Some deadline)
      | _ \<Rightarrow> None)"

section \<open>Invariants\<close>

definition fm_inv :: "'e fmt \<Rightarrow> bool" where
  "fm_inv s \<longleftrightarrow> (fm_proc s = Running \<longrightarrow> fm_err s = None \<and> fm_result s \<in> {None, Some None})
     \<and> fm_result s \<in> {None, Some None, Some (fm_err s)}"

lemma fm_inv_step: "fm_inv s \<Longrightarrow> fmt_step s e s' \<Longrightarrow> fm_inv s'"
  by (erule fmt_stepE) (auto simp: fm_inv_def)

lemma fm_inv_start: "fm_inv (fmt_start e)"
  by (cases e) (simp_all add: fm_inv_def fmt_start_def)

interpretation fmtcode: step_invariant "\<lambda>s. \<exists>e. s = fmt_start e" fmt_step fm_inv
  by unfold_locales (use fm_inv_start in blast, rule fm_inv_step)

text \<open>\<open>FmtCode\<close> returns nil or the error of \<open>gofmt\<close>; which of them depends on whether \<open>gofmt\<close> ends before it
  returns.\<close>

theorem FmtCode_returns:
  assumes "reach (\<lambda>s. \<exists>e. s = fmt_start e) fmt_step s"
  shows "fm_result s \<in> {None, Some None, Some (fm_err s)}"
  using fmtcode.reach_inv[OF assms] by (simp add: fm_inv_def)

theorem FmtCode_races:
  "reach (\<lambda>s. \<exists>e. s = fmt_start e) fmt_step \<lparr>fm_proc = Exited, fm_err = Some x, fm_result = Some None\<rparr>"
  "reach (\<lambda>s. \<exists>e. s = fmt_start e) fmt_step \<lparr>fm_proc = Exited, fm_err = Some x, fm_result = Some (Some x)\<rparr>"
proof -
  let ?i = "\<lambda>s. \<exists>e. s = fmt_start e" and ?s = "fmt_start None"
  have i: "reach ?i fmt_step ?s" by (rule reach_init) blast
  have "fmt_step ?s FmtReturn (?s\<lparr>fm_result := Some None\<rparr>)" using fm_return[of ?s] by (simp add: fmt_start_def)
  note r = reach_step[where step = fmt_step, OF i this]
  show "reach ?i fmt_step \<lparr>fm_proc = Exited, fm_err = Some x, fm_result = Some None\<rparr>"
    using reach_step[where step = fmt_step, OF r fm_exit[of _ "Some x"]] by (simp add: fmt_start_def)
  have "fmt_step ?s (FmtExit (Some x)) (?s\<lparr>fm_proc := Exited, fm_err := Some x\<rparr>)"
    using fm_exit[of ?s] by (simp add: fmt_start_def)
  note e = reach_step[where step = fmt_step, OF i this]
  show "reach ?i fmt_step \<lparr>fm_proc = Exited, fm_err = Some x, fm_result = Some (Some x)\<rparr>"
    using reach_step[where step = fmt_step, OF e fm_return] by (simp add: fmt_start_def)
qed

definition sx_inv :: "'r shell \<Rightarrow> bool" where
  "sx_inv s \<longleftrightarrow>
     (case child_at s of
        Working \<Rightarrow> proc s \<noteq> Exited \<and> chan s = None \<and> caller_at s \<in> {Waiting, DeadlineExceeded}
      | Holding r \<Rightarrow> chan s = None \<and> caller_at s \<in> {Waiting, DeadlineExceeded}
      | ChildDone \<Rightarrow> (if caller_at s = Waiting then chan s \<noteq> None else caller_at s \<notin> {NilPanic, Draining}))"

lemma sx_inv_step: "sx_inv s \<Longrightarrow> shellx_step s e s' \<Longrightarrow> sx_inv s'"
  by (erule shellx_stepE; (erule run_commandE)?; clarsimp simp: sx_inv_def kill_def split: child.splits if_splits)

interpretation shellx: step_invariant sh_init shellx_step sx_inv
  by unfold_locales (simp add: sh_init_def sh_ready_def sx_inv_def, rule sx_inv_step)

definition wi_inv :: "'r shell \<Rightarrow> bool" where
  "wi_inv s \<longleftrightarrow>
     (case child_at s of
        Working \<Rightarrow> proc s \<in> {Running, Killed} \<and> chan s = None \<and> caller_at s \<in> {Waiting, Draining}
      | Holding r \<Rightarrow> proc s = Exited \<and> chan s = None \<and> caller_at s \<in> {Waiting, Draining}
      | ChildDone \<Rightarrow> proc s = Exited \<and> (if caller_at s \<in> {Waiting, Draining} then chan s \<noteq> None else caller_at s \<noteq> NilPanic))"

lemma wi_inv_step: "wi_inv s \<Longrightarrow> win_step s e s' \<Longrightarrow> wi_inv s'"
  by (erule win_stepE; clarsimp simp: wi_inv_def kill_def split: child.splits if_splits)

text \<open>A goroutine of \<open>utils\<close> that has no caller left.\<close>

definition ut_stuck :: "'r shell \<Rightarrow> bool" where
  "ut_stuck s \<longleftrightarrow> caller_at s = DeadlineExceeded \<and> child_at s \<noteq> ChildDone"

lemma ut_stuck_step: "ut_stuck s \<Longrightarrow> utils_step s e s' \<Longrightarrow> ut_stuck s'"
  by (erule utils_stepE; (erule run_commandE)?; clarsimp simp: ut_stuck_def)

interpretation utils: stable_property sh_init utils_step "\<lambda>_. True" ut_stuck
  by unfold_locales (simp_all, rule ut_stuck_step)

section \<open>Runs end\<close>

text \<open>The work that is left: the context may still end, the goroutine has up to three steps and the caller up to two.\<close>

definition sh_work :: "'r shell \<Rightarrow> nat" where
  "sh_work s = (if ctx_done s then 0 else 1)
     + (case child_at s of Working \<Rightarrow> if proc s = NotStarted then 3 else 2 | Holding _ \<Rightarrow> 1 | ChildDone \<Rightarrow> 0)
     + (case caller_at s of Waiting \<Rightarrow> 2 | Draining \<Rightarrow> 1 | _ \<Rightarrow> 0)"

definition over :: "'r shell \<Rightarrow> bool" where
  "over s \<longleftrightarrow> child_at s = ChildDone \<and> caller_at s \<notin> {Waiting, Draining, NilPanic}"

lemma sx_work_step: "shellx_step s e s' \<Longrightarrow> sh_work s' < sh_work s"
  by (erule shellx_stepE; (erule run_commandE)?; clarsimp simp: sh_work_def kill_def split: child.splits caller.splits)

lemma wi_work_step: "win_step s e s' \<Longrightarrow> sh_work s' < sh_work s"
  by (erule win_stepE; clarsimp simp: sh_work_def kill_def split: child.splits caller.splits)

interpretation shellx_runs: ending sh_init shellx_step sx_inv sh_work
  by unfold_locales (rule sx_work_step)

lemma sx_final:
  assumes "sx_inv s" "final shellx_step s"
  shows "over s"
proof -
  have no: "\<not> shellx_step s e t" for e t using assms(2) by (simp add: final_def)
  have "child_at s = ChildDone"
  proof (cases "child_at s")
    case Working
    then have "proc s = NotStarted \<or> proc s \<in> {Running, Killed}"
      using assms(1) by (cases "proc s") (simp_all add: sx_inv_def)
    then show ?thesis
      using no[of Start] no[of "Exit undefined"] sx_command[OF run_command.intros(2)[OF Working]]
        sx_command[OF run_command.intros(4)[OF Working]] by auto
  next
    case (Holding r)
    then show ?thesis using no[of Send] sx_send[of s r] assms(1) by (simp add: sx_inv_def)
  qed
  then show ?thesis
    using assms(1) no[of Receive] sx_receive[of s]
    by (cases "caller_at s = Waiting") (auto simp: sx_inv_def over_def)
qed

lemma wi_final:
  assumes "wi_inv s" "final win_step s"
  shows "over s"
proof -
  have no: "\<not> win_step s e t" for e t using assms(2) by (simp add: final_def)
  have "child_at s = ChildDone"
  proof (cases "child_at s")
    case Working
    then have "proc s \<in> {Running, Killed}" using assms(1) by (simp add: wi_inv_def)
    then show ?thesis using no[of "Exit undefined"] wi_exit[OF Working] by auto
  next
    case (Holding r)
    then show ?thesis using no[of Send] wi_send[of s r] assms(1) by (simp add: wi_inv_def)
  qed
  then show ?thesis
    using assms(1) no[of Receive] no[of Finish] wi_receive[of s] wi_finish[of s]
    by (auto simp: wi_inv_def over_def split: if_splits)
qed

section \<open>Properties\<close>

lemma reach_steps: "reach init step s \<Longrightarrow> steps step s t \<Longrightarrow> reach init step t"
proof -
  have "steps step s t \<Longrightarrow> reach init step s \<Longrightarrow> reach init step t"
    by (induction rule: steps.induct) (auto intro: reach_step)
  then show "reach init step s \<Longrightarrow> steps step s t \<Longrightarrow> reach init step t" by blast
qed

lemma win_reach: "reach (\<lambda>s. s = start) win_step s \<Longrightarrow> wi_inv start \<Longrightarrow> wi_inv s"
proof (induction rule: reach.induct)
  case (reach_step s e s')
  then show ?case using wi_inv_step by blast
qed simp

lemma win_inv: "win_start command start_error empty = Inr start \<Longrightarrow> reach (\<lambda>s. s = start) win_step s \<Longrightarrow> wi_inv s"
  by (erule win_reach) (auto simp: win_start_def wi_inv_def split: if_splits option.splits)

lemma win_waits:
  assumes "win_start command start_error empty = Inr start" "reach (\<lambda>s. s = start) win_step w" "caller_at w \<notin> {Waiting, Draining}"
  shows "proc w = Exited" "child_at w = ChildDone"
  using win_inv[OF assms(1,2)] assms(3) by (cases "child_at w"; simp add: wi_inv_def)+

lemma utils_leaks: "ut_stuck u \<Longrightarrow> steps utils_step u v \<Longrightarrow> child_at v \<noteq> ChildDone"
  using utils.steps_keep[of u v] by (simp add: ut_stuck_def)

text \<open>C38. Every run of ExecShell of shellx ends, since each of its steps uses up work, and it can end only when the
  caller has returned and the goroutine of the command has finished; the same holds for the Windows
  version, which moreover returns only when the process is gone. In utils a goroutine whose caller
  has returned with the deadline error never finishes.\<close>

theorem shell_finishes:
  "(reach sh_init shellx_step s \<longrightarrow>
        (\<forall>e s'. shellx_step s e s' \<longrightarrow> sh_work s' < sh_work s) \<and> (final shellx_step s \<longrightarrow> over s)
        \<and> (\<exists>t. steps shellx_step s t \<and> final shellx_step t \<and> over t))
    \<and> (win_start command start_error empty = Inr start \<and> reach (\<lambda>s. s = start) win_step w \<longrightarrow>
        (\<forall>e w'. win_step w e w' \<longrightarrow> sh_work w' < sh_work w) \<and> (final win_step w \<longrightarrow> over w)
        \<and> (caller_at w \<notin> {Waiting, Draining} \<longrightarrow> proc w = Exited \<and> child_at w = ChildDone))
    \<and> (caller_at u = DeadlineExceeded \<and> child_at u \<noteq> ChildDone \<and> steps utils_step u v \<longrightarrow> child_at v \<noteq> ChildDone)"
proof (intro conjI impI allI; (elim conjE)?)
  show "\<exists>t. steps shellx_step s t \<and> final shellx_step t \<and> over t" if "reach sh_init shellx_step s"
    using shellx_runs.run_ends[OF shellx.reach_inv[OF that]] sx_final by blast
  show "child_at v \<noteq> ChildDone" if "caller_at u = DeadlineExceeded" "child_at u \<noteq> ChildDone" "steps utils_step u v"
    using utils_leaks[of u v] that by (simp add: ut_stuck_def)
qed (auto intro: sx_work_step wi_work_step sx_final[OF shellx.reach_inv] wi_final[OF win_inv] dest: win_waits)

abbreviation sh_start :: "nat shell" where
  "sh_start \<equiv> sh_ready"

definition sh_leak :: "nat shell" where
  "sh_leak = \<lparr>proc = Exited, child_at = Holding 7, chan = None, caller_at = DeadlineExceeded, ctx_done = True\<rparr>"

theorem shell_finishes_witness:
  "(\<exists>t. steps shellx_step sh_start t \<and> over t) \<and> (\<forall>v. \<not> (steps utils_step sh_leak v \<and> child_at v = ChildDone))"
proof (intro conjI allI)
  have "reach sh_init shellx_step sh_start" by (rule reach_init) (simp add: sh_init_def)
  then show "\<exists>t. steps shellx_step sh_start t \<and> over t" using conjunct1[OF shell_finishes[of sh_start]] by blast
  show "\<not> (steps utils_step sh_leak v \<and> child_at v = ChildDone)" for v
    using conjunct2[OF conjunct2[OF shell_finishes[where u = sh_leak and v = v]]] by (auto simp: sh_leak_def)
qed

text \<open>When the context ends before the process has been started, ExecShell of utils dereferences a nil process;
  that of shellx returns the deadline error without killing anything, and the command still runs
  afterwards.\<close>

theorem deadline_before_start:
  "reach sh_init utils_step (sh_start\<lparr>ctx_done := True, caller_at := NilPanic\<rparr>)"
  "reach sh_init shellx_step (sh_start\<lparr>ctx_done := True, caller_at := DeadlineExceeded, proc := Running\<rparr>)"
proof -
  let ?d = "sh_start\<lparr>ctx_done := True\<rparr>"
  have i: "reach sh_init st sh_start" for st :: "nat shell \<Rightarrow> nat sh_event \<Rightarrow> nat shell \<Rightarrow> bool"
    by (rule reach_init) (simp add: sh_init_def)
  have c: "run_command sh_start CtxDone ?d" by (rule run_command.intros) (simp add: sh_ready_def)
  have u: "reach sh_init utils_step ?d" by (rule reach_step[where step = utils_step, OF i ut_command[OF c]])
  have tu: "utils_step ?d Timeout (sh_start\<lparr>ctx_done := True, caller_at := NilPanic\<rparr>)"
    using ut_timeout[of ?d] by (simp add: sh_ready_def kill_def)
  show "reach sh_init utils_step (sh_start\<lparr>ctx_done := True, caller_at := NilPanic\<rparr>)"
    by (rule reach_step[where step = utils_step, OF u tu])
  have x: "reach sh_init shellx_step ?d" by (rule reach_step[where step = shellx_step, OF i sx_command[OF c]])
  have tx: "shellx_step ?d Timeout (sh_start\<lparr>ctx_done := True, caller_at := DeadlineExceeded\<rparr>)"
    using sx_timeout[of ?d] by (simp add: sh_ready_def kill_def)
  have x2: "reach sh_init shellx_step (sh_start\<lparr>ctx_done := True, caller_at := DeadlineExceeded\<rparr>)"
    by (rule reach_step[where step = shellx_step, OF x tx])
  have st: "run_command (sh_start\<lparr>ctx_done := True, caller_at := DeadlineExceeded\<rparr>) Start
      (sh_start\<lparr>ctx_done := True, caller_at := DeadlineExceeded, proc := Running\<rparr>)"
    using run_command.intros(2)[of "sh_start\<lparr>ctx_done := True, caller_at := DeadlineExceeded\<rparr>"] by (simp add: sh_ready_def)
  show "reach sh_init shellx_step (sh_start\<lparr>ctx_done := True, caller_at := DeadlineExceeded, proc := Running\<rparr>)"
    by (rule reach_step[where step = shellx_step, OF x2 sx_command[OF st]])
qed

end
