(* ===== verification/Wechatx.thy ===== *)
theory Wechatx
  imports GoStrings "HOL-Library.List_Lexorder" "HOL-Library.Char_ord"
begin

text \<open>
  The package \<open>wechatX\<close> (\<open>wx.go\<close>, \<open>config.go\<close>, \<open>officialAccount.go\<close>, \<open>openplatform.go\<close>). SHA-1 and the
  clients of the WeChat library are arguments.
\<close>

section \<open>Settings\<close>

record RedisConfig =
  RHost :: string
  RPassword :: string
  RDatabase :: int64
  MaxActive :: int64
  MaxIdle :: int64
  IdleTimeout :: int64

record WechatConfig =
  AppID :: string
  AppSecret :: string
  CfgToken :: string
  EncodingAESKey :: string
  Redis :: RedisConfig

text \<open>What the library's cache and account are made from.\<close>

record 'c account_config =
  acc_AppID :: string
  acc_AppSecret :: string
  acc_Token :: string
  acc_EncodingAESKey :: string
  acc_Cache :: 'c

record ('w, 'c, 'a) wechat_lib =
  NewWechat :: 'w
  NewRedis :: "RedisConfig \<Rightarrow> 'c"
  account :: "'w \<Rightarrow> 'c account_config \<Rightarrow> 'a"

record ('w, 'a) instance_of =
  Wc :: 'w
  Account :: 'a
  Cfg :: "WechatConfig option"

definition NewOfficialAccountInstance :: "('w, 'c, 'a) wechat_lib \<Rightarrow> WechatConfig \<Rightarrow> ('w, 'a) instance_of" where
  "NewOfficialAccountInstance L cfg =
     (let wc = NewWechat L;
          redisCache = NewRedis L ((Redis cfg)\<lparr>MaxActive := 10, MaxIdle := 10, IdleTimeout := 60\<rparr>);
          offCfg = \<lparr>acc_AppID = AppID cfg, acc_AppSecret = AppSecret cfg, acc_Token = CfgToken cfg,
            acc_EncodingAESKey = EncodingAESKey cfg, acc_Cache = redisCache\<rparr>
      in \<lparr>Wc = wc, Account = account L wc offCfg, Cfg = Some cfg\<rparr>)"

definition InitWechat :: "('w, 'c, 'a) wechat_lib \<Rightarrow> 'w" where
  "InitWechat L = NewWechat L"

definition NewOpenplatformAccount :: "('w, 'c, 'a) wechat_lib \<Rightarrow> WechatConfig \<Rightarrow> ('w, 'a) instance_of" where
  "NewOpenplatformAccount L cfg =
     (let redisCache = NewRedis L (Redis cfg);
          wc = NewWechat L;
          offCfg = \<lparr>acc_AppID = AppID cfg, acc_AppSecret = AppSecret cfg, acc_Token = CfgToken cfg,
            acc_EncodingAESKey = EncodingAESKey cfg, acc_Cache = redisCache\<rparr>
      in \<lparr>Wc = wc, Account = account L wc offCfg, Cfg = None\<rparr>)"

section \<open>Clients\<close>

text \<open>The clients of the second library; its constructors are arguments, and no cache server is used.\<close>

record 'e oauth2_client =
  oauth2_Endpoint :: 'e

definition GetWechatOauth2Client :: "(string \<Rightarrow> string \<Rightarrow> 'e) \<Rightarrow> string \<Rightarrow> string \<Rightarrow> 'e oauth2_client" where
  "GetWechatOauth2Client newEndpoint appId appSecret = \<lparr>oauth2_Endpoint = newEndpoint appId appSecret\<rparr>"

definition GetWechatClient ::
  "(string \<Rightarrow> string \<Rightarrow> 'h \<Rightarrow> 's) \<Rightarrow> ('s \<Rightarrow> 'x option \<Rightarrow> 'c) \<Rightarrow> string \<Rightarrow> string \<Rightarrow> 'h \<Rightarrow> 'c" where
  "GetWechatClient newServer newClient appId appSecret httpClient =
     newClient (newServer appId appSecret httpClient) None"

section \<open>Login and signatures\<close>

definition GetWxLoginUrl :: "string \<Rightarrow> string \<Rightarrow> string" where
  "GetWxLoginUrl appid fillwebsite =
     ''https://open.weixin.qq.com/connect/oauth2/authorize?appid='' @ appid @ ''&redirect_uri='' @ fillwebsite
     @ ''&response_type=code&scope=snsapi_userinfo''"

definition Token :: string where
  "Token = ''sub-token''"

text \<open>\<open>sort.Strings\<close> orders byte by byte, as the order on lists of characters does.\<close>

definition ValidateSignature :: "(string \<Rightarrow> string) \<Rightarrow> string \<Rightarrow> string \<Rightarrow> string \<Rightarrow> bool" where
  "ValidateSignature sha1 timestamp nonce signature =
     (let params = sort [Token, timestamp, nonce]; str = join params []
      in hex_string 97 (sha1 str) = signature)"

section \<open>Properties\<close>

lemma sort_swap: "sort [a, b, c] = sort [a, c, b]" for a :: "'a :: linorder"
  by (simp add: insort_left_comm) (metis linear)

text \<open>Timestamp and nonce are interchangeable, since the parts are sorted before they are hashed; a signature is
  accepted exactly when it is the lower-case text of the digest.\<close>

theorem ValidateSignature_symmetric:
  "ValidateSignature sha1 timestamp nonce signature = ValidateSignature sha1 nonce timestamp signature"
  "ValidateSignature sha1 timestamp nonce signature
     \<longleftrightarrow> signature = hex_string 97 (sha1 (concat (sort [Token, timestamp, nonce])))"
proof -
  have "join xs [] = concat xs" for xs
    by (induction xs "[] :: string" rule: join.induct) simp_all
  then show "ValidateSignature sha1 timestamp nonce signature
     \<longleftrightarrow> signature = hex_string 97 (sha1 (concat (sort [Token, timestamp, nonce])))"
    by (auto simp: ValidateSignature_def Let_def)
qed (simp only: ValidateSignature_def sort_swap[of Token timestamp nonce])

text \<open>The official account ignores the limits of its Redis settings, the open platform keeps no settings.\<close>

theorem account_settings:
  "Account (NewOfficialAccountInstance L (cfg\<lparr>Redis := (Redis cfg)\<lparr>MaxActive := a, MaxIdle := b, IdleTimeout := c\<rparr>\<rparr>))
     = Account (NewOfficialAccountInstance L cfg)"
  "Cfg (NewOpenplatformAccount L cfg) = None"
  by (simp_all add: NewOfficialAccountInstance_def NewOpenplatformAccount_def Let_def)

end
