(* ===== verification/Tracing.thy ===== *)
theory Tracing
  imports GoPath
begin

text \<open>
  What gorm is told to call around its statements: the tracing plug-in (\<open>gormx/plugins/trace.go\<close>), the plug-in
  that logs errors (\<open>gormx/gormlog.go\<close>), and the search for the caller in the stack (\<open>gormx/utils/utils.go\<close>).
\<close>

section \<open>Registrations\<close>

datatype operation = OpCreate | OpQuery | OpDelete | OpUpdate | OpRow | OpRaw

datatype position = Before string | After string

type_synonym registration = "operation \<times> position \<times> string"

definition callBackBeforeName :: string where
  "callBackBeforeName = ''gorm-zero-trace:before''"

definition callBackAfterName :: string where
  "callBackAfterName = ''gorm-zero-trace:after''"

definition plugin_name :: string where
  "plugin_name = ''gorm-zero-tracing-plugin''"

definition Initialize :: "registration list" where
  "Initialize =
    [(OpCreate, Before ''gorm:before_create'', callBackBeforeName),
     (OpQuery, Before ''gorm:query'', callBackBeforeName),
     (OpDelete, Before ''gorm:before_delete'', callBackBeforeName),
     (OpUpdate, Before ''gorm:setup_reflect_value'', callBackBeforeName),
     (OpRow, Before ''gorm:row'', callBackBeforeName),
     (OpRaw, Before ''gorm:raw'', callBackBeforeName),
     (OpCreate, After ''gorm:after_create'', callBackAfterName),
     (OpQuery, After ''gorm:after_query'', callBackAfterName),
     (OpDelete, After ''gorm:after_delete'', callBackAfterName),
     (OpUpdate, After ''gorm:after_update'', callBackAfterName),
     (OpRow, After ''gorm:row'', callBackAfterName),
     (OpRaw, After ''gorm:raw'', callBackAfterName)]"

definition callBackAfterZeroGorm :: string where
  "callBackAfterZeroGorm = ''logger:afterZeroGorm''"

definition zero_name :: string where
  "zero_name = ''zeroGorm''"

definition zero_Initialize :: "registration list" where
  "zero_Initialize =
    [(OpCreate, After ''gorm:after_create'', callBackAfterZeroGorm),
     (OpQuery, After ''gorm:after_query'', callBackAfterZeroGorm),
     (OpDelete, After ''gorm:after_delete'', callBackAfterZeroGorm),
     (OpUpdate, After ''gorm:after_update'', callBackAfterZeroGorm),
     (OpRow, After ''gorm:row'', callBackAfterZeroGorm),
     (OpRaw, After ''gorm:raw'', callBackAfterZeroGorm)]"

text \<open>The error that is logged, if any.\<close>

definition afterZeroGorm :: "'e option \<Rightarrow> 'e list" where
  "afterZeroGorm db_error = (case db_error of None \<Rightarrow> [] | Some e \<Rightarrow> [e])"

section \<open>Spans\<close>

datatype status = StatusOk | StatusError string

record 'e span =
  span_name :: string
  span_events :: "(string \<times> string \<times> int64 \<times> string) list"
  span_status :: "status option"
  span_errors :: "'e list"
  span_ends :: nat

text \<open>A statement of gorm: its table, its text with the values filled in, the rows it concerned, its error, and
  the span kept with it. The spans of a tracer are numbered in the order they start.\<close>

record 'e statement =
  st_table :: string
  st_sql :: string
  st_rows :: int64
  st_error :: "'e option"
  st_span :: "nat option"

definition startSpan :: "'e span list \<Rightarrow> nat \<times> 'e span list" where
  "startSpan spans =
     (length spans, spans @ [\<lparr>span_name = ''gorm-zero'', span_events = [], span_status = None, span_errors = [], span_ends = 0\<rparr>])"

definition before :: "'e statement \<Rightarrow> 'e span list \<Rightarrow> 'e statement \<times> 'e span list" where
  "before db spans = (case startSpan spans of (span, spans) \<Rightarrow> (db\<lparr>st_span := Some span\<rparr>, spans))"

definition endSpan :: "('e \<Rightarrow> bool) \<Rightarrow> ('e \<Rightarrow> string) \<Rightarrow> 'e option \<Rightarrow> 'e span \<Rightarrow> 'e span" where
  "endSpan not_found text err span =
     (let span = (case err of
            None \<Rightarrow> span\<lparr>span_status := Some StatusOk\<rparr>
          | Some e \<Rightarrow>
              if not_found e then span\<lparr>span_status := Some StatusOk\<rparr>
              else span\<lparr>span_status := Some (StatusError (text e)), span_errors := span_errors span @ [e]\<rparr>)
      in span\<lparr>span_ends := span_ends span + 1\<rparr>)"

definition after :: "('e \<Rightarrow> bool) \<Rightarrow> ('e \<Rightarrow> string) \<Rightarrow> 'e statement \<Rightarrow> 'e span list \<Rightarrow> 'e span list" where
  "after not_found text db spans =
     (case st_span db of
        None \<Rightarrow> spans
      | Some i \<Rightarrow>
          (let span = spans ! i;
               span = span\<lparr>span_events := span_events span @ [(''gorm-zero-event'', st_table db, st_rows db, st_sql db)]\<rparr>
           in spans[i := endSpan not_found text (st_error db) span]))"

text \<open>One statement: \<open>exec\<close> is what gorm does between the two callbacks, in which further statements with spans of
  their own may run.\<close>

definition traced ::
  "('e \<Rightarrow> bool) \<Rightarrow> ('e \<Rightarrow> string) \<Rightarrow> ('e statement \<Rightarrow> 'e span list \<Rightarrow> 'e statement \<times> 'e span list)
   \<Rightarrow> 'e statement \<Rightarrow> 'e span list \<Rightarrow> 'e statement \<times> 'e span list" where
  "traced not_found text exec db spans =
     (case before db spans of (db, spans) \<Rightarrow>
       (case exec db spans of (db, spans) \<Rightarrow> (db, after not_found text db spans)))"

section \<open>The caller\<close>

definition gormSourceDirPath :: "string \<Rightarrow> string" where
  "gormSourceDirPath file =
     (let dir = path_dir (path_dir file); s = path_dir dir
      in (if path_base s \<noteq> ''gorm.io'' then dir else s) @ ''/'')"

definition gormZeroSourceDirPath :: "string \<Rightarrow> string" where
  "gormZeroSourceDirPath file =
     (let dir = path_dir (path_dir file); s = path_dir dir
      in (if path_base s \<noteq> ''gorm-zero'' then dir else s) @ ''/'')"

definition in_gorm :: "string \<Rightarrow> string \<Rightarrow> bool" where
  "in_gorm gormZeroSourceDir file \<longleftrightarrow> contains file ''gorm.io'' \<or> has_prefix file gormZeroSourceDir"

text \<open>\<open>stack i\<close> is the file and the line of the i-th caller, if there is one.\<close>

fun find_caller :: "string \<Rightarrow> (nat \<Rightarrow> (string \<times> int64) option) \<Rightarrow> nat \<Rightarrow> nat \<Rightarrow> string" where
  "find_caller zeroDir stack i 0 = []"
| "find_caller zeroDir stack i (Suc n) =
     (case stack i of
        None \<Rightarrow> find_caller zeroDir stack (i + 1) n
      | Some (file, line) \<Rightarrow>
          if \<not> in_gorm zeroDir file \<or> has_suffix file ''_test.go'' then file @ '':'' @ itoa (sint line)
          else find_caller zeroDir stack (i + 1) n)"

definition FileWithLineNum :: "string \<Rightarrow> (nat \<Rightarrow> (string \<times> int64) option) \<Rightarrow> string" where
  "FileWithLineNum this_file stack = find_caller (gormZeroSourceDirPath this_file) stack 2 13"

section \<open>Properties\<close>

text \<open>Every operation has one callback before it and one after it, under the two names.\<close>

lemma Initialize_pairs:
  "map (\<lambda>r. (fst r, case fst (snd r) of Before _ \<Rightarrow> callBackBeforeName | After _ \<Rightarrow> callBackAfterName)) Initialize
     = map (\<lambda>r. (fst r, snd (snd r))) Initialize"
  "set (map fst (filter (\<lambda>r. snd (snd r) = callBackBeforeName) Initialize)) = UNIV"
  "set (map fst (filter (\<lambda>r. snd (snd r) = callBackAfterName) Initialize)) = UNIV"
  by (simp_all add: Initialize_def callBackBeforeName_def callBackAfterName_def) (auto intro: operation.exhaust)

text \<open>C39. A traced statement opens one span and ends it exactly once, after all that runs inside it: the span has
  one event with the table, the rows and the text of the statement, its status is Ok without an error
  and for a record that was not found, and an error otherwise. Spans that were open before are not touched.\<close>

theorem traced_span:
  assumes "\<And>db spans db' spans'. exec db spans = (db', spans')
        \<Longrightarrow> st_span db' = st_span db \<and> length spans \<le> length spans' \<and> take (length spans) spans' = spans"
    and "traced not_found text exec db spans = (db', spans')"
  shows "length spans < length spans' \<and> take (length spans) spans' = spans
    \<and> span_ends (spans' ! length spans) = 1
    \<and> span_events (spans' ! length spans) = [(''gorm-zero-event'', st_table db', st_rows db', st_sql db')]
    \<and> span_status (spans' ! length spans) = Some (case st_error db' of None \<Rightarrow> StatusOk
         | Some e \<Rightarrow> if not_found e then StatusOk else StatusError (text e))"
proof -
  let ?new = "\<lparr>span_name = ''gorm-zero'', span_events = [], span_status = None, span_errors = [], span_ends = 0\<rparr> :: 'a span"
  obtain s1 where ex: "exec (db\<lparr>st_span := Some (length spans)\<rparr>) (spans @ [?new]) = (db', s1)"
    and s': "spans' = after not_found text db' s1"
    using assms(2) by (auto simp: traced_def before_def startSpan_def split: prod.splits)
  note k = assms(1)[OF ex]
  have at: "s1 ! length spans = ?new" "length spans < length s1" "take (length spans) s1 = spans"
  proof -
    have t: "take (length spans + 1) s1 = spans @ [?new]" "length spans + 1 \<le> length s1" using k by simp_all
    then show "length spans < length s1" by simp
    show "s1 ! length spans = ?new" using t nth_take[of "length spans" "length spans + 1" s1] by simp
    have "take (length spans) (take (length spans + 1) s1) = spans" unfolding t(1) by simp
    then show "take (length spans) s1 = spans" by simp
  qed
  have "st_span db' = Some (length spans)" using k by simp
  then have "spans' = s1[length spans := endSpan not_found text (st_error db')
      (?new\<lparr>span_events := [(''gorm-zero-event'', st_table db', st_rows db', st_sql db')]\<rparr>)]"
    using s' at(1) by (simp add: after_def)
  then show ?thesis using at(2,3) by (simp add: endSpan_def Let_def split: option.split)
qed

theorem traced_span_witness:
  "span_status (snd (traced (\<lambda>e. e = ''none'') id (\<lambda>db s. (db\<lparr>st_error := Some ''full''\<rparr>, s))
     \<lparr>st_table = ''t'', st_sql = ''q'', st_rows = 1, st_error = None, st_span = None\<rparr> []) ! 0) = Some (StatusError ''full'')"
proof -
  let ?exec = "\<lambda>db s. (db\<lparr>st_error := Some ''full''\<rparr>, s) :: string statement \<times> string span list"
  let ?db = "\<lparr>st_table = ''t'', st_sql = ''q'', st_rows = 1, st_error = None, st_span = None\<rparr> :: string statement"
  have keeps: "st_span db' = st_span db \<and> length spans \<le> length spans' \<and> take (length spans) spans' = spans"
    if "?exec db spans = (db', spans')" for db spans db' spans'
    using that by auto
  have run: "traced (\<lambda>e. e = ''none'') id ?exec ?db []
      = (fst (traced (\<lambda>e. e = ''none'') id ?exec ?db []), snd (traced (\<lambda>e. e = ''none'') id ?exec ?db []))"
    by simp
  have e: "st_error (fst (traced (\<lambda>e. e = ''none'') id ?exec ?db [])) = Some ''full''"
    by (simp add: traced_def before_def startSpan_def)
  show ?thesis using traced_span[OF keeps run] e by simp
qed

text \<open>The caller is the first of the stack frames 2 to 14 outside gorm or in a test.\<close>

theorem FileWithLineNum_first:
  "FileWithLineNum f stack = (case filter (\<lambda>i. case stack i of None \<Rightarrow> False
        | Some (file, line) \<Rightarrow> \<not> in_gorm (gormZeroSourceDirPath f) file \<or> has_suffix file ''_test.go'') [2..<15] of
      [] \<Rightarrow> []
    | i # _ \<Rightarrow> fst (the (stack i)) @ '':'' @ itoa (sint (snd (the (stack i)))))"
proof -
  have "find_caller z stack i n = (case filter (\<lambda>i. case stack i of None \<Rightarrow> False
        | Some (file, line) \<Rightarrow> \<not> in_gorm z file \<or> has_suffix file ''_test.go'') [i..<i + n] of
      [] \<Rightarrow> []
    | i # _ \<Rightarrow> fst (the (stack i)) @ '':'' @ itoa (sint (snd (the (stack i)))))" for z i n
  proof (induction n arbitrary: i)
    case (Suc n)
    have "[i..<i + Suc n] = i # [i + 1..<i + 1 + n]" by (simp add: upt_conv_Cons del: upt_Suc)
    then show ?case using Suc[of "i + 1"] by (auto split: option.split)
  qed simp
  from this[of _ 2 13] show ?thesis by (simp add: FileWithLineNum_def del: upt_Suc)
qed

end
