(* ===== verification/Sortx.thy ===== *)
theory Sortx
  imports GoPrelude Complex_Main
begin

text \<open>
  Sort values (\<open>gormx/sort.go\<close>). A table is the list of its rows; \<open>fails n\<close> says whether the n-th query of a
  call fails. The number type is an argument: the code has \<open>float64\<close>, the properties are proved for exact
  numbers, so they hold as long as no sum or quotient is rounded.
\<close>

section \<open>Queries\<close>

record ('i, 'f) srow =
  row_id :: 'i
  row_sort :: 'f

text \<open>An aggregate of no row is NULL, which leaves the variable at zero.\<close>

definition sql_max :: "'f :: {linorder, zero} list \<Rightarrow> 'f" where
  "sql_max xs = (if xs = [] then 0 else Max (set xs))"

definition sql_min :: "'f :: {linorder, zero} list \<Rightarrow> 'f" where
  "sql_min xs = (if xs = [] then 0 else Min (set xs))"

definition GetMaxSort :: "(nat \<Rightarrow> 'e option) \<Rightarrow> ('i, 'f :: {linorder, zero}) srow list \<Rightarrow> 'f option \<times> 'e option" where
  "GetMaxSort fails rows =
     (case fails 0 of
        Some e \<Rightarrow> (None, Some e)
      | None \<Rightarrow> (Some (sql_max (map row_sort rows)), None))"

section \<open>A new sort value\<close>

definition CalculateSort ::
  "(nat \<Rightarrow> 'e option) \<Rightarrow> ('i, 'f :: {linorder, zero, one, plus, inverse}) srow list \<Rightarrow> 'i \<Rightarrow> 'f \<Rightarrow> 'f \<times> 'e option" where
  "CalculateSort fails rows i srt =
     (if srt \<le> 0 then
        (case fails 0 of
           Some e \<Rightarrow> (1, Some e)
         | None \<Rightarrow> (sql_max (map row_sort rows) + 1, None))
      else
        (let existingSort = (case filter (\<lambda>r. row_sort r = srt \<and> row_id r \<noteq> i) rows of [] \<Rightarrow> 0 | r # _ \<Rightarrow> row_sort r)
         in if fails 0 \<noteq> None \<or> existingSort = 0 then (srt, None)
            else
              (let prevSort = (if fails 1 \<noteq> None then 0 else sql_max (filter (\<lambda>x. x < srt) (map row_sort rows)));
                   nextSort = (if fails 2 \<noteq> None then 0 else sql_min (filter (\<lambda>x. srt < x) (map row_sort rows)));
                   newSort = (if 0 < prevSort \<and> 0 < nextSort then (prevSort + srt) / (1 + 1)
                              else if 0 < prevSort then srt + 1
                              else if 0 < nextSort then srt / (1 + 1)
                              else srt / (1 + 1))
               in (newSort, None))))"

section \<open>Properties\<close>

lemma sql_max_ge: "x \<in> set xs \<Longrightarrow> x \<le> sql_max xs"
  by (auto simp: sql_max_def)

lemma sql_max_in: "sql_max xs \<noteq> 0 \<Longrightarrow> sql_max xs \<in> set xs"
  using Max_in[of "set xs"] by (auto simp: sql_max_def split: if_splits)

lemma sql_min_le: "x \<in> set xs \<Longrightarrow> sql_min xs \<le> x"
  by (auto simp: sql_min_def)

lemma sql_min_in: "xs \<noteq> [] \<Longrightarrow> sql_min xs \<in> set xs"
  using Min_in[of "set xs"] by (simp add: sql_min_def)



end
