(* ===== verification/Middlewarex.thy ===== *)
theory Middlewarex
  imports GoPrelude
begin

text \<open>
  The middleware of \<open>middlewarex/token.go\<close>. A request is its context together with all the rest, and a handler
  maps the writer and the request to what it does.
\<close>

record ('c, 'r) request =
  req_ctx :: 'c
  req_rest :: 'r

type_synonym ('c, 'r, 'w) handler = "'w \<Rightarrow> ('c, 'r) request \<Rightarrow> 'w"

definition WithContext :: "('c, 'r) request \<Rightarrow> 'c \<Rightarrow> ('c, 'r) request" where
  "WithContext r ctx = r\<lparr>req_ctx := ctx\<rparr>"

definition Handle :: "('c, 'r, 'w) handler \<Rightarrow> ('c, 'r, 'w) handler" where
  "Handle next w r = (let ctx = req_ctx r in next w (WithContext r ctx))"

text \<open>The lines that would put the token into the context are commented out: the middleware changes nothing.\<close>

theorem Handle_transparent: "Handle next = next"
  by (intro ext) (simp add: Handle_def WithContext_def)

end
