(* ===== verification/Composition.thy ===== *)
theory Composition
  imports Batchx GormQuery
begin

text \<open>
  Properties that span components of \<open>gormx\<close>: a statement with a search, a permission, an order and a page on it
  (\<open>query.go\<close>, \<open>search.go\<close>, \<open>datapermission.go\<close>), and a batch write followed by a cached read
  (\<open>batchx.go\<close>, \<open>cachedgorm.go\<close>, \<open>stringx/cache.go\<close>).
\<close>

section \<open>The statement of a list page\<close>

text \<open>A list page puts the search struct, the permission of the user, the order and the page on one statement. Every
  condition on it must have as many arguments as placeholders.\<close>

definition call_ok :: "db_call \<Rightarrow> bool" where
  "call_ok c \<longleftrightarrow> (case c of
     DbWhere k v \<Rightarrow> marks k = length v
   | DbOr k v \<Rightarrow> marks k = length v
   | DbOffset off \<Rightarrow> 0 \<le> sint off
   | _ \<Rightarrow> True)"

definition list_statement ::
  "gotext \<Rightarrow> clause_order \<Rightarrow> goval \<Rightarrow> string \<Rightarrow> string \<Rightarrow> DataPermission \<Rightarrow> string \<Rightarrow> bool \<Rightarrow> int64 \<Rightarrow> int64 \<Rightarrow> db option" where
  "list_statement T iter q driver tableName p sortBy descending pageSize pageIndex =
     map_option (\<lambda>db. Paginate pageSize pageIndex (SortBy sortBy descending (PermissionData tableName p db)))
       (MakeCondition T iter q driver [])"

lemma permission_calls_ok:
  assumes "marks tableName = 0" "marks (DataFilter p) = 0" "list_all call_ok db"
  shows "list_all call_ok (PermissionData tableName p db)"
  using assms by (simp add: PermissionData_def call_ok_def marks_def)

lemma page_calls_ok: "list_all call_ok db \<Longrightarrow> list_all call_ok (Paginate psize pindex (SortBy s d db))"
  by (simp add: Paginate_def SortBy_def Let_def call_ok_def)

lemma condition_calls:
  assumes "\<And>c. distinct (map fst c) \<Longrightarrow> set (iter c) = set c"
    and "distinct (map fst (Where c))" "Or c = []" "\<forall>k v. map_of (Where c) k = Some v \<longrightarrow> marks k = length v"
  shows "list_all call_ok (public_calls iter c)" "DbWhere k v \<in> set (public_calls iter c) \<longleftrightarrow> map_of (Where c) k = Some v"
proof -
  have w: "set (iter (Where c)) = set (Where c)" and o: "iter (Or c) = []" using assms(1)[OF assms(2)] assms(1)[of "[]"] assms(3) by simp_all
  show "list_all call_ok (public_calls iter c)"
    using assms(2,4) w by (auto simp: public_calls_def o list_all_iff call_ok_def)
  show "DbWhere k v \<in> set (public_calls iter c) \<longleftrightarrow> map_of (Where c) k = Some v"
    using assms(2) w by (auto simp: public_calls_def o)
qed

lemma permission_appends: "PermissionData tableName p db = db @ PermissionData tableName p []"
  by (simp add: PermissionData_def)

text \<open>C2. The statement of a list page, made from a flat search struct, the data permission of the user, an order and
  a page: it always exists, every condition on it has as many arguments as placeholders and the offset
  is not negative, whatever the page number. Its conditions are those that the non-zero fields of the
  search ask for, the last field winning for equal texts, and that of the permission.\<close>

theorem list_statement_balanced:
  assumes "list_all flat_field fs"
    and "\<forall>f \<in> set fs. \<forall>tag. tag_lookup f FromQueryTag = Some tag \<longrightarrow>
           marks (Table (makeTag tag)) = 0 \<and> marks (Column (makeTag tag)) = 0"
    and "\<And>c. distinct (map fst c) \<Longrightarrow> set (iter c) = set c"
    and "marks tableName = 0" "marks (DataFilter p) = 0"
  shows "\<exists>st. list_statement T iter (VStruct ty fs) driver tableName p sortBy descending pageSize pageIndex = Some st
    \<and> list_all call_ok st
    \<and> (\<forall>k v. DbWhere k v \<in> set st \<longleftrightarrow>
         map_of (rev (concat (map (\<lambda>f. case request_of T driver f of AskWhere k v \<Rightarrow> [(k, v)] | _ \<Rightarrow> []) fs))) k = Some v
         \<or> DbWhere k v \<in> set (PermissionData tableName p []))"
proof -
  obtain c where c: "ResolveSearchQuery T driver (VStruct ty fs) (SCondition empty_condition) = Some (SCondition c)"
    "map_of (Where c) = map_of (rev (concat (map (\<lambda>f. case request_of T driver f of AskWhere k v \<Rightarrow> [(k, v)] | _ \<Rightarrow> []) fs)))"
    "distinct (map fst (Where c))" "Joins c = []" "Or c = []" "\<forall>k v. map_of (Where c) k = Some v \<longrightarrow> marks k = length v"
    using resolve_flat_conditions[OF assms(1,2)] by blast
  note calls = condition_calls[OF assms(3) c(3,5,6)]
  let ?st = "Paginate pageSize pageIndex (SortBy sortBy descending (PermissionData tableName p (public_calls iter c)))"
  have "list_statement T iter (VStruct ty fs) driver tableName p sortBy descending pageSize pageIndex = Some ?st"
    by (simp add: list_statement_def MakeCondition_def c(1,4))
  moreover have "list_all call_ok ?st"
    using calls(1) assms(4,5) by (intro page_calls_ok permission_calls_ok)
  moreover have "DbWhere k v \<in> set ?st \<longleftrightarrow> map_of (Where c) k = Some v \<or> DbWhere k v \<in> set (PermissionData tableName p [])" for k v
    using calls(2)[of k v] by (subst permission_appends) (simp add: Paginate_def SortBy_def Let_def)
  ultimately show ?thesis unfolding c(2) by blast
qed

definition own_rows :: DataPermission where
  "own_rows = no_permission\<lparr>DataScope := ''5'', UserId := VString ''7''\<rparr>"

theorem list_statement_balanced_witness:
  "\<exists>st. list_statement ascii_tables rev (VStruct ''Q'' [name_field ''ann'']) ''mysql'' ''users'' own_rows ''id'' True 10 0 = Some st
     \<and> DbWhere ''users.create_by = ?'' [VString ''7''] \<in> set st \<and> list_all call_ok st"
proof -
  have f: "list_all flat_field [name_field ''ann'']"
    by (simp add: flat_field_def name_field_lookup name_tag_made) (simp add: name_field_def exported_def is_up_def byte_in_def go_eval)
  have m: "\<forall>f \<in> set [name_field ''ann'']. \<forall>tag. tag_lookup f FromQueryTag = Some tag \<longrightarrow>
      marks (Table (makeTag tag)) = 0 \<and> marks (Column (makeTag tag)) = 0"
    by (simp add: name_field_lookup name_tag_made marks_def)
  obtain st where st: "list_statement ascii_tables rev (VStruct ''Q'' [name_field ''ann'']) ''mysql'' ''users'' own_rows ''id'' True 10 0 = Some st"
    "list_all call_ok st" "\<forall>k v. DbWhere k v \<in> set st \<longleftrightarrow>
         map_of (rev (concat (map (\<lambda>f. case request_of ascii_tables ''mysql'' f of AskWhere k v \<Rightarrow> [(k, v)] | _ \<Rightarrow> []) [name_field ''ann'']))) k = Some v
         \<or> DbWhere k v \<in> set (PermissionData ''users'' own_rows [])"
    using list_statement_balanced[OF f m, of rev "''users''" own_rows ascii_tables "''Q''" "''mysql''" "''id''" True 10 0]
    by (auto simp: marks_def own_rows_def no_permission_def)
  then show ?thesis by (intro exI[of _ st]) (simp add: PermissionData_def own_rows_def no_permission_def)
qed

section \<open>A batch write and the read after it\<close>

text \<open>The rows of a batch have cache keys made of prefixes and their id. After a write that succeeded, a query
  through the cache sees what was written.\<close>

lemma multi_keys: "set (GetCacheMultiKeys (Some v) ps) = {q @ v |q. q \<in> set ps}"
  by (auto simp: set_GetCacheMultiKeys)

text \<open>C1. After a batch write that returns no error, a query through the cache returns what the database holds since
  the write, never an older value, provided the write changes only what is stored under the keys of
  its rows: every prefix followed by the id of the row. The write has then been carried out, and the
  cache agrees with the database again.\<close>

theorem batch_write_then_read:
  assumes "map_range iter" "cache_law look data C" "tracer_law look data T" "coherent look data stored w" "olds \<noteq> []"
    and "exec w = (e, w1)" "look w1 \<subseteq>\<^sub>m look w" "e \<noteq> None \<Longrightarrow> data w1 = data w"
    and "\<And>k. (\<forall>row \<in> set olds. \<forall>q \<in> set prefixes. k \<noteq> q @ ident row) \<Longrightarrow> stored (data w1) k = stored (data w) k"
    and "BatchExecCtx iter (\<lambda>row. GetCacheMultiKeys (Some (ident row)) prefixes) (ExecCtx C) olds exec w = (None, w2)"
    and "reads_key look data stored key query" "QueryCtx T C key query w2 = (r, w3)"
  shows "e = None \<and> data w3 = data w1 \<and> coherent look data stored w3 \<and> (\<forall>v. r = Inr v \<longrightarrow> stored (data w1) key = Some v)"
proof -
  let ?keys = "\<lambda>row. GetCacheMultiKeys (Some (ident row)) prefixes"
  have only: "stored (data w1) k = stored (data w) k" if "\<forall>row \<in> set olds. k \<notin> set (?keys row)" for k
    using that by (intro assms(9)) (auto simp: multi_keys)
  have b: "coherent look data stored w2" "data w2 = data w1" "e = None"
    using batch_coherent[where keys = ?keys, OF assms(1,2,4,6,7,8) only assms(10)] assms(5) by auto
  have "fresh look data stored w2 key (r, w3)"
    using query_fresh[OF assms(2,3) b(1) assms(11)] assms(12) by simp
  then show ?thesis using b by (simp add: fresh_def)
qed

theorem batch_write_then_read_witness:
  "\<exists>w2 w3. BatchExecCtx rev (\<lambda>i. GetCacheMultiKeys (Some i) [''user:'']) (ExecCtx mem_cachelib) [''1'', ''2''] (rename_all ''bob'') (memory False)
        = (None, w2)
     \<and> QueryCtx mem_tracer mem_cachelib ''user:1'' (db_read ''user:1'') w2 = (Inr ''bob'', w3) \<and> coherent m_cache m_db id w3"
proof -
  let ?keys = "\<lambda>i. GetCacheMultiKeys (Some i) [''user:'']"
  obtain w2 where w2: "BatchExecCtx rev ?keys (ExecCtx mem_cachelib) [''1'', ''2''] (rename_all ''bob'') (memory False) = (None, w2)"
    by (simp add: BatchExecCtx_def ExecCtx_def DelCacheCtx_def mem_cachelib_def rename_all_def memory_def Let_def)
  obtain r w3 where q: "QueryCtx mem_tracer mem_cachelib ''user:1'' (db_read ''user:1'') w2 = (r, w3)"
    by (cases "QueryCtx mem_tracer mem_cachelib ''user:1'' (db_read ''user:1'') w2")
  let ?w = "snd (rename_all ''bob'' (memory False))"
  have run: "rename_all ''bob'' (memory False) = (None, ?w)" by (simp add: rename_all_def)
  have le: "m_cache ?w \<subseteq>\<^sub>m m_cache (memory False)" by (simp add: rename_all_def)
  have only: "id (m_db ?w) k = id (m_db (memory False)) k"
    if "\<forall>row \<in> set [''1'', ''2'']. \<forall>q \<in> set [''user:'']. k \<noteq> q @ row" for k
    using that by (simp add: rename_all_def)
  have none: "m_db ?w = m_db (memory False)" if "(None :: cache_error option) \<noteq> None" using that by simp
  have res: "m_db w3 = m_db ?w" "coherent m_cache m_db id w3"
    using batch_write_then_read[where stored = id and ident = "\<lambda>i. i" and prefixes = "[''user:'']",
        OF map_range_rev mem_law mem_tracer_law memory_coherent _ run le none only w2 db_read_reads q] by simp_all
  have "r = Inr ''bob''"
    using q w2 by (auto simp: BatchExecCtx_def ExecCtx_def DelCacheCtx_def mem_cachelib_def rename_all_def memory_def Let_def
        getCacheKeysByMultiData_def GetCacheMultiKeys_def CustomCacheKeys_def UniqueKeys_def Batchx.UniqueKeys_def key_set_def
        QueryCtx_def traced_query_def startSpan_def mem_tracer_def on_span_def mem_take_def db_read_def)
  then show ?thesis using w2 q res by blast
qed

end
