(* ===== verification/Spec2Isabelle.thy ===== *)
theory Spec2Isabelle
  imports Stringx Format Errx Response Condition Converter Websocket Jwtx Minio GormLogger
    Configx Modelx GormQuery GormGen CachedConn Batchx Captchax Casbinx Filex Archive
    ArchiveFacts Upload ArchiveSpec Pathx Templates Cryptx Filetools Timex ExcelImport
    ExcelExport Console Notifyx Httpx Shellx Wechatx Tracing Sortx Middlewarex Composition
begin

text \<open>
  Verification of sub-sdk, a Go library of helpers for web services: strings and names, errors and
  API responses, search conditions and database access through gorm, tokens, websockets and object
  storage. Every package is a component; this theory collects them. A Go function keeps its name;
  a method that would clash carries a short prefix of its receiver (\<open>my_Connect\<close>, \<open>pg_Connect\<close>).

  \<^bold>\<open>Conventions.\<close> A Go string is a list of bytes; \<open>GoStrings\<close> decodes it as UTF-8 the way \<open>range\<close> and
  \<open>utf8.DecodeRuneInString\<close> do. An \<open>int\<close> or \<open>int64\<close> is a 64-bit word, a \<open>uint32\<close> a 32-bit word; a loop
  counter that cannot overflow is a natural number. A result \<open>(T, error)\<close> is a sum with the error on
  the left; a call that can panic returns an option or has a constructor for the panic. A struct is a
  record, a method with a pointer receiver returns the receiver as well, a value behind
  \<open>interface{}\<close> is a \<open>goval\<close> of \<open>GoValues\<close> with the fields and tags that \<open>reflect\<close> shows. Code of
  other modules is a parameter: \<open>gotext\<close> (the Unicode tables and the title caser), \<open>errlib\<close>
  (errors.Cause, status.FromError), \<open>jwtlib\<close>, \<open>gormlib\<close>, the answers of the database (\<open>queries\<close>), the
  object store (\<open>s3\<close>). What a property needs of it is a named law (\<open>errlib_law\<close>, \<open>jwt_law\<close>, the
  hypotheses on \<open>gotext\<close>), and its witness instantiates the law. The iteration order of a Go map and
  an unstable sort are arguments of the functions that depend on them. Logging is left out, except in
  \<open>GormLogger\<close>, where it is the function of the code.

  \<^bold>\<open>Shared theories.\<close> \<open>GoPrelude\<close> (integers, \<open>strconv\<close>, lists, the collections \<open>go_defs\<close>, \<open>go_inv\<close>,
  \<open>go_eval\<close>), \<open>GoStrings\<close> (package strings and UTF-8), \<open>GoValues\<close> (reflection), \<open>GoPath\<close> (path and
  filepath), \<open>Transition\<close> (reachable states; the locales \<open>step_invariant\<close>, \<open>stable_property\<close> and \<open>ending\<close>).

  \<^bold>\<open>Components.\<close>
  \<^item> \<open>Stringx\<close>: \<open>stringx/string.go\<close>, \<open>fmt.go\<close>, \<open>cache.go\<close>. Case conversions by runes and by bytes,
    splitting, cache keys. Round trips between snake and camel case, the pieces of a split lose
    nothing, the cache keys of a list of ids.
  \<^item> \<open>Format\<close>: \<open>format/format.go\<close>. File names after a pattern: the canonical patterns, the absence of
    panics on ASCII patterns, and the panic of a pattern that grows when it is upper-cased.
  \<^item> \<open>Errx\<close> and \<open>Response\<close>: \<open>errx/\<close>, \<open>response/\<close>, \<open>respx/\<close>, \<open>rpcmiddle/\<close>. Error codes, their messages, and
    the way of an error through the RPC interceptor to the body of the reply.
  \<^item> \<open>Condition\<close> and \<open>Converter\<close>: \<open>condition/\<close>, \<open>converter/\<close>. Evaluation of condition lists; the two
    tables from column types to Go types.
  \<^item> \<open>Websocket\<close>: \<open>websocketx/hub.go\<close>, \<open>client.go\<close>. The hub and the pumps as a step relation on the set
    of clients, the channels and what was written; the channel capacity 256 and the closing of
    channels are modelled, deadlines and pings are events without effect. Invariants of every
    reachable state: no send on a closed channel, no double close, delivery in order.
  \<^item> \<open>Jwtx\<close>: \<open>jwtx/jwtx.go\<close>. Issuing, parsing, renewing tokens; times are seconds at 64 bits.
  \<^item> \<open>Minio\<close>: \<open>minioCli/\<close>. The object store client as state passing over the calls of the library.
  \<^item> \<open>GormLogger\<close>, \<open>Configx\<close>, \<open>Modelx\<close>: \<open>gormx/logger\<close>, \<open>gormx/configx\<close>, \<open>gormx/modelx\<close>. The levels form a
    linear order; the three connection types interpret the locale \<open>gorm_log_config\<close>.
  \<^item> \<open>GormQuery\<close>: \<open>gormx/condition.go\<close>, \<open>query.go\<close>, \<open>search.go\<close>, \<open>datapermission.go\<close>, \<open>db.go\<close> and
    \<open>utils/sort.go\<close>. Search structs become conditions, joins and orders; both condition types interpret
    the locale \<open>condition_sink\<close>. A gorm statement is the list of the calls made on it.
  \<^item> \<open>GormGen\<close>: \<open>gormx/gen\<close> and \<open>SearchKey\<close>. The description of tables and columns read from the
    catalogues of three databases.
  \<^item> \<open>CachedConn\<close>, \<open>Batchx\<close>: \<open>gormx/cachedgorm.go\<close>, \<open>gormx/batchx\<close>. The database, its cache and the calls
    between them, with the spans of the tracer; the agreement of the cache with the database is the invariant.
    The interface that \<open>Batchx\<close> uses is a locale interpreted on the cached connection.
  \<^item> \<open>Composition\<close>: what spans these and \<open>GormQuery\<close>: the statement of a list page, and a batch write followed by
    a cached read.
  \<^item> \<open>Captchax\<close>, \<open>Casbinx\<close>: \<open>captchax/\<close>, \<open>casbinx/\<close>. The store of captchas over a cache; the rules of a role
    over an enforcer made once.
  \<^item> \<open>GoFS\<close>, \<open>GoFSPlain\<close>, \<open>GoWalk\<close>: the package \<open>os\<close> and \<open>filepath.Walk\<close> on a tree of files, directories and
    links; \<open>plain_os\<close> is a well-formed tree without links, \<open>confined D\<close> says that only what is at or below
    \<open>D\<close> changes.
  \<^item> \<open>Filex\<close>, \<open>Archive\<close>, \<open>ArchiveFacts\<close>, \<open>Upload\<close>, \<open>ArchiveSpec\<close>: \<open>filex/\<close>. Copies, moves, archives in four
    formats, volumes, and archives that go to the object store. The formats are the parameter \<open>archlib\<close>
    with the laws \<open>arch_law\<close>; \<open>ArchiveSpec\<close> has an instance of it.
  \<^item> \<open>Pathx\<close>, \<open>Templates\<close>: \<open>pathx/\<close>. Searches, links, renaming and counting; embedded templates.
  \<^item> \<open>GoTime\<close>, \<open>Timex\<close>: the layouts of the package \<open>time\<close> that the program uses, and \<open>timex/\<close>. Times written and
    read; what is accepted as a date is exactly what is written for one.
  \<^item> \<open>ExcelImport\<close>, \<open>ExcelExport\<close>: \<open>toolx/tag.go\<close>, \<open>excelImport.go\<close>, \<open>excelExport.go\<close>. An import is compared with
    the reading \<open>imported\<close> of a row and is one transaction; the database is the list of its statements. An
    export refines the table \<open>table_cell\<close>; a workbook of excelize is the list of the calls made on it.
  \<^item> \<open>Filetools\<close>: \<open>toolx/file.go\<close>. Lines inserted by way of a temporary file, files written and extended.
  \<^item> \<open>Cryptx\<close>: \<open>cryptx/\<close>. Random strings, digests, and the escaping that stops after 1000 occurrences.
  \<^item> \<open>Console\<close>: \<open>console/\<close>. The two consoles behind the interface, the locale \<open>terminal\<close>, and a console that is
    switched off, which does not meet it.
  \<^item> \<open>Notifyx\<close>: \<open>notifyx/\<close>. The queue of 100 messages, its goroutine and the mails as a step relation that remembers
    what was pushed and handled; every waiting message can be handled.
  \<^item> \<open>Shellx\<close>: \<open>shellx/\<close>, \<open>utils/sehllx_nowin.go\<close>, \<open>shellx_win.go\<close>, \<open>FmtCode\<close> of \<open>filex/file.go\<close>. The command, its
    goroutine and the caller with a deadline as step relations; every run ends, and who is left behind.
  \<^item> \<open>Httpx\<close>, \<open>Wechatx\<close>, \<open>Middlewarex\<close>: \<open>httpclent/\<close>, \<open>wechatX/\<close>, \<open>middlewarex/\<close>. Requests and their time limit at
    64 bits; signatures, settings; a middleware that changes nothing.
  \<^item> \<open>Tracing\<close>: \<open>gormx/plugins\<close>, \<open>gormx/gormlog.go\<close>, \<open>gormx/utils\<close>. Spans around statements, the caller in the stack.
  \<^item> \<open>Sortx\<close>: \<open>gormx/sort.go\<close>. A free sort value between its neighbours, for exact numbers.

  \<^bold>\<open>Recursion.\<close> Loops are structural recursions over what the code ranges over; the decoding of UTF-8 and
  of decimal numbers are \<open>function\<close>s with a measure; a recursion over directories ends because a joined
  path is longer and a path has a bounded length (\<open>path_room\<close>). What need not end (\<open>ReadLink\<close>, the searches
  for a module) is a \<open>partial_function (option)\<close> with \<open>None\<close> for not returning. No fuel is used.

  \<^bold>\<open>Not modelled.\<close> The constants of \<open>constx\<close> have no behaviour of their own; \<open>jwtx/ctx.go\<close> is commented out. The
  arithmetic of \<open>float64\<close> is not modelled: \<open>ParseFloat\<close> is an argument and \<open>Sortx\<close> is about exact numbers.
  Contexts matter only where a deadline or a request value is read.
\<close>

end
